(* ===== verification/Float64.thy ===== *)
theory Float64
  imports Prelude "HOL-Library.Log_Nat"
begin

text \<open>
  The language's \<open>float64\<close>: IEEE 754 binary64 with round-to-nearest, ties to even.

  A value is a NaN, an infinity, a zero (both with a sign) or a non-zero rational that is exactly
  representable.  Every operation computes the exact rational result and rounds it once with
  \<open>f64_of_rat\<close>, which is what IEEE 754 prescribes for \<open>+\<close>, \<open>*\<close>, \<open>/\<close> and for the conversion of
  an untyped Go constant.  All of it is executable, so concrete inputs are evaluated by the kernel.
\<close>

section \<open>Binary exponents\<close>

text \<open>\<open>flog2 q\<close> is the floor of the binary logarithm of a positive rational.\<close>

definition flog2 :: "rat \<Rightarrow> int" where
  "flog2 q = (let (n, d) = quotient_of q; k = bitlen n - bitlen d
              in if 2 powi k \<le> q then k else k - 1)"

lemma bitlen_pos_bounds:
  assumes "0 < (n :: int)"
  shows "2 powi (bitlen n - 1) \<le> (of_int n :: rat)" "(of_int n :: rat) < 2 powi bitlen n"
proof -
  from bitlen_bounds [OF assms] have b: "2 ^ nat (bitlen n - 1) \<le> n" "n < 2 ^ nat (bitlen n)" by auto
  have "n \<le> 0" if "bitlen n \<le> 0" using b(2) that by simp
  then have p: "0 < bitlen n" using assms by linarith
  have "of_int (2 ^ nat (bitlen n - 1)) \<le> (of_int n :: rat)" using b(1) by (subst of_int_le_iff)
  with p show "2 powi (bitlen n - 1) \<le> (of_int n :: rat)" by (simp add: power_int_def)
  have "(of_int n :: rat) < of_int (2 ^ nat (bitlen n))" using b(2) by (subst of_int_less_iff)
  with p show "(of_int n :: rat) < 2 powi bitlen n" by (simp add: power_int_def)
qed

lemma powi_pos [simp]: "(0 :: rat) < 2 powi k" "(0 :: rat) < 10 powi k"
  by (simp_all add: zero_less_power_int)

lemma powi_less_iff: "(2 :: rat) powi a < 2 powi b \<longleftrightarrow> a < b"
  using power_int_strict_increasing [of a b "2 :: rat"] power_int_increasing [of b a "2 :: rat"]
  by (meson not_le one_less_numeral_iff less_imp_le semiring_norm(76))

lemma powi_le_iff: "(2 :: rat) powi a \<le> 2 powi b \<longleftrightarrow> a \<le> b"
  using powi_less_iff [of b a] by linarith

lemma flog2_bounds:
  assumes "0 < q"
  shows "2 powi flog2 q \<le> q" "q < 2 powi (flog2 q + 1)"
proof -
  obtain n d where nd: "quotient_of q = (n, d)" by (cases "quotient_of q")
  have d: "0 < d" using quotient_of_denom_pos [OF nd] .
  have q: "q = of_int n / of_int d" using quotient_of_div [OF nd] .
  with assms d have n: "0 < n" by (simp add: zero_less_divide_iff)
  let ?k = "bitlen n - bitlen d"
  note bn = bitlen_pos_bounds [OF n] and bd = bitlen_pos_bounds [OF d]
  have up: "q < 2 powi (?k + 1)"
  proof -
    have "q < 2 powi bitlen n / 2 powi (bitlen d - 1)"
      unfolding q using bn(2) bd(1) d by (intro frac_less) (auto simp: n less_imp_le)
    also have "\<dots> = 2 powi (?k + 1)" by (simp add: power_int_diff [symmetric] algebra_simps)
    finally show ?thesis .
  qed
  have lo: "2 powi (?k - 1) \<le> q"
  proof -
    have "2 powi (?k - 1) = 2 powi (bitlen n - 1) / (2 powi bitlen d :: rat)"
      by (simp add: power_int_diff [symmetric] algebra_simps)
    also have "\<dots> \<le> q"
      unfolding q using bn(1) bd(2) d by (intro frac_le) (auto simp: n less_imp_le)
    finally show ?thesis .
  qed
  show "2 powi flog2 q \<le> q" "q < 2 powi (flog2 q + 1)"
    using up lo by (simp_all add: flog2_def nd Let_def)
qed

lemma flog2_unique:
  assumes "2 powi e \<le> q" "q < 2 powi (e + 1)"
  shows "flog2 q = e"
proof -
  have q: "0 < q" using assms(1) powi_pos(1) [of e] by linarith
  note b = flog2_bounds [OF q]
  from b(1) assms(2) have "(2 :: rat) powi flog2 q < 2 powi (e + 1)" by linarith
  moreover from b(2) assms(1) have "(2 :: rat) powi e < 2 powi (flog2 q + 1)" by linarith
  ultimately show ?thesis by (simp add: powi_less_iff)
qed

lemma flog2_mono: "0 < p \<Longrightarrow> p \<le> q \<Longrightarrow> flog2 p \<le> flog2 q"
proof -
  assume "0 < p" "p \<le> q"
  then have "(2 :: rat) powi flog2 p < 2 powi (flog2 q + 1)"
    using flog2_bounds(1) [of p] flog2_bounds(2) [of q] by linarith
  then show ?thesis by (simp add: powi_less_iff)
qed

section \<open>Rounding\<close>

text \<open>Nearest integer, ties to even.\<close>

definition round_even :: "rat \<Rightarrow> int" where
  "round_even x =
     (let f = \<lfloor>x\<rfloor>; r = x - of_int f
      in if r < 1/2 then f else if 1/2 < r then f + 1 else if even f then f else f + 1)"

lemma round_even_int [simp]: "round_even (of_int i) = i"
  by (simp add: round_even_def)

lemma round_even_mono:
  assumes "x \<le> y" shows "round_even x \<le> round_even y"
proof -
  consider "\<lfloor>x\<rfloor> = \<lfloor>y\<rfloor>" | "\<lfloor>x\<rfloor> < \<lfloor>y\<rfloor>" using floor_mono [OF assms] by linarith
  then show ?thesis
  proof cases
    case 1
    with assms show ?thesis by (auto simp: round_even_def Let_def)
  next
    case 2
    then show ?thesis by (auto simp: round_even_def Let_def)
  qed
qed

lemma round_even_near: "\<bar>of_int (round_even x) - x\<bar> \<le> 1/2"
proof -
  have "of_int \<lfloor>x\<rfloor> \<le> x" "x < of_int \<lfloor>x\<rfloor> + 1" by linarith+
  then show ?thesis by (auto simp: round_even_def Let_def)
qed

text \<open>The exponent of the last place of a positive magnitude, and the magnitude rounded to it.\<close>

definition ulp_exp :: "rat \<Rightarrow> int" where
  "ulp_exp a = max (- 1074) (flog2 a - 52)"

definition rnd_mag :: "rat \<Rightarrow> rat" where
  "rnd_mag a = of_int (round_even (a / 2 powi ulp_exp a)) * 2 powi ulp_exp a"

definition f64_overflow :: rat where
  "f64_overflow = 2 ^ 1024"

lemma ulp_exp_mono: "0 < p \<Longrightarrow> p \<le> q \<Longrightarrow> ulp_exp p \<le> ulp_exp q"
  using flog2_mono [of p q] by (auto simp: ulp_exp_def)

lemma powi_nonneg_int: "0 \<le> e \<Longrightarrow> (2 :: rat) powi e = of_int (2 ^ nat e)"
  by (simp add: power_int_def)

text \<open>A multiple of a power of two with at most 53 bits is rounded to itself.\<close>

lemma rnd_mag_exact:
  assumes "0 < m" "m < 2 ^ 53" "- 1074 \<le> e"
  shows "rnd_mag (of_int m * 2 powi e) = of_int m * 2 powi e"
proof -
  let ?a = "of_int m * 2 powi e :: rat"
  have a: "0 < ?a" using assms(1) by simp
  have "(of_int m :: rat) < 2 powi 53"
  proof -
    have "(of_int m :: rat) < of_int (2 ^ 53)" using assms(2) by (subst of_int_less_iff)
    then show ?thesis by simp
  qed
  then have "?a < 2 powi 53 * 2 powi e" by (intro mult_strict_right_mono) auto
  also have "\<dots> = 2 powi (53 + e)" by (simp add: power_int_add)
  finally have "(2 :: rat) powi flog2 ?a < 2 powi (53 + e)" using flog2_bounds(1) [OF a] by linarith
  then have f: "flog2 ?a \<le> e + 52" by (simp add: powi_less_iff)
  then have u: "ulp_exp ?a \<le> e" using assms(3) by (simp add: ulp_exp_def)
  have "?a / 2 powi ulp_exp ?a = of_int m * 2 powi (e - ulp_exp ?a)"
    by (simp add: power_int_diff)
  then have eq: "?a / 2 powi ulp_exp ?a = of_int (m * 2 ^ nat (e - ulp_exp ?a))"
    using u powi_nonneg_int [of "e - ulp_exp ?a"] by simp
  then have "round_even (?a / 2 powi ulp_exp ?a) = m * 2 ^ nat (e - ulp_exp ?a)"
    by (simp only: round_even_int)
  then show ?thesis
    unfolding rnd_mag_def using eq by (metis nonzero_divide_eq_eq powi_pos(1) less_irrefl)
qed

lemma ulp_exp_ge [simp]: "- 1074 \<le> ulp_exp a"
  by (simp add: ulp_exp_def)

lemma rnd_mag_le_pow:
  assumes "p \<le> 2 powi b" "ulp_exp p \<le> b"
  shows "rnd_mag p \<le> 2 powi b"
proof -
  have e: "2 powi b / 2 powi ulp_exp p = (of_int (2 ^ nat (b - ulp_exp p)) :: rat)"
    using assms(2) powi_nonneg_int [of "b - ulp_exp p"] by (simp add: power_int_diff)
  have "p / 2 powi ulp_exp p \<le> of_int (2 ^ nat (b - ulp_exp p))"
    unfolding e [symmetric] using assms(1) by (intro divide_right_mono) (auto simp: less_imp_le)
  from round_even_mono [OF this] have "round_even (p / 2 powi ulp_exp p) \<le> 2 ^ nat (b - ulp_exp p)"
    by (simp only: round_even_int)
  then have "(of_int (round_even (p / 2 powi ulp_exp p)) :: rat) \<le> 2 powi b / 2 powi ulp_exp p"
    unfolding e by (simp only: of_int_le_iff)
  then show ?thesis by (simp add: rnd_mag_def pos_le_divide_eq)
qed

lemma pow_le_rnd_mag:
  assumes "2 powi b \<le> p" "ulp_exp p \<le> b"
  shows "2 powi b \<le> rnd_mag p"
proof -
  have e: "2 powi b / 2 powi ulp_exp p = (of_int (2 ^ nat (b - ulp_exp p)) :: rat)"
    using assms(2) powi_nonneg_int [of "b - ulp_exp p"] by (simp add: power_int_diff)
  have "of_int (2 ^ nat (b - ulp_exp p)) \<le> p / 2 powi ulp_exp p"
    unfolding e [symmetric] using assms(1) by (intro divide_right_mono) (auto simp: less_imp_le)
  from round_even_mono [OF this] have "2 ^ nat (b - ulp_exp p) \<le> round_even (p / 2 powi ulp_exp p)"
    by (simp only: round_even_int)
  then have "2 powi b / 2 powi ulp_exp p \<le> (of_int (round_even (p / 2 powi ulp_exp p)) :: rat)"
    unfolding e by (simp only: of_int_le_iff)
  then show ?thesis by (simp add: rnd_mag_def pos_divide_le_eq)
qed

text \<open>Rounding is monotone: the fact behind every comparison of rounded values.\<close>

lemma rnd_mag_mono:
  assumes "0 < p" "p \<le> q" shows "rnd_mag p \<le> rnd_mag q"
proof (cases "ulp_exp p = ulp_exp q")
  case True
  have "p / 2 powi ulp_exp q \<le> q / 2 powi ulp_exp q"
    using assms(2) by (intro divide_right_mono) (auto simp: less_imp_le)
  from round_even_mono [OF this] show ?thesis
    unfolding rnd_mag_def True by (intro mult_right_mono) (auto simp: less_imp_le)
next
  case False
  with ulp_exp_mono [OF assms] have lt: "ulp_exp p < ulp_exp q" by simp
  have q: "0 < q" using assms by linarith
  from lt have fq: "ulp_exp q = flog2 q - 52" "flog2 p < flog2 q" by (auto simp: ulp_exp_def)
  have "p \<le> 2 powi flog2 q"
  proof -
    have "(2 :: rat) powi (flog2 p + 1) \<le> 2 powi flog2 q" using fq(2) by (simp only: powi_le_iff)
    with flog2_bounds(2) [OF assms(1)] show ?thesis by linarith
  qed
  then have "rnd_mag p \<le> 2 powi flog2 q" using lt fq by (intro rnd_mag_le_pow) auto
  also have "\<dots> \<le> rnd_mag q" using flog2_bounds(1) [OF q] fq by (intro pow_le_rnd_mag) auto
  finally show ?thesis .
qed

lemma rnd_mag_form:
  assumes "0 < a"
  obtains m e where "0 \<le> m" "m < 2 ^ 53" "- 1074 \<le> e" "rnd_mag a = of_int m * 2 powi e"
proof -
  let ?u = "ulp_exp a" and ?m = "round_even (a / 2 powi ulp_exp a)"
  have m0: "0 \<le> ?m"
    using round_even_mono [of "of_int 0" "a / 2 powi ulp_exp a"] assms by (simp only: round_even_int) simp
  have "a / 2 powi ?u \<le> of_int (2 ^ 53)"
  proof -
    have "a \<le> 2 powi (flog2 a + 1)" using flog2_bounds(2) [OF assms] by simp
    also have "\<dots> \<le> 2 powi (53 + ?u)" by (simp only: powi_le_iff) (simp add: ulp_exp_def)
    also have "\<dots> = 2 powi 53 * 2 powi ?u" by (rule power_int_add) simp
    finally have "a / 2 powi ?u \<le> 2 powi 53" by (subst pos_divide_le_eq) simp_all
    then show ?thesis by simp
  qed
  from round_even_mono [OF this] have m1: "?m \<le> 2 ^ 53" by (simp only: round_even_int)
  show ?thesis
  proof (cases "?m = 2 ^ 53")
    case True
    have "rnd_mag a = of_int (2 ^ 52) * 2 powi (?u + 1)"
      by (simp add: rnd_mag_def True power_int_add)
    then show ?thesis by (intro that [of "2 ^ 52" "?u + 1"]) (auto simp: ulp_exp_def)
  next
    case False
    with m0 m1 show ?thesis by (intro that [of ?m ?u]) (auto simp: rnd_mag_def)
  qed
qed

lemma rnd_mag_nonneg: "0 < a \<Longrightarrow> 0 \<le> rnd_mag a"
  by (rule rnd_mag_form [of a]) auto

lemma rnd_mag_idem:
  assumes "0 < a" "rnd_mag a \<noteq> 0" shows "rnd_mag (rnd_mag a) = rnd_mag a"
proof -
  obtain m e where me: "0 \<le> m" "m < 2 ^ 53" "- 1074 \<le> e" "rnd_mag a = of_int m * 2 powi e"
    using rnd_mag_form [OF assms(1)] .
  with assms(2) have "0 < m" by (cases "m = 0") auto
  with me show ?thesis by (metis rnd_mag_exact)
qed

section \<open>The type and its operations\<close>

text \<open>\<open>True\<close> in \<open>Inf\<close> and \<open>Zero\<close> is the sign bit.\<close>

datatype f64 = NaN | Inf bool | Zero bool | Num rat

text \<open>Round an exact result; \<open>s\<close> is the sign a zero result takes.\<close>

definition f64_of_rat :: "bool \<Rightarrow> rat \<Rightarrow> f64" where
  "f64_of_rat s q =
     (if q = 0 then Zero s
      else let m = rnd_mag \<bar>q\<bar>
           in if m = 0 then Zero (q < 0)
              else if f64_overflow \<le> m then Inf (q < 0)
              else Num (sgn q * m))"

text \<open>An untyped Go constant converted to \<open>float64\<close>.\<close>

definition f64_const :: "rat \<Rightarrow> f64" where
  "f64_const q = f64_of_rat False q"

definition f64_of_int :: "int \<Rightarrow> f64" where
  "f64_of_int i = f64_const (of_int i)"

text \<open>Representable values: what an actual \<open>float64\<close> can hold.\<close>

definition f64_ok :: "f64 \<Rightarrow> bool" where
  "f64_ok x = (case x of Num q \<Rightarrow> q \<noteq> 0 \<and> rnd_mag \<bar>q\<bar> = \<bar>q\<bar> \<and> \<bar>q\<bar> < f64_overflow | _ \<Rightarrow> True)"

fun f64_sign :: "f64 \<Rightarrow> bool" where
  "f64_sign NaN = False"
| "f64_sign (Inf s) = s"
| "f64_sign (Zero s) = s"
| "f64_sign (Num q) = (q < 0)"

fun is_nan :: "f64 \<Rightarrow> bool" where
  "is_nan NaN = True"
| "is_nan x = False"

text \<open>\<open>math.IsInf(x, 0)\<close>\<close>

fun is_inf :: "f64 \<Rightarrow> bool" where
  "is_inf (Inf s) = True"
| "is_inf x = False"

fun is_finite :: "f64 \<Rightarrow> bool" where
  "is_finite (Zero s) = True"
| "is_finite (Num q) = True"
| "is_finite x = False"

fun f64_val :: "f64 \<Rightarrow> rat" where
  "f64_val (Num q) = q"
| "f64_val x = 0"

fun f64_neg :: "f64 \<Rightarrow> f64" where
  "f64_neg NaN = NaN"
| "f64_neg (Inf s) = Inf (\<not> s)"
| "f64_neg (Zero s) = Zero (\<not> s)"
| "f64_neg (Num q) = Num (- q)"

text \<open>\<open>x == y\<close> and \<open>x < y\<close>: false on a NaN, and the two zeros are equal.\<close>

fun f64_eq :: "f64 \<Rightarrow> f64 \<Rightarrow> bool" where
  "f64_eq NaN y = False"
| "f64_eq x NaN = False"
| "f64_eq (Inf s) (Inf t) = (s = t)"
| "f64_eq (Inf s) y = False"
| "f64_eq x (Inf t) = False"
| "f64_eq x y = (f64_val x = f64_val y)"

fun f64_less :: "f64 \<Rightarrow> f64 \<Rightarrow> bool" where
  "f64_less NaN y = False"
| "f64_less x NaN = False"
| "f64_less (Inf s) (Inf t) = (s \<and> \<not> t)"
| "f64_less (Inf s) y = s"
| "f64_less x (Inf t) = (\<not> t)"
| "f64_less x y = (f64_val x < f64_val y)"

fun f64_mul :: "f64 \<Rightarrow> f64 \<Rightarrow> f64" where
  "f64_mul NaN y = NaN"
| "f64_mul x NaN = NaN"
| "f64_mul (Inf s) (Zero t) = NaN"
| "f64_mul (Zero s) (Inf t) = NaN"
| "f64_mul (Inf s) y = Inf (s \<noteq> f64_sign y)"
| "f64_mul x (Inf t) = Inf (f64_sign x \<noteq> t)"
| "f64_mul x y = f64_of_rat (f64_sign x \<noteq> f64_sign y) (f64_val x * f64_val y)"

text \<open>Division of floats never panics in Go: \<open>x / 0\<close> is an infinity and \<open>0 / 0\<close> a NaN.\<close>

fun f64_div :: "f64 \<Rightarrow> f64 \<Rightarrow> f64" where
  "f64_div NaN y = NaN"
| "f64_div x NaN = NaN"
| "f64_div (Inf s) (Inf t) = NaN"
| "f64_div (Inf s) y = Inf (s \<noteq> f64_sign y)"
| "f64_div x (Inf t) = Zero (f64_sign x \<noteq> t)"
| "f64_div (Zero s) (Zero t) = NaN"
| "f64_div (Num p) (Zero t) = Inf ((p < 0) \<noteq> t)"
| "f64_div x y = f64_of_rat (f64_sign x \<noteq> f64_sign y) (f64_val x / f64_val y)"

fun f64_add :: "f64 \<Rightarrow> f64 \<Rightarrow> f64" where
  "f64_add NaN y = NaN"
| "f64_add x NaN = NaN"
| "f64_add (Inf s) (Inf t) = (if s = t then Inf s else NaN)"
| "f64_add (Inf s) y = Inf s"
| "f64_add x (Inf t) = Inf t"
| "f64_add (Zero s) (Zero t) = Zero (s \<and> t)"
| "f64_add x y = f64_of_rat False (f64_val x + f64_val y)"

text \<open>\<open>math.Trunc\<close> (towards zero) and \<open>math.Round\<close> (nearest, halves away from zero); both keep
  the sign of a result that is zero.\<close>

definition trunc_rat :: "rat \<Rightarrow> int" where
  "trunc_rat q = (if q < 0 then - \<lfloor>- q\<rfloor> else \<lfloor>q\<rfloor>)"

definition round_away :: "rat \<Rightarrow> int" where
  "round_away q = (if q < 0 then - \<lfloor>- q + 1/2\<rfloor> else \<lfloor>q + 1/2\<rfloor>)"

fun f64_trunc :: "f64 \<Rightarrow> f64" where
  "f64_trunc (Num q) = f64_of_rat (q < 0) (of_int (trunc_rat q))"
| "f64_trunc x = x"

fun f64_round :: "f64 \<Rightarrow> f64" where
  "f64_round (Num q) = f64_of_rat (q < 0) (of_int (round_away q))"
| "f64_round x = x"

text \<open>\<open>int(x)\<close> for a value that fits; Go leaves the other cases to the implementation.\<close>

definition f64_to_int :: "f64 \<Rightarrow> int" where
  "f64_to_int x = trunc_rat (f64_val x)"

section \<open>Facts on the operations\<close>

lemma f64_overflow_pos [simp]: "0 < f64_overflow"
  by (simp add: f64_overflow_def)

text \<open>The overflow test by exponent, which is what the kernel evaluates.\<close>

lemma overflow_iff: "0 < m \<Longrightarrow> f64_overflow \<le> m \<longleftrightarrow> 1024 \<le> flog2 m"
proof
  assume m: "0 < m" and "f64_overflow \<le> m"
  then have "(2 :: rat) powi 1024 < 2 powi (flog2 m + 1)"
    using flog2_bounds(2) [OF m] by (simp add: f64_overflow_def)
  then show "1024 \<le> flog2 m" by (simp only: powi_less_iff)
next
  assume m: "0 < m" and "1024 \<le> flog2 m"
  then have "(2 :: rat) powi 1024 \<le> 2 powi flog2 m" by (simp only: powi_le_iff)
  with flog2_bounds(1) [OF m] show "f64_overflow \<le> m" by (simp add: f64_overflow_def)
qed

lemma f64_of_rat_code [code]:
  "f64_of_rat s q =
     (if q = 0 then Zero s
      else let m = rnd_mag \<bar>q\<bar>
           in if m = 0 then Zero (q < 0)
              else if 1024 \<le> flog2 m then Inf (q < 0)
              else Num (sgn q * m))"
proof -
  have "0 < rnd_mag \<bar>q\<bar>" if "q \<noteq> 0" "rnd_mag \<bar>q\<bar> \<noteq> 0"
    using rnd_mag_nonneg [of "\<bar>q\<bar>"] that by simp
  then show ?thesis by (auto simp: f64_of_rat_def Let_def overflow_iff)
qed

lemma abs_sgn_mult: "q \<noteq> 0 \<Longrightarrow> 0 \<le> m \<Longrightarrow> \<bar>sgn q * m\<bar> = (m :: rat)"
  by (simp add: abs_mult)

text \<open>Every rounded result is an actual \<open>float64\<close>.\<close>

lemma f64_ok_of_rat [simp]: "f64_ok (f64_of_rat s q)"
proof -
  { assume q: "q \<noteq> 0" "rnd_mag \<bar>q\<bar> \<noteq> 0"
    from q(1) have p: "0 < \<bar>q\<bar>" by simp
    have "\<bar>sgn q * rnd_mag \<bar>q\<bar>\<bar> = rnd_mag \<bar>q\<bar>" by (rule abs_sgn_mult [OF q(1) rnd_mag_nonneg [OF p]])
    moreover have "rnd_mag (rnd_mag \<bar>q\<bar>) = rnd_mag \<bar>q\<bar>" by (rule rnd_mag_idem [OF p q(2)])
    ultimately have "rnd_mag \<bar>sgn q * rnd_mag \<bar>q\<bar>\<bar> = \<bar>sgn q * rnd_mag \<bar>q\<bar>\<bar>"
      "\<bar>sgn q * rnd_mag \<bar>q\<bar>\<bar> = rnd_mag \<bar>q\<bar>" by simp_all }
  then show ?thesis by (auto simp: f64_ok_def f64_of_rat_def Let_def sgn_eq_0_iff)
qed

lemma f64_ok_simps [simp]:
  "f64_ok NaN" "f64_ok (Inf s)" "f64_ok (Zero s)" "f64_ok (f64_const q)" "f64_ok (f64_of_int i)"
  unfolding f64_const_def f64_of_int_def by (simp_all add: f64_ok_def [of NaN] f64_ok_def [of "Inf s"] f64_ok_def [of "Zero s"])

lemma f64_ok_NumD: "f64_ok (Num q) \<Longrightarrow> q \<noteq> 0 \<and> rnd_mag \<bar>q\<bar> = \<bar>q\<bar> \<and> \<bar>q\<bar> < f64_overflow"
  by (simp add: f64_ok_def)

text \<open>Rounding a representable value does nothing.\<close>

lemma f64_of_rat_ok: "f64_ok (Num q) \<Longrightarrow> f64_of_rat s q = Num q"
  by (auto simp: f64_of_rat_def Let_def sgn_mult_abs dest!: f64_ok_NumD)

lemma f64_ok_neg [simp]: "f64_ok x \<Longrightarrow> f64_ok (f64_neg x)"
  by (cases x) (auto simp: f64_ok_def)

lemma f64_ok_mul [simp]: "f64_ok (f64_mul x y)"
  by (cases x; cases y) auto

lemma f64_ok_div [simp]: "f64_ok (f64_div x y)"
  by (cases x; cases y) auto

lemma f64_ok_add [simp]: "f64_ok (f64_add x y)"
  by (cases x; cases y) auto

lemma f64_ok_trunc [simp]: "f64_ok x \<Longrightarrow> f64_ok (f64_trunc x)"
  by (cases x) auto

lemma f64_ok_round [simp]: "f64_ok x \<Longrightarrow> f64_ok (f64_round x)"
  by (cases x) auto

text \<open>Integers below \<open>2^53\<close> are exact.\<close>

lemma rnd_mag_int: "0 < i \<Longrightarrow> i < 2 ^ 53 \<Longrightarrow> rnd_mag (of_int i) = of_int i"
  using rnd_mag_exact [of i 0] by simp

lemma small_int_no_overflow: "\<bar>i\<bar> < 2 ^ 53 \<Longrightarrow> \<bar>of_int i :: rat\<bar> < f64_overflow"
proof -
  assume "\<bar>i\<bar> < 2 ^ 53"
  then have "of_int \<bar>i\<bar> < (of_int (2 ^ 53) :: rat)" by (subst of_int_less_iff)
  also have "(of_int (2 ^ 53) :: rat) \<le> f64_overflow"
    unfolding f64_overflow_def of_int_power of_int_numeral by (rule power_increasing) auto
  finally show ?thesis by simp
qed

lemma f64_ok_int: "i \<noteq> 0 \<Longrightarrow> \<bar>i\<bar> < 2 ^ 53 \<Longrightarrow> f64_ok (Num (of_int i))"
  using rnd_mag_int [of "\<bar>i\<bar>"] small_int_no_overflow [of i] by (auto simp: f64_ok_def)

lemma f64_of_rat_int: "i \<noteq> 0 \<Longrightarrow> \<bar>i\<bar> < 2 ^ 53 \<Longrightarrow> f64_of_rat s (of_int i) = Num (of_int i)"
  by (rule f64_of_rat_ok [OF f64_ok_int])

lemma trunc_rat_int [simp]: "trunc_rat (of_int i) = i"
  by (simp add: trunc_rat_def)

lemma trunc_rat_abs_le: "\<bar>of_int (trunc_rat q) :: rat\<bar> \<le> \<bar>q\<bar>"
  by (auto simp: trunc_rat_def; linarith)

text \<open>Truncation to an integer is exact on a representable value.\<close>

lemma ok_int_or_small:
  assumes "f64_ok (Num q)"
  shows "(\<exists>i. q = of_int i) \<or> \<bar>q\<bar> < 2 ^ 53"
proof -
  from assms have p: "0 < \<bar>q\<bar>" and r: "rnd_mag \<bar>q\<bar> = \<bar>q\<bar>" by (auto simp: f64_ok_def)
  obtain m e where me: "0 \<le> m" "m < 2 ^ 53" "- 1074 \<le> e" "\<bar>q\<bar> = of_int m * 2 powi e"
    using rnd_mag_form [OF p] r by metis
  show ?thesis
  proof (cases "0 \<le> e")
    case True
    then have "\<bar>q\<bar> = of_int (m * 2 ^ nat e)" using me(4) powi_nonneg_int [OF True] by simp
    then have "q = of_int (m * 2 ^ nat e) \<or> q = of_int (- (m * 2 ^ nat e))" by (auto simp: abs_if split: if_splits)
    then show ?thesis by blast
  next
    case False
    then have "(2 :: rat) powi e \<le> 2 powi 0" by (simp only: powi_le_iff)
    then have "\<bar>q\<bar> \<le> of_int m" unfolding me(4) using me(1) mult_left_le [of "2 powi e" "of_int m :: rat"] by simp
    also have "(of_int m :: rat) < of_int (2 ^ 53)" using me(2) by (subst of_int_less_iff)
    finally show ?thesis by simp
  qed
qed

lemma f64_trunc_exact:
  assumes "f64_ok (Num q)"
  shows "f64_trunc (Num q) = (if trunc_rat q = 0 then Zero (q < 0) else Num (of_int (trunc_rat q)))"
proof (cases "trunc_rat q = 0")
  case True
  then show ?thesis by (simp add: f64_of_rat_def)
next
  case False
  from ok_int_or_small [OF assms] show ?thesis
  proof
    assume "\<exists>i. q = of_int i"
    then obtain i where i: "q = of_int i" by blast
    from f64_of_rat_ok [OF assms] i False show ?thesis by simp
  next
    assume "\<bar>q\<bar> < 2 ^ 53"
    with trunc_rat_abs_le [of q] have "of_int \<bar>trunc_rat q\<bar> < (2 :: rat) ^ 53" by simp
    then have "\<bar>trunc_rat q\<bar> < 2 ^ 53" by (simp only: of_int_less_numeral_power_cancel_iff)
    with False show ?thesis by (simp add: f64_of_rat_int)
  qed
qed

text \<open>The sign and the order of rounded results.\<close>

lemma f64_of_rat_finite_iff:
  "is_finite (f64_of_rat s q) \<longleftrightarrow> q = 0 \<or> rnd_mag \<bar>q\<bar> < f64_overflow"
  by (auto simp: f64_of_rat_def Let_def not_le)

lemma f64_of_rat_not_nan [simp]: "f64_of_rat s q \<noteq> NaN"
  by (simp add: f64_of_rat_def Let_def)

lemma f64_val_of_rat:
  "is_finite (f64_of_rat s q) \<Longrightarrow> f64_val (f64_of_rat s q) = (if q = 0 then 0 else sgn q * rnd_mag \<bar>q\<bar>)"
  by (auto simp: f64_of_rat_def Let_def)

end
