(* ===== verification/FormatFloat.thy ===== *)
theory FormatFloat
  imports Float64
begin

text \<open>
  \<open>strconv.FormatFloat(v, 'f', -1, 64)\<close>: the shortest decimal that reads back as \<open>v\<close>, printed
  without an exponent.  A decimal \<open>k * 10^p\<close> reads back as the magnitude \<open>a\<close> when it rounds to
  it; the shortest one is found by lowering \<open>p\<close> from above the leading digit until a multiple of
  \<open>10^p\<close> next to \<open>a\<close> does, and the nearer of two candidates is printed.

  \<open>has_more_iff\<close> gives the decimal-place test of the backend its meaning without the text.
\<close>

section \<open>The shortest decimal\<close>

definition dec_cand :: "rat \<Rightarrow> int \<Rightarrow> int option" where
  "dec_cand a p =
     (let t = a / 10 powi p; lo = \<lfloor>t\<rfloor>; hi = lo + 1; r = t - of_int lo;
          okl = (0 < lo \<and> rnd_mag (of_int lo * 10 powi p) = a);
          okh = (rnd_mag (of_int hi * 10 powi p) = a)
      in if okl \<and> okh then Some (if r < 1/2 then lo else if 1/2 < r then hi else if even lo then lo else hi)
         else if okl then Some lo else if okh then Some hi else None)"

function shortest_from :: "rat \<Rightarrow> int \<Rightarrow> (int \<times> int) option" where
  "shortest_from a p =
     (if p < - 1074 then None
      else case dec_cand a p of Some k \<Rightarrow> Some (k, p) | None \<Rightarrow> shortest_from a (p - 1))"
  by pat_completeness auto
termination
  by (relation "measure (\<lambda>(a, p). nat (p + 1075))") auto

declare shortest_from.simps [simp del]

definition dec_start :: "rat \<Rightarrow> int" where
  "dec_start a = ((flog2 a + 1) * 30103) div 100000 + 1"

definition shortest :: "rat \<Rightarrow> (int \<times> int) option" where
  "shortest a = shortest_from a (dec_start a)"

text \<open>The digits \<open>k\<close> scaled by \<open>10^p\<close>, in the format \<open>'f'\<close>.\<close>

definition fmt_decimal :: "nat \<Rightarrow> int \<Rightarrow> string" where
  "fmt_decimal k p =
     (if 0 \<le> p then nat_digits k @ replicate (nat p) (CHR ''0'')
      else let d = nat (- p); ds = nat_digits k; w = replicate (d + 1 - length ds) (CHR ''0'') @ ds
           in take (length w - d) w @ ''.'' @ drop (length w - d) w)"

definition format_float :: "f64 \<Rightarrow> string" where
  "format_float x =
     (case x of
        NaN \<Rightarrow> ''NaN''
      | Inf s \<Rightarrow> (if s then ''-Inf'' else ''+Inf'')
      | Zero s \<Rightarrow> (if s then ''-0'' else ''0'')
      | Num q \<Rightarrow>
          (if q < 0 then ''-'' else []) @
          (case shortest \<bar>q\<bar> of Some (k, p) \<Rightarrow> fmt_decimal (nat k) p | None \<Rightarrow> []))"

section \<open>The search finds the coarsest decimal\<close>

lemma dec_cand_pos: "0 < a \<Longrightarrow> dec_cand a p = Some k \<Longrightarrow> 0 < k \<and> rnd_mag (of_int k * 10 powi p) = a"
proof -
  assume a: "0 < a" and c: "dec_cand a p = Some k"
  define lo where "lo = \<lfloor>a / 10 powi p\<rfloor>"
  have "0 \<le> lo" using a by (simp add: lo_def less_imp_le)
  with c show ?thesis
    unfolding dec_cand_def Let_def lo_def [symmetric] by (auto split: if_splits)
qed

lemma dec_cand_complete:
  assumes a: "rnd_mag a = a" and k: "0 < k" "rnd_mag (of_int k * 10 powi p) = a"
  shows "dec_cand a p \<noteq> None"
proof -
  let ?t = "a / 10 powi p"
  have kp: "0 < (of_int k * 10 powi p :: rat)" using k(1) by simp
  have tp: "a = ?t * 10 powi p" by simp
  have "(0 < \<lfloor>?t\<rfloor> \<and> rnd_mag (of_int \<lfloor>?t\<rfloor> * 10 powi p) = a) \<or> rnd_mag (of_int (\<lfloor>?t\<rfloor> + 1) * 10 powi p) = a"
  proof (cases "of_int k \<le> ?t")
    case True
    then have kf: "k \<le> \<lfloor>?t\<rfloor>" by (simp add: le_floor_iff)
    have le: "of_int k * 10 powi p \<le> (of_int \<lfloor>?t\<rfloor> * 10 powi p :: rat)"
      using kf by (intro mult_right_mono) (auto simp: less_imp_le)
    have "of_int \<lfloor>?t\<rfloor> \<le> ?t" by linarith
    then have up: "of_int \<lfloor>?t\<rfloor> * 10 powi p \<le> ?t * 10 powi p" by (intro mult_right_mono) (auto simp: less_imp_le)
    have "0 < (of_int \<lfloor>?t\<rfloor> :: rat)" using k(1) kf by linarith
    then have lo: "0 < of_int \<lfloor>?t\<rfloor> * (10 powi p :: rat)" by (intro mult_pos_pos) auto
    from rnd_mag_mono [OF kp le] rnd_mag_mono [OF lo up] have "rnd_mag (of_int \<lfloor>?t\<rfloor> * 10 powi p) = a"
      unfolding tp [symmetric] k(2) a by simp
    moreover have "0 < \<lfloor>?t\<rfloor>" using k(1) kf by linarith
    ultimately show ?thesis by blast
  next
    case False
    then have kf: "\<lfloor>?t\<rfloor> + 1 \<le> k" by linarith
    have le: "of_int (\<lfloor>?t\<rfloor> + 1) * 10 powi p \<le> (of_int k * 10 powi p :: rat)"
      using kf by (intro mult_right_mono) (auto simp: less_imp_le simp del: of_int_add)
    have "?t < of_int (\<lfloor>?t\<rfloor> + 1)" by linarith
    then have lo: "?t * 10 powi p \<le> of_int (\<lfloor>?t\<rfloor> + 1) * 10 powi p"
      by (intro mult_right_mono) (auto simp: less_imp_le simp del: of_int_add)
    show ?thesis
    proof (cases "0 < a")
      case True
      then have p0: "0 < ?t * 10 powi p" by simp
      then have "0 < (of_int (\<lfloor>?t\<rfloor> + 1) * 10 powi p :: rat)" using lo by linarith
      from rnd_mag_mono [OF this le] rnd_mag_mono [OF p0 lo] show ?thesis
        unfolding tp [symmetric] k(2) a by simp
    next
      case False
      then have a0: "a = 0" using rnd_mag_nonneg [OF kp] k(2) by simp
      then have "of_int (\<lfloor>?t\<rfloor> + 1) = (1 :: rat)" by simp
      then have p1: "0 < (of_int (\<lfloor>?t\<rfloor> + 1) * 10 powi p :: rat)" by simp
      from rnd_mag_mono [OF p1 le] rnd_mag_nonneg [OF p1] show ?thesis unfolding k(2) a0 by simp
    qed
  qed
  then show ?thesis by (auto simp: dec_cand_def Let_def)
qed

lemma shortest_from_props:
  assumes "0 < a" "shortest_from a p = Some (k, p')"
  shows "p' \<le> p \<and> 0 < k \<and> rnd_mag (of_int k * 10 powi p') = a \<and> (\<forall>r. p' < r \<and> r \<le> p \<longrightarrow> dec_cand a r = None)"
  using assms
proof (induction a p rule: shortest_from.induct)
  case (1 a p)
  show ?case
  proof (cases "dec_cand a p")
    case None
    with 1 have "p' \<le> p - 1 \<and> 0 < k \<and> rnd_mag (of_int k * 10 powi p') = a \<and> (\<forall>r. p' < r \<and> r \<le> p - 1 \<longrightarrow> dec_cand a r = None)"
      by (simp add: shortest_from.simps [of a p] split: if_splits)
    with None show ?thesis by (metis linorder_not_less order.trans zle_diff1_eq less_le)
  next
    case (Some j)
    with 1 have "k = j" "p' = p" by (auto simp: shortest_from.simps [of a p] split: if_splits)
    with dec_cand_pos [OF 1(2) Some] show ?thesis by auto
  qed
qed

lemma shortest_from_None: "shortest_from a p = None \<Longrightarrow> - 1074 \<le> p \<Longrightarrow> dec_cand a (- 1074) = None"
proof (induction a p rule: shortest_from.induct)
  case (1 a p)
  show ?case
  proof (cases "p = - 1074")
    case True
    with 1 show ?thesis by (simp add: shortest_from.simps [of a "- 1074"] split: option.splits)
  next
    case False
    with 1 show ?thesis by (simp add: shortest_from.simps [of a p] split: option.splits)
  qed
qed

section \<open>The search succeeds on every float\<close>

lemma powi_two_as_ten: "(2 :: rat) powi e = 2 powi (e + int N) * 5 ^ N * 10 powi (- int N)"
proof -
  have ten: "(10 :: rat) ^ N = 5 ^ N * 2 ^ N" by (simp add: power_mult_distrib [symmetric])
  have "(2 :: rat) powi (e + int N) = 2 powi e * 2 ^ N" by (simp add: power_int_add)
  with ten show ?thesis by (simp add: power_int_minus field_simps)
qed

text \<open>At \<open>p = -1074\<close> a representable magnitude is an exact multiple of \<open>10^p\<close>.\<close>

lemma dec_cand_bottom:
  assumes "0 < a" "rnd_mag a = a" "N = (1074 :: nat)"
  shows "dec_cand a (- int N) \<noteq> None"
proof -
  obtain m e where me: "0 \<le> m" "m < 2 ^ 53" "- 1074 \<le> e" "a = of_int m * 2 powi e"
    using rnd_mag_form [OF assms(1)] assms(2) by metis
  let ?k = "m * 2 ^ nat (e + int N) * 5 ^ N"
  have e: "0 \<le> e + int N" using me(3) assms(3) by simp
  have m: "0 < m" using assms(1) me(1,4) by (cases "m = 0") auto
  have "a = of_int m * (2 powi (e + int N) * 5 ^ N * 10 powi (- int N))"
    unfolding me(4) by (simp only: powi_two_as_ten [of e N])
  then have a: "a = of_int ?k * 10 powi (- int N)" using powi_nonneg_int [OF e] by simp
  have "0 < ?k" using m by simp
  with dec_cand_complete [OF assms(2), of ?k "- int N"] assms(2) a show ?thesis by simp
qed

text \<open>The search always ends with a decimal, and it is the coarsest one that reads back.\<close>

lemma shortest_from_succeeds:
  assumes "0 < a" "rnd_mag a = a" "- 1074 \<le> p"
  obtains k p' where "shortest_from a p = Some (k, p')"
  using shortest_from_None [OF _ assms(3)] dec_cand_bottom [OF assms(1,2), of 1074] that
  by (cases "shortest_from a p") auto

lemma f64_min_le: "0 < a \<Longrightarrow> rnd_mag a = a \<Longrightarrow> 2 powi (- 1074) \<le> a"
proof -
  assume a: "0 < a" "rnd_mag a = a"
  obtain m e where me: "0 \<le> m" "m < 2 ^ 53" "- 1074 \<le> e" "a = of_int m * 2 powi e"
    using rnd_mag_form [OF a(1)] a(2) by metis
  have "1 \<le> m" using a(1) me(1,4) by (cases "m = 0") auto
  then have "1 * 2 powi e \<le> of_int m * (2 powi e :: rat)" by (intro mult_right_mono) auto
  moreover have "(2 :: rat) powi (- 1074) \<le> 2 powi e" using me(3) by (simp only: powi_le_iff)
  ultimately show ?thesis using me(4) by linarith
qed

lemma dec_start_ge: "0 < a \<Longrightarrow> rnd_mag a = a \<Longrightarrow> - 1074 \<le> dec_start a"
proof -
  assume a: "0 < a" "rnd_mag a = a"
  have "(2 :: rat) powi (- 1074) < 2 powi (flog2 a + 1)"
    using f64_min_le [OF a] flog2_bounds(2) [OF a(1)] by linarith
  then have "- 1074 < flog2 a + 1" by (simp only: powi_less_iff)
  then show ?thesis by (simp add: dec_start_def)
qed

lemma shortest_props:
  assumes "0 < a" "rnd_mag a = a"
  obtains k p where "shortest a = Some (k, p)" "0 < k" "rnd_mag (of_int k * 10 powi p) = a"
    "\<forall>r j. p < r \<and> r \<le> dec_start a \<and> 0 < j \<longrightarrow> rnd_mag (of_int j * 10 powi r) \<noteq> a"
proof -
  obtain k p where kp: "shortest_from a (dec_start a) = Some (k, p)"
    using shortest_from_succeeds [OF assms dec_start_ge [OF assms]] .
  note pr = shortest_from_props [OF assms(1) kp]
  have none: "\<forall>r j. p < r \<and> r \<le> dec_start a \<and> 0 < j \<longrightarrow> rnd_mag (of_int j * 10 powi r) \<noteq> a"
  proof (intro allI impI notI)
    fix r j assume h: "p < r \<and> r \<le> dec_start a \<and> 0 < j" "rnd_mag (of_int j * 10 powi r) = a"
    from pr h(1) have "dec_cand a r = None" by (simp only: simp_thms)
    with dec_cand_complete [OF assms(2) conjunct2 [OF conjunct2 [OF h(1)]] h(2)] show False by simp
  qed
  show ?thesis
    using that [OF kp [folded shortest_def] conjunct1 [OF conjunct2 [OF pr]]
        conjunct1 [OF conjunct2 [OF conjunct2 [OF pr]]] none] .
qed

section \<open>What the text of a float says\<close>

lemma split_n_no_sep: "CHR ''.'' \<notin> set s \<Longrightarrow> 0 < n \<Longrightarrow> split_n n (CHR ''.'') s = [s]"
proof -
  assume a: "CHR ''.'' \<notin> set s" "0 < n"
  then have d: "dropWhile (\<lambda>x. x \<noteq> CHR ''.'') s = []" by (auto simp: dropWhile_eq_Nil_conv)
  have two: "split_n (Suc (Suc m)) (CHR ''.'') s = [s]" for m
    unfolding split_n.simps d by simp
  from a(2) obtain m where "n = Suc m" by (cases n) auto
  with two show ?thesis by (cases m) simp_all
qed

lemma split_n_one_sep:
  assumes "CHR ''.'' \<notin> set s" "CHR ''.'' \<notin> set t"
  shows "split_n (Suc (Suc n)) (CHR ''.'') (s @ CHR ''.'' # t) = [s, t]"
proof -
  have d: "dropWhile (\<lambda>x. x \<noteq> CHR ''.'') (s @ CHR ''.'' # t) = CHR ''.'' # t"
    using assms(1) by (simp add: dropWhile_append)
  have k: "takeWhile (\<lambda>x. x \<noteq> CHR ''.'') (s @ CHR ''.'' # t) = s"
    using assms(1) by (simp add: takeWhile_append)
  show ?thesis using split_n_no_sep [OF assms(2), of "Suc n"] by (simp add: d k)
qed

lemma no_dot_digits: "list_all is_digit s \<Longrightarrow> CHR ''.'' \<notin> set s"
  by (auto simp: list_all_iff)

lemma fmt_decimal_split_int:
  assumes "CHR ''.'' \<notin> set pre" "0 \<le> p"
  shows "split_all (CHR ''.'') (pre @ fmt_decimal k p) = [pre @ fmt_decimal k p]"
proof -
  have "CHR ''.'' \<notin> set (pre @ fmt_decimal k p)"
    using assms no_dot_digits [OF nat_digits_all_digits, of k] by (auto simp: fmt_decimal_def)
  then show ?thesis unfolding split_all_def by (intro split_n_no_sep) auto
qed

lemma fmt_decimal_split_frac:
  assumes "CHR ''.'' \<notin> set pre" "p < 0"
  obtains i f where "split_all (CHR ''.'') (pre @ fmt_decimal k p) = [i, f]" "length f = nat (- p)"
proof -
  define d where "d = nat (- p)"
  define w where "w = replicate (d + 1 - length (nat_digits k)) (CHR ''0'') @ nat_digits k"
  define i where "i = pre @ take (length w - d) w"
  define f where "f = drop (length w - d) w"
  have "CHR ''.'' \<notin> set w" using no_dot_digits [OF nat_digits_all_digits, of k] by (auto simp: w_def)
  then have nd: "CHR ''.'' \<notin> set i" "CHR ''.'' \<notin> set f"
    using assms by (auto simp: i_def f_def dest: in_set_takeD in_set_dropD)
  have "d < length w" by (simp add: w_def)
  then have len: "length f = d" by (simp add: f_def)
  have eq: "pre @ fmt_decimal k p = i @ CHR ''.'' # f"
    using assms(2) unfolding fmt_decimal_def Let_def d_def [symmetric] w_def [symmetric] i_def f_def by simp
  have "Suc (length (pre @ fmt_decimal k p)) = Suc (Suc (length i + length f))" by (simp add: eq)
  then have "split_all (CHR ''.'') (pre @ fmt_decimal k p) = [i, f]"
    unfolding split_all_def eq by (simp only: split_n_one_sep [OF nd])
  with len that show ?thesis by (simp add: d_def)
qed

text \<open>Digits after the decimal point of the printed value.\<close>

definition printed_decimals :: "f64 \<Rightarrow> nat" where
  "printed_decimals x =
     (case split_all (CHR ''.'') (format_float x) of i # f # _ \<Rightarrow> length f | _ \<Rightarrow> 0)"

lemma printed_decimals_special [simp]:
  "printed_decimals NaN = 0" "printed_decimals (Inf s) = 0" "printed_decimals (Zero s) = 0"
  by (cases s; simp add: printed_decimals_def format_float_def split_all_def)+

lemma dec_start_mono: "0 < a \<Longrightarrow> a \<le> b \<Longrightarrow> dec_start a \<le> dec_start b"
  using flog2_mono [of a b] unfolding dec_start_def by (intro add_right_mono zdiv_mono1 mult_right_mono) auto

text \<open>
  At most \<open>d\<close> decimals are printed exactly when some multiple of \<open>10^-d\<close> reads back as the value.
\<close>

lemma printed_decimals_le_iff:
  assumes ok: "f64_ok (Num q)" and pos: "0 < rnd_mag (1 / 10 ^ d)"
    and start: "- int d \<le> dec_start (rnd_mag (1 / 10 ^ d))"
  shows "printed_decimals (Num q) \<le> d \<longleftrightarrow> (\<exists>k::int. 0 < k \<and> rnd_mag (of_int k / 10 ^ d) = \<bar>q\<bar>)"
proof -
  from ok have a: "0 < \<bar>q\<bar>" "rnd_mag \<bar>q\<bar> = \<bar>q\<bar>" by (auto simp: f64_ok_def)
  obtain k p where kp: "shortest \<bar>q\<bar> = Some (k, p)" "0 < k" "rnd_mag (of_int k * 10 powi p) = \<bar>q\<bar>"
    and coarse: "\<forall>r j. p < r \<and> r \<le> dec_start \<bar>q\<bar> \<and> 0 < j \<longrightarrow> rnd_mag (of_int j * 10 powi r) \<noteq> \<bar>q\<bar>"
    using shortest_props [OF a] .
  define pre where "pre = (if q < 0 then ''-'' else [])"
  have pre: "CHR ''.'' \<notin> set pre" by (simp add: pre_def)
  have ff: "format_float (Num q) = pre @ fmt_decimal (nat k) p" by (simp add: format_float_def kp pre_def)
  have pd: "printed_decimals (Num q) = nat (- p)"
  proof (cases "0 \<le> p")
    case True
    then show ?thesis by (simp add: printed_decimals_def ff fmt_decimal_split_int [OF pre True])
  next
    case False
    then have "p < 0" by simp
    then obtain i f where "split_all (CHR ''.'') (pre @ fmt_decimal (nat k) p) = [i, f]" "length f = nat (- p)"
      by (rule fmt_decimal_split_frac [OF pre])
    then show ?thesis by (simp add: printed_decimals_def ff)
  qed
  have ten: "of_int j / 10 ^ d = (of_int j * 10 powi (- int d) :: rat)" for j
    by (simp add: power_int_minus divide_inverse)
  show ?thesis
  proof
    assume "printed_decimals (Num q) \<le> d"
    then have "0 \<le> p + int d" using pd by simp
    then have "(10 :: rat) powi p = 10 ^ nat (p + int d) * 10 powi (- int d)"
      using power_int_add [of "10 :: rat" "p + int d" "- int d"] by (simp add: power_int_def [of _ "p + int d"])
    then have "(of_int k * 10 powi p :: rat) = of_int (k * 10 ^ nat (p + int d)) * 10 powi (- int d)"
      by simp
    moreover have "0 < k * 10 ^ nat (p + int d)" using kp(2) by simp
    ultimately show "\<exists>k::int. 0 < k \<and> rnd_mag (of_int k / 10 ^ d) = \<bar>q\<bar>" unfolding ten using kp(3) by metis
  next
    assume "\<exists>k::int. 0 < k \<and> rnd_mag (of_int k / 10 ^ d) = \<bar>q\<bar>"
    then obtain j :: int where j: "0 < j" "rnd_mag (of_int j / 10 ^ d) = \<bar>q\<bar>" by blast
    have "1 / 10 ^ d \<le> (of_int j / 10 ^ d :: rat)" using j(1) by (intro divide_right_mono) auto
    then have "rnd_mag (1 / 10 ^ d) \<le> \<bar>q\<bar>" unfolding j(2) [symmetric] by (intro rnd_mag_mono) auto
    from dec_start_mono [OF pos this] start have "- int d \<le> dec_start \<bar>q\<bar>" by simp
    with coarse j show "printed_decimals (Num q) \<le> d" unfolding pd ten by (metis linorder_not_le nat_le_iff minus_le_iff)
  qed
qed

text \<open>The three precisions the backend truncates to.\<close>

lemma dec_start_scales:
  "0 < rnd_mag (1 / 10 ^ 3)" "- int 3 \<le> dec_start (rnd_mag (1 / 10 ^ 3))"
  "0 < rnd_mag (1 / 10 ^ 2)" "- int 2 \<le> dec_start (rnd_mag (1 / 10 ^ 2))"
  "0 < rnd_mag (1 / 10 ^ 1)" "- int 1 \<le> dec_start (rnd_mag (1 / 10 ^ 1))"
  by code_simp+

lemma printed_decimals_le3: "f64_ok (Num q) \<Longrightarrow>
    printed_decimals (Num q) \<le> 3 \<longleftrightarrow> (\<exists>k::int. 0 < k \<and> rnd_mag (of_int k / 10 ^ 3) = \<bar>q\<bar>)"
  by (rule printed_decimals_le_iff [OF _ dec_start_scales(1) dec_start_scales(2)])

lemma printed_decimals_le2: "f64_ok (Num q) \<Longrightarrow>
    printed_decimals (Num q) \<le> 2 \<longleftrightarrow> (\<exists>k::int. 0 < k \<and> rnd_mag (of_int k / 10 ^ 2) = \<bar>q\<bar>)"
  by (rule printed_decimals_le_iff [OF _ dec_start_scales(3) dec_start_scales(4)])

lemma printed_decimals_le1: "f64_ok (Num q) \<Longrightarrow>
    printed_decimals (Num q) \<le> 1 \<longleftrightarrow> (\<exists>k::int. 0 < k \<and> rnd_mag (of_int k / 10 ^ 1) = \<bar>q\<bar>)"
  by (rule printed_decimals_le_iff [OF _ dec_start_scales(5) dec_start_scales(6)])

text \<open>A whole number of units divided by the scale prints with no more digits than the scale has.\<close>

lemma printed_decimals_div:
  assumes iff: "\<And>q. f64_ok (Num q) \<Longrightarrow>
      printed_decimals (Num q) \<le> d \<longleftrightarrow> (\<exists>k::int. 0 < k \<and> rnd_mag (of_int k / 10 ^ d) = \<bar>q\<bar>)"
  shows "printed_decimals (f64_of_rat s (of_int i / 10 ^ d)) \<le> d"
proof (cases "f64_of_rat s (of_int i / 10 ^ d)")
  case (Num r)
  have ok: "f64_ok (Num r)" using f64_ok_of_rat [of s "of_int i / 10 ^ d"] Num by simp
  from Num have i: "i \<noteq> 0" by (auto simp: f64_of_rat_def)
  have "\<bar>of_int i / 10 ^ d\<bar> = (of_int \<bar>i\<bar> / 10 ^ d :: rat)" by (simp add: abs_divide)
  with Num have "r = sgn (of_int i / 10 ^ d) * rnd_mag (of_int \<bar>i\<bar> / 10 ^ d)"
    by (auto simp: f64_of_rat_def Let_def split: if_splits)
  moreover have "0 \<le> rnd_mag (of_int \<bar>i\<bar> / 10 ^ d)" using i by (intro rnd_mag_nonneg) simp
  ultimately have "\<bar>r\<bar> = rnd_mag (of_int \<bar>i\<bar> / 10 ^ d)" using i by (simp add: abs_mult sgn_mult)
  moreover have "0 < \<bar>i\<bar>" using i by simp
  ultimately have "\<exists>k::int. 0 < k \<and> rnd_mag (of_int k / 10 ^ d) = \<bar>r\<bar>" by metis
  with iff [OF ok] Num show ?thesis by simp
qed auto

end
