(* ===== verification/Conversion.thy ===== *)
theory Conversion
  imports FormatFloat
begin

text \<open>
  \<open>internal/utils/conversion.go\<close>: the clamps to the database's NUMERIC columns, the percentage and
  the truncations that the display and the stored sort columns share.  Every \<open>float64\<close> operation is
  the rounded one of \<open>Float64\<close>, in the order the code applies it.
\<close>

section \<open>The code\<close>

definition maxNumeric10_4Magnitude :: f64 where
  "maxNumeric10_4Magnitude = f64_const (999999 + 9999 / 10000)"

definition ClampToNumeric10_4Range :: "f64 \<Rightarrow> f64" where
  "ClampToNumeric10_4Range p =
     (if is_nan p \<or> is_inf p then Zero False
      else if f64_less maxNumeric10_4Magnitude p then maxNumeric10_4Magnitude
      else if f64_less p (f64_neg maxNumeric10_4Magnitude) then f64_neg maxNumeric10_4Magnitude
      else p)"

definition maxNumeric20_4Magnitude :: f64 where
  "maxNumeric20_4Magnitude = f64_const (9999999999999999 + 9999 / 10000)"

definition ClampToNumeric20_4Range :: "f64 \<Rightarrow> f64" where
  "ClampToNumeric20_4Range v =
     (if is_nan v \<or> is_inf v then Zero False
      else if f64_less maxNumeric20_4Magnitude v then maxNumeric20_4Magnitude
      else if f64_less v (f64_neg maxNumeric20_4Magnitude) then f64_neg maxNumeric20_4Magnitude
      else v)"

definition CalculatePercentage :: "f64 \<Rightarrow> f64 \<Rightarrow> f64" where
  "CalculatePercentage numerator denominator =
     (if f64_eq numerator (f64_const 0) \<or> f64_eq denominator (f64_const 0) then f64_const 0
      else f64_mul (f64_div numerator denominator) (f64_const 100))"

definition hasMoreThanThreeDecimals :: "f64 \<Rightarrow> bool" where
  "hasMoreThanThreeDecimals value =
     (let decimalPart = split_all (CHR ''.'') (format_float value)
      in 1 < length decimalPart \<and> 3 < length (decimalPart ! 1))"

definition TruncateToThreeDecimalPlaces :: "f64 \<Rightarrow> f64" where
  "TruncateToThreeDecimalPlaces value =
     (if hasMoreThanThreeDecimals value
      then f64_div (f64_trunc (f64_mul value (f64_const 1000))) (f64_const 1000)
      else value)"

definition TruncateMemoryBytesToMiBTwoDecimals :: "f64 \<Rightarrow> f64" where
  "TruncateMemoryBytesToMiBTwoDecimals memoryBytes =
     (let memoryInMiB = f64_div (f64_div memoryBytes (f64_const 1024)) (f64_const 1024)
      in f64_div (f64_trunc (f64_mul memoryInMiB (f64_const 100))) (f64_const 100))"

definition TruncateMemoryBytesToGiBTwoDecimals :: "f64 \<Rightarrow> f64" where
  "TruncateMemoryBytesToGiBTwoDecimals memoryBytes =
     (let memoryInGiB = f64_div (f64_div (f64_div memoryBytes (f64_const 1024)) (f64_const 1024)) (f64_const 1024)
      in f64_div (f64_trunc (f64_mul memoryInGiB (f64_const 100))) (f64_const 100))"

definition VariationPercentOfRequestCPU :: "f64 \<Rightarrow> f64 \<Rightarrow> f64" where
  "VariationPercentOfRequestCPU variationCores currentCores =
     (let v = TruncateToThreeDecimalPlaces variationCores;
          d = TruncateToThreeDecimalPlaces currentCores;
          p = CalculatePercentage v d;
          p = TruncateToThreeDecimalPlaces p
      in ClampToNumeric10_4Range p)"

definition VariationPercentOfRequestMemoryBytesMiB :: "f64 \<Rightarrow> f64 \<Rightarrow> f64" where
  "VariationPercentOfRequestMemoryBytesMiB variationBytes currentBytes =
     (let v = TruncateMemoryBytesToMiBTwoDecimals variationBytes;
          d = TruncateMemoryBytesToMiBTwoDecimals currentBytes;
          p = CalculatePercentage v d;
          p = TruncateToThreeDecimalPlaces p
      in ClampToNumeric10_4Range p)"

section \<open>The contract the two clamps share\<close>

text \<open>
  A clamp to a symmetric range \<open>[-M, M]\<close> of rationals: what both clamps of the code promise and
  what the code storing the values relies on.
\<close>

locale numeric_clamp =
  fixes clamp :: "f64 \<Rightarrow> f64" and M :: rat
  assumes bound_pos: "0 < M"
    and bound_ok: "f64_ok (Num M)"
    and nonfinite: "\<not> is_finite x \<Longrightarrow> clamp x = Zero False"
    and above: "is_finite x \<Longrightarrow> M < f64_val x \<Longrightarrow> clamp x = Num M"
    and below: "is_finite x \<Longrightarrow> f64_val x < - M \<Longrightarrow> clamp x = Num (- M)"
    and inside: "is_finite x \<Longrightarrow> \<bar>f64_val x\<bar> \<le> M \<Longrightarrow> clamp x = x"
begin

lemma cases3:
  obtains "\<not> is_finite x" "clamp x = Zero False"
  | "is_finite x" "M < f64_val x" "clamp x = Num M"
  | "is_finite x" "f64_val x < - M" "clamp x = Num (- M)"
  | "is_finite x" "\<bar>f64_val x\<bar> \<le> M" "clamp x = x"
proof -
  have "\<bar>f64_val x\<bar> \<le> M \<or> M < f64_val x \<or> f64_val x < - M" by linarith
  then show ?thesis using that nonfinite above below inside by blast
qed

lemma finite: "is_finite (clamp x)"
  by (rule cases3 [of x]) auto

lemma bounded: "\<bar>f64_val (clamp x)\<bar> \<le> M"
  using bound_pos by (rule_tac cases3 [of x]) auto

lemma ok: "f64_ok x \<Longrightarrow> f64_ok (clamp x)"
  using f64_ok_neg [OF bound_ok] bound_ok by (rule_tac cases3 [of x]) auto

lemma idem: "clamp (clamp x) = clamp x"
  by (rule inside [OF finite bounded])

lemma mono: "is_finite x \<Longrightarrow> is_finite y \<Longrightarrow> f64_val x \<le> f64_val y \<Longrightarrow> f64_val (clamp x) \<le> f64_val (clamp y)"
  using bound_pos by (rule_tac cases3 [of x]; rule_tac cases3 [of y]) auto

lemma fixpoint_iff: "clamp x = x \<longleftrightarrow> is_finite x \<and> \<bar>f64_val x\<bar> \<le> M"
  using finite [of x] bounded [of x] inside [of x] by metis

end

lemma f64_less_finite: "is_finite x \<Longrightarrow> is_finite y \<Longrightarrow> f64_less x y \<longleftrightarrow> f64_val x < f64_val y"
  by (cases x; cases y) auto

lemma f64_eq_zero_iff: "f64_eq x (f64_const 0) \<longleftrightarrow> is_finite x \<and> f64_val x = 0"
  by (cases x) (auto simp: f64_const_def f64_of_rat_def)

lemma not_finite_iff: "\<not> is_finite x \<longleftrightarrow> is_nan x \<or> is_inf x"
  by (cases x) auto

lemma max10_4: "maxNumeric10_4Magnitude = Num (8589934591141007 / 8589934592)"
  unfolding maxNumeric10_4Magnitude_def by code_simp

lemma max20_4: "maxNumeric20_4Magnitude = Num (10 ^ 16)"
  unfolding maxNumeric20_4Magnitude_def by code_simp

text \<open>Both clamps have the same shape, so one lemma discharges the contract for both.\<close>

lemma numeric_clampI:
  assumes L: "L = Num M" and M: "0 < M" and ok: "f64_ok L"
    and shape: "\<And>x. clamp x =
      (if is_nan x \<or> is_inf x then Zero False
       else if f64_less L x then L else if f64_less x (f64_neg L) then f64_neg L else x)"
  shows "numeric_clamp clamp M"
proof unfold_locales
  show "f64_ok (Num M)" using ok by (simp only: L)
qed (use M in \<open>auto simp: shape L f64_less_finite not_finite_iff [symmetric] abs_le_iff\<close>)

definition numeric10_4_max :: rat where
  "numeric10_4_max = 8589934591141007 / 8589934592"

definition numeric20_4_max :: rat where
  "numeric20_4_max = 10 ^ 16"

lemmas max10_4_Num = max10_4 [folded numeric10_4_max_def]
lemmas max20_4_Num = max20_4 [folded numeric20_4_max_def]

lemma numeric_max_pos: "0 < numeric10_4_max" "0 < numeric20_4_max"
  by (simp_all add: numeric10_4_max_def numeric20_4_max_def)

lemma numeric_max_ok: "f64_ok maxNumeric10_4Magnitude" "f64_ok maxNumeric20_4Magnitude"
  by (simp_all add: maxNumeric10_4Magnitude_def maxNumeric20_4Magnitude_def)

interpretation clamp10: numeric_clamp ClampToNumeric10_4Range numeric10_4_max
  by (rule numeric_clampI [OF max10_4_Num numeric_max_pos(1) numeric_max_ok(1) ClampToNumeric10_4Range_def])

interpretation clamp20: numeric_clamp ClampToNumeric20_4Range numeric20_4_max
  by (rule numeric_clampI [OF max20_4_Num numeric_max_pos(2) numeric_max_ok(2) ClampToNumeric20_4Range_def])

section \<open>What the conversions guarantee\<close>

lemma numeric10_4_max_lt: "numeric10_4_max < 10 ^ 6"
  by (simp add: numeric10_4_max_def)

lemma hasMore_iff: "hasMoreThanThreeDecimals v \<longleftrightarrow> 3 < printed_decimals v"
  by (auto simp: hasMoreThanThreeDecimals_def printed_decimals_def Let_def split: list.splits)

lemma f64_const_1000: "f64_const 1000 = Num 1000"
  using f64_of_rat_int [of 1000 False] by (simp add: f64_const_def)

lemma f64_const_100: "f64_const 100 = Num 100"
  using f64_of_rat_int [of 100 False] by (simp add: f64_const_def)

lemma f64_const_1024: "f64_const 1024 = Num 1024"
  using f64_of_rat_int [of 1024 False] by (simp add: f64_const_def)

lemma printed_decimals_div_scale:
  "printed_decimals (f64_of_rat s (of_int i / 1000)) \<le> 3"
  "printed_decimals (f64_of_rat s (of_int i / 100)) \<le> 2"
  using printed_decimals_div [where d = 3, OF printed_decimals_le3, of s i]
    printed_decimals_div [where d = 2, OF printed_decimals_le2, of s i] by simp_all

text \<open>A float with a whole value divided by the scale prints at most the scale's digits.\<close>

lemma printed_decimals_trunc_div:
  "f64_ok x \<Longrightarrow> printed_decimals (f64_div (f64_trunc x) (f64_const 1000)) \<le> 3"
  "f64_ok x \<Longrightarrow> printed_decimals (f64_div (f64_trunc x) (f64_const 100)) \<le> 2"
proof -
  assume ok: "f64_ok x"
  have "f64_trunc x = x \<and> \<not> is_finite x \<or> (\<exists>s. f64_trunc x = Zero s) \<or> (\<exists>i. f64_trunc x = Num (of_int i))"
    using ok by (cases x) (simp_all add: f64_trunc_exact del: f64_trunc.simps(1))
  moreover have "printed_decimals (f64_div x (Num 1000)) \<le> 3" "printed_decimals (f64_div x (Num 100)) \<le> 2"
    if "\<not> is_finite x" using that by (cases x; simp)+
  ultimately show "printed_decimals (f64_div (f64_trunc x) (f64_const 1000)) \<le> 3"
    "printed_decimals (f64_div (f64_trunc x) (f64_const 100)) \<le> 2"
    unfolding f64_const_1000 f64_const_100
    by (elim disjE exE conjE; simp add: printed_decimals_div_scale f64_of_rat_def [of _ 0])+
qed

lemma trunc3_decimals: "printed_decimals (TruncateToThreeDecimalPlaces v) \<le> 3"
  by (simp add: TruncateToThreeDecimalPlaces_def hasMore_iff printed_decimals_trunc_div not_less)

lemma trunc3_ok: "f64_ok v \<Longrightarrow> f64_ok (TruncateToThreeDecimalPlaces v)"
  by (simp add: TruncateToThreeDecimalPlaces_def)

lemma memory_ok [simp]:
  "f64_ok (TruncateMemoryBytesToMiBTwoDecimals v)" "f64_ok (TruncateMemoryBytesToGiBTwoDecimals v)"
  by (simp_all add: TruncateMemoryBytesToMiBTwoDecimals_def TruncateMemoryBytesToGiBTwoDecimals_def)

text \<open>C27: Whatever the two amounts are (zero, infinite or NaN included), the CPU percentage
  that is stored is a finite number below \<open>10^6\<close> in magnitude, so it fits the NUMERIC(10,4) column.\<close>

theorem VariationPercentOfRequestCPU_fits:
  "is_finite (VariationPercentOfRequestCPU v c) \<and> \<bar>f64_val (VariationPercentOfRequestCPU v c)\<bar> < 10 ^ 6"
  using clamp10.finite clamp10.bounded numeric10_4_max_lt
  unfolding VariationPercentOfRequestCPU_def Let_def by (meson le_less_trans)

text \<open>The same for the stored memory percentage.\<close>

theorem VariationPercentOfRequestMemory_fits:
  "is_finite (VariationPercentOfRequestMemoryBytesMiB v c)
     \<and> \<bar>f64_val (VariationPercentOfRequestMemoryBytesMiB v c)\<bar> < 10 ^ 6"
  using clamp10.finite clamp10.bounded numeric10_4_max_lt
  unfolding VariationPercentOfRequestMemoryBytesMiB_def Let_def by (meson le_less_trans)

text \<open>The clamp meant for NUMERIC(20,4) does not keep values inside that column: its
  limit is a constant that \<open>float64\<close> rounds to \<open>10^16\<close>, so every larger request is clamped to
  \<open>10^16\<close>, which has 17 digits before the point where the column holds 16.\<close>

theorem ClampToNumeric20_4Range_reaches_overflow:
  assumes "is_finite v" "10 ^ 16 \<le> f64_val v"
  shows "f64_val (ClampToNumeric20_4Range v) = 10 ^ 16"
proof (cases "f64_val v = 10 ^ 16")
  case True
  with clamp20.inside [OF assms(1)] show ?thesis by (simp add: numeric20_4_max_def)
next
  case False
  with clamp20.above [OF assms(1)] assms(2) show ?thesis by (simp add: numeric20_4_max_def)
qed

theorem ClampToNumeric20_4Range_reaches_overflow_witness:
  "f64_val (ClampToNumeric20_4Range (f64_const (10 ^ 17))) = 10 ^ 16"
proof -
  have "is_finite (f64_const (10 ^ 17))" "10 ^ 16 \<le> f64_val (f64_const (10 ^ 17))" by code_simp+
  then show ?thesis by (rule ClampToNumeric20_4Range_reaches_overflow)
qed

text \<open>Truncating to three decimal places leaves a value that prints at most three
  digits after the point, and truncating it again changes nothing.\<close>

theorem TruncateToThreeDecimalPlaces_display:
  "printed_decimals (TruncateToThreeDecimalPlaces v) \<le> 3
     \<and> TruncateToThreeDecimalPlaces (TruncateToThreeDecimalPlaces v) = TruncateToThreeDecimalPlaces v"
  using trunc3_decimals [of v]
  by (simp add: TruncateToThreeDecimalPlaces_def [of "TruncateToThreeDecimalPlaces v"] hasMore_iff not_less)

text \<open>Memory shown in MiB or GiB prints at most two digits after the point.\<close>

theorem TruncateMemory_display:
  "printed_decimals (TruncateMemoryBytesToMiBTwoDecimals v) \<le> 2
     \<and> printed_decimals (TruncateMemoryBytesToGiBTwoDecimals v) \<le> 2"
  by (simp add: TruncateMemoryBytesToMiBTwoDecimals_def TruncateMemoryBytesToGiBTwoDecimals_def
      printed_decimals_trunc_div)

text \<open>The percentage of two finite amounts is never a NaN and is zero when either
  amount is zero, so no division by zero reaches the response.\<close>

theorem CalculatePercentage_no_nan:
  assumes "is_finite n" "is_finite d"
  shows "\<not> is_nan (CalculatePercentage n d)
    \<and> (f64_val n = 0 \<or> f64_val d = 0 \<longrightarrow> CalculatePercentage n d = Zero False)"
proof -
  have z: "f64_const 0 = Zero False" by (simp add: f64_const_def f64_of_rat_def)
  have "f64_mul (f64_div n d) (f64_const 100) \<noteq> NaN" if nz: "f64_val n \<noteq> 0" "f64_val d \<noteq> 0"
  proof -
    from assms nz obtain p q where "n = Num p" "d = Num q" by (cases n; cases d) auto
    then have "f64_div n d \<noteq> NaN" by simp
    then show ?thesis by (cases "f64_div n d") (auto simp: f64_const_100)
  qed
  then have "\<not> is_nan (f64_mul (f64_div n d) (f64_const 100))" if "f64_val n \<noteq> 0" "f64_val d \<noteq> 0"
    using that by (cases "f64_mul (f64_div n d) (f64_const 100)") auto
  with assms show ?thesis by (auto simp: CalculatePercentage_def f64_eq_zero_iff [unfolded z] z)
qed

theorem CalculatePercentage_no_nan_witness:
  "\<not> is_nan (CalculatePercentage (f64_const 1) (f64_const 0))
     \<and> CalculatePercentage (f64_const 1) (f64_const 0) = Zero False"
proof -
  have "is_finite (f64_const 1)" "is_finite (f64_const 0)" "f64_val (f64_const 0) = 0" by code_simp+
  with CalculatePercentage_no_nan [of "f64_const 1" "f64_const 0"] show ?thesis by simp
qed

end
