(* ===== verification/GoTime.thy ===== *)
theory GoTime
  imports Float64
begin

text \<open>
  What the backend uses of Go's \<open>time\<close> package.  A time is an instant (nanoseconds since
  0001-01-01T00:00:00 UTC, Go's zero time) read in a zone with a fixed offset and a name; the
  proleptic Gregorian calendar is computed from day numbers.  The text formats of the backend are
  written out, and \<open>time.Parse\<close> is modelled for the layouts it is called with.

  \<open>civil_days\<close> and \<open>days_civil\<close> show that dates and day numbers are two views of one thing, which
  is what the calendar arithmetic of the housekeeper and of the poller rests on.
\<close>

section \<open>The calendar\<close>

definition leap :: "int \<Rightarrow> bool" where
  "leap y = (y mod 4 = 0 \<and> (y mod 100 \<noteq> 0 \<or> y mod 400 = 0))"

definition days_in :: "int \<Rightarrow> int \<Rightarrow> int" where
  "days_in m y =
     (if m = 2 then (if leap y then 29 else 28) else if m \<in> {4, 6, 9, 11} then 30 else 31)"

text \<open>Days before January 1 of year \<open>y\<close>, counted from 0001-01-01.\<close>

definition year_start :: "int \<Rightarrow> int" where
  "year_start y = (let k = y - 1 in 365 * k + k div 4 - k div 100 + k div 400)"

text \<open>Days of the year before month \<open>m\<close>.\<close>

definition month_start :: "int \<Rightarrow> int \<Rightarrow> int" where
  "month_start y m =
     (let l = (if leap y then 1 else 0)
      in if m \<le> 1 then 0 else if m = 2 then 31 else if m = 3 then 59 + l else if m = 4 then 90 + l
         else if m = 5 then 120 + l else if m = 6 then 151 + l else if m = 7 then 181 + l
         else if m = 8 then 212 + l else if m = 9 then 243 + l else if m = 10 then 273 + l
         else if m = 11 then 304 + l else 334 + l)"

definition days_of_civil :: "int \<Rightarrow> int \<Rightarrow> int \<Rightarrow> int" where
  "days_of_civil y m d = year_start y + month_start y m + (d - 1)"

definition year_of :: "int \<Rightarrow> int" where
  "year_of n =
     (let e = (400 * n) div 146097 + 1
      in if year_start (e + 1) \<le> n then e + 1 else if n < year_start e then e - 1 else e)"

definition month_of :: "int \<Rightarrow> int \<Rightarrow> int" where
  "month_of y r =
     (if r < month_start y 2 then 1 else if r < month_start y 3 then 2 else if r < month_start y 4 then 3
      else if r < month_start y 5 then 4 else if r < month_start y 6 then 5 else if r < month_start y 7 then 6
      else if r < month_start y 8 then 7 else if r < month_start y 9 then 8 else if r < month_start y 10 then 9
      else if r < month_start y 11 then 10 else if r < month_start y 12 then 11 else 12)"

definition civil_of_days :: "int \<Rightarrow> int \<times> int \<times> int" where
  "civil_of_days n =
     (let y = year_of n; r = n - year_start y; m = month_of y r in (y, m, r - month_start y m + 1))"

definition valid_civil :: "int \<Rightarrow> int \<Rightarrow> int \<Rightarrow> bool" where
  "valid_civil y m d = (1 \<le> m \<and> m \<le> 12 \<and> 1 \<le> d \<and> d \<le> days_in m y)"

lemma div_succ: "0 < c \<Longrightarrow> (k + 1) div c = k div c + (if (k + 1) mod c = 0 then 1 else (0 :: int))"
proof -
  assume c: "0 < c"
  have k: "k = c * (k div c) + k mod c" by simp
  have r: "0 \<le> k mod c" "k mod c < c" using c by simp_all
  show ?thesis
  proof (cases "k mod c = c - 1")
    case True
    with k have eq: "k + 1 = c * (k div c + 1) + 0" by (simp add: algebra_simps)
    have "(k + 1) div c = k div c + 1" "(k + 1) mod c = 0"
      using int_div_pos_eq [OF eq] int_mod_pos_eq [OF eq] c by simp_all
    then show ?thesis by simp
  next
    case False
    with r have lt: "0 \<le> k mod c + 1" "k mod c + 1 < c" by simp_all
    from k have eq: "k + 1 = c * (k div c) + (k mod c + 1)" by simp
    have "(k + 1) div c = k div c" "(k + 1) mod c = k mod c + 1"
      using int_div_pos_eq [OF eq lt] int_mod_pos_eq [OF eq lt] by simp_all
    with r show ?thesis by simp
  qed
qed

lemma mod_chain:
  fixes y :: int
  shows "y mod 400 = 0 \<Longrightarrow> y mod 100 = 0" "y mod 100 = 0 \<Longrightarrow> y mod 4 = 0"
proof -
  have "(100 :: int) dvd 400" "(4 :: int) dvd 100" by simp_all
  then show "y mod 400 = 0 \<Longrightarrow> y mod 100 = 0" "y mod 100 = 0 \<Longrightarrow> y mod 4 = 0"
    unfolding mod_eq_0_iff_dvd by (blast intro: dvd_trans)+
qed

lemma year_start_step: "year_start (y + 1) = year_start y + (if leap y then 366 else 365)"
proof -
  have s: "year_start (y + 1) - year_start y
      = 365 + (y div 4 - (y - 1) div 4) - (y div 100 - (y - 1) div 100) + (y div 400 - (y - 1) div 400)"
    by (simp add: year_start_def Let_def)
  have d: "y div c - (y - 1) div c = (if y mod c = 0 then 1 else 0)" if "0 < c" for c
    using div_succ [OF that, of "y - 1"] by simp
  have "year_start (y + 1) - year_start y = 365 + (if y mod 4 = 0 then 1 else 0) - (if y mod 100 = 0 then 1 else 0)
      + (if y mod 400 = 0 then 1 else 0)"
    unfolding s by (simp only: d zero_less_numeral)
  also have "\<dots> = (if leap y then 366 else 365)"
    using mod_chain [of y] by (cases "y mod 4 = 0"; cases "y mod 100 = 0"; cases "y mod 400 = 0") (simp_all only: leap_def, auto)
  finally show ?thesis by simp
qed

lemma leap_cycle_bounds:
  fixes a b c r s t k :: int
  assumes "4 * a + r = k" "100 * b + s = k" "400 * c + t = k"
    and "0 \<le> r" "r < 4" "0 \<le> s" "s < 100" "0 \<le> t" "t < 400"
  shows "146097 * k - 699 \<le> 400 * (365 * k + a - b + c)" "400 * (365 * k + a - b + c) \<le> 146097 * k + 396"
  using assms unfolding distrib_left right_diff_distrib by - linarith+

lemma year_start_bounds:
  "146097 * (y - 1) - 699 \<le> 400 * year_start y" "400 * year_start y \<le> 146097 * (y - 1) + 396"
proof -
  define k where "k = y - 1"
  note b = leap_cycle_bounds [of "k div 4" "k mod 4" k "k div 100" "k mod 100" "k div 400" "k mod 400"]
  show "146097 * (y - 1) - 699 \<le> 400 * year_start y" "400 * year_start y \<le> 146097 * (y - 1) + 396"
    unfolding year_start_def Let_def k_def [symmetric] by (rule b; simp)+
qed

lemma year_start_mono:
  assumes "a < b" shows "year_start a < year_start b"
proof -
  from assms have "146097 * (a - 1) + 146097 \<le> 146097 * (b - 1)" by simp
  then show ?thesis using year_start_bounds [of a] year_start_bounds [of b] by linarith
qed

lemma year_guess:
  fixes n q r a b :: int
  assumes "400 * n = 146097 * q + r" "0 \<le> r" "r < 146097"
    and "400 * a \<le> 146097 * (q - 1) + 396" "146097 * (q + 2) - 699 \<le> 400 * b"
  shows "a \<le> n" "n < b"
  using assms unfolding distrib_left right_diff_distrib by - linarith+

lemma year_of_bounds: "year_start (year_of n) \<le> n \<and> n < year_start (year_of n + 1)"
proof -
  define q where "q = (400 * n) div 146097"
  define r where "r = (400 * n) mod 146097"
  have n: "400 * n = 146097 * q + r" "0 \<le> r" "r < 146097"
    by (simp_all add: q_def r_def)
  have "400 * year_start q \<le> 146097 * (q - 1) + 396" "146097 * (q + 2) - 699 \<le> 400 * year_start (q + 3)"
    using year_start_bounds [of q] year_start_bounds [of "q + 3"] by simp_all
  from year_guess [OF n this] have "year_start q \<le> n" "n < year_start (q + 1 + 1 + 1)"
    by (simp_all add: add.assoc)
  then show ?thesis
    by (simp add: year_of_def Let_def q_def [symmetric] add.assoc)
qed

lemma year_of_unique:
  assumes "year_start y \<le> n" "n < year_start (y + 1)" shows "year_of n = y"
proof -
  note b = year_of_bounds [of n]
  have "\<not> y < year_of n"
  proof
    assume "y < year_of n"
    then have "y + 1 = year_of n \<or> y + 1 < year_of n" by linarith
    with year_start_mono [of "y + 1" "year_of n"] b assms show False by auto
  qed
  moreover have "\<not> year_of n < y"
  proof
    assume "year_of n < y"
    then have "year_of n + 1 = y \<or> year_of n + 1 < y" by linarith
    with year_start_mono [of "year_of n + 1" y] b assms show False by auto
  qed
  ultimately show ?thesis by linarith
qed

lemma month_start_simps [simp]:
  "month_start y 1 = 0" "month_start y 2 = 31" "month_start y 3 = (if leap y then 60 else 59)"
  "month_start y 4 = (if leap y then 91 else 90)" "month_start y 5 = (if leap y then 121 else 120)"
  "month_start y 6 = (if leap y then 152 else 151)" "month_start y 7 = (if leap y then 182 else 181)"
  "month_start y 8 = (if leap y then 213 else 212)" "month_start y 9 = (if leap y then 244 else 243)"
  "month_start y 10 = (if leap y then 274 else 273)" "month_start y 11 = (if leap y then 305 else 304)"
  "month_start y 12 = (if leap y then 335 else 334)"
  by (simp_all add: month_start_def)

lemma days_in_simps [simp]:
  "days_in 1 y = 31" "days_in 2 y = (if leap y then 29 else 28)" "days_in 3 y = 31" "days_in 4 y = 30"
  "days_in 5 y = 31" "days_in 6 y = 30" "days_in 7 y = 31" "days_in 8 y = 31" "days_in 9 y = 30"
  "days_in 10 y = 31" "days_in 11 y = 30" "days_in 12 y = 31"
  by (simp_all add: days_in_def)

lemma month_cases: "1 \<le> m \<Longrightarrow> m \<le> 12 \<Longrightarrow> m \<in> {1, 2, 3, 4, 5, 6, 7, 8, 9, 10, 11, 12 :: int}"
  by simp presburger

lemma month_of_props:
  assumes "0 \<le> r" "r < (if leap y then 366 else 365)"
  shows "1 \<le> month_of y r \<and> month_of y r \<le> 12 \<and> month_start y (month_of y r) \<le> r
    \<and> r < month_start y (month_of y r) + days_in (month_of y r) y"
proof -
  define m where "m = month_of y r"
  then have "m = (if r < month_start y 2 then 1 else if r < month_start y 3 then 2 else if r < month_start y 4 then 3
      else if r < month_start y 5 then 4 else if r < month_start y 6 then 5 else if r < month_start y 7 then 6
      else if r < month_start y 8 then 7 else if r < month_start y 9 then 8 else if r < month_start y 10 then 9
      else if r < month_start y 11 then 10 else if r < month_start y 12 then 11 else 12)"
    by (simp only: month_of_def)
  with assms have "1 \<le> m \<and> m \<le> 12 \<and> month_start y m \<le> r \<and> r < month_start y m + days_in m y"
    by (cases "leap y") (auto split: if_splits)
  then show ?thesis by (simp only: m_def)
qed

lemma month_of_unique:
  assumes "1 \<le> m" "m \<le> 12" "1 \<le> d" "d \<le> days_in m y"
  shows "month_of y (month_start y m + (d - 1)) = m"
  using month_cases [OF assms(1,2)] assms(3,4)
  by (elim insertE emptyE; cases "leap y"; simp add: month_of_def)

text \<open>A day number read as a date and back, and a date turned into a day number and back.\<close>

lemma days_civil: "(case civil_of_days n of (y, m, d) \<Rightarrow> valid_civil y m d \<and> days_of_civil y m d = n)"
proof -
  let ?y = "year_of n" and ?r = "n - year_start (year_of n)"
  have "0 \<le> ?r" "?r < (if leap ?y then 366 else 365)"
    using year_of_bounds [of n] year_start_step [of ?y] by auto
  from month_of_props [OF this] show ?thesis
    by (auto simp: civil_of_days_def Let_def valid_civil_def days_of_civil_def)
qed

lemma month_end_bound:
  "1 \<le> m \<Longrightarrow> m \<le> 12 \<Longrightarrow> 0 \<le> month_start y m \<and> month_start y m + days_in m y \<le> (if leap y then 366 else 365)"
  by (drule (1) month_cases) (elim insertE emptyE; simp)

lemma civil_days: "valid_civil y m d \<Longrightarrow> civil_of_days (days_of_civil y m d) = (y, m, d)"
proof -
  assume v: "valid_civil y m d"
  then have m: "1 \<le> m" "m \<le> 12" "1 \<le> d" "d \<le> days_in m y" by (auto simp: valid_civil_def)
  have "year_start y \<le> days_of_civil y m d" "days_of_civil y m d < year_start (y + 1)"
    using month_end_bound [OF m(1,2), of y] m(3,4) by (auto simp: days_of_civil_def year_start_step)
  then have "year_of (days_of_civil y m d) = y" by (rule year_of_unique)
  with month_of_unique [OF m] show ?thesis
    by (simp add: civil_of_days_def Let_def days_of_civil_def)
qed

section \<open>Instants in a zone\<close>

record gotime =
  t_ns :: int
  t_off :: int
  t_zone :: string

definition sec_ns :: int where "sec_ns = 1000000000"
definition day_ns :: int where "day_ns = 86400 * sec_ns"

definition go_zero_time :: gotime where
  "go_zero_time = \<lparr>t_ns = 0, t_off = 0, t_zone = ''UTC''\<rparr>"

definition wall_ns :: "gotime \<Rightarrow> int" where
  "wall_ns t = t_ns t + t_off t * sec_ns"

definition wall_day :: "gotime \<Rightarrow> int" where
  "wall_day t = wall_ns t div day_ns"

text \<open>\<open>t.Date()\<close>, and the nanoseconds since midnight that \<open>t.Clock()\<close> and \<open>t.Nanosecond()\<close> split.\<close>

definition t_date :: "gotime \<Rightarrow> int \<times> int \<times> int" where
  "t_date t = civil_of_days (wall_day t)"

definition t_tod :: "gotime \<Rightarrow> int" where
  "t_tod t = wall_ns t mod day_ns"

definition t_before :: "gotime \<Rightarrow> gotime \<Rightarrow> bool" where
  "t_before a b = (t_ns a < t_ns b)"

definition t_after :: "gotime \<Rightarrow> gotime \<Rightarrow> bool" where
  "t_after a b = (t_ns b < t_ns a)"

definition is_zero_time :: "gotime \<Rightarrow> bool" where
  "is_zero_time t = (t_ns t = 0)"

text \<open>
  \<open>time.Date(y, m, d, ..)\<close> with the time of day given in nanoseconds; a month outside 1..12 moves
  the year, and a day outside the month is counted on from its first day.
\<close>

definition go_date :: "int \<Rightarrow> int \<Rightarrow> int \<Rightarrow> int \<Rightarrow> int \<Rightarrow> string \<Rightarrow> gotime" where
  "go_date y m d tod off zone =
     (let y' = y + (m - 1) div 12; m' = (m - 1) mod 12 + 1
      in \<lparr>t_ns = (days_of_civil y' m' 1 + (d - 1)) * day_ns + tod - off * sec_ns,
          t_off = off, t_zone = zone\<rparr>)"

text \<open>\<open>t.AddDate(years, months, days)\<close>\<close>

definition add_date :: "gotime \<Rightarrow> int \<Rightarrow> int \<Rightarrow> int \<Rightarrow> gotime" where
  "add_date t ys ms ds =
     (case t_date t of (y, m, d) \<Rightarrow> go_date (y + ys) (m + ms) (d + ds) (t_tod t) (t_off t) (t_zone t))"

text \<open>\<open>t.Sub(u)\<close> saturates at the 64-bit duration; \<open>d.Hours()\<close> adds a whole and a fractional part.\<close>

definition t_sub :: "gotime \<Rightarrow> gotime \<Rightarrow> int" where
  "t_sub t u = max int_min (min int_max (t_ns t - t_ns u))"

definition tdiv :: "int \<Rightarrow> int \<Rightarrow> int" where
  "tdiv a b = (if 0 \<le> a then a div b else - ((- a) div b))"

definition hour_ns :: int where "hour_ns = 3600 * sec_ns"

definition dur_hours :: "int \<Rightarrow> f64" where
  "dur_hours d =
     (let h = tdiv d hour_ns; r = d - h * hour_ns
      in f64_add (f64_of_int h) (f64_div (f64_of_int r) (f64_of_int hour_ns)))"

lemma t_tod_bounds: "0 \<le> t_tod t" "t_tod t < day_ns"
  by (simp_all add: t_tod_def day_ns_def sec_ns_def)

lemma wall_split: "wall_ns t = wall_day t * day_ns + t_tod t"
  by (simp add: wall_day_def t_tod_def)

lemma go_date_valid:
  assumes "valid_civil y m d" "0 \<le> tod" "tod < day_ns"
  shows "t_date (go_date y m d tod off zone) = (y, m, d)" "t_tod (go_date y m d tod off zone) = tod"
    "t_off (go_date y m d tod off zone) = off" "t_zone (go_date y m d tod off zone) = zone"
proof -
  let ?t = "go_date y m d tod off zone"
  from assms have m: "(m - 1) div 12 = 0" "(m - 1) mod 12 = m - 1" by (simp_all add: valid_civil_def)
  have w: "wall_ns ?t = days_of_civil y m d * day_ns + tod"
    by (simp add: wall_ns_def go_date_def Let_def m days_of_civil_def)
  have p: "0 < day_ns" by (simp add: day_ns_def sec_ns_def)
  then have "wall_day ?t = days_of_civil y m d" "t_tod ?t = tod"
    using assms(2,3) by (simp_all add: wall_day_def t_tod_def w)
  then show "t_date ?t = (y, m, d)" "t_tod ?t = tod"
    using civil_days [OF assms(1)] by (simp_all add: t_date_def)
  show "t_off ?t = off" "t_zone ?t = zone" by (simp_all add: go_date_def Let_def)
qed

lemma go_date_of_fields:
  assumes "t_date t = (y, m, d)"
  shows "go_date y m d (t_tod t) (t_off t) (t_zone t) = t"
proof -
  from days_civil [of "wall_day t"] assms
  have v: "valid_civil y m d" "days_of_civil y m d = wall_day t" by (auto simp: t_date_def)
  from v(1) have m: "(m - 1) div 12 = 0" "(m - 1) mod 12 = m - 1" by (simp_all add: valid_civil_def)
  have "wall_ns t = t_ns t + t_off t * sec_ns" by (simp add: wall_ns_def)
  with wall_split [of t] v(2) show ?thesis
    by (simp add: go_date_def Let_def m days_of_civil_def)
qed

lemma t_date_valid: "t_date t = (y, m, d) \<Longrightarrow> valid_civil y m d"
  using days_civil [of "wall_day t"] by (auto simp: t_date_def)

end
