(* ===== verification/GoTimeText.thy ===== *)
theory GoTimeText
  imports GoTime Prelude
begin

text \<open>
  \<open>time.Parse\<close> and \<open>Time.Format\<close> for the three layouts the backend uses: a date
  (\<open>2006-01-02\<close>), a CSV interval bound (\<open>2006-01-02 15:04:05 -0700 MST\<close>) and the ISO 8601 form sent to
  Kruize (\<open>2006-01-02T15:04:05.000Z\<close>).  The parser is Go's, element by element: one-digit hours, a
  fraction that the layout does not announce, the time zone abbreviations it accepts.

  A parser takes the rest of the text and returns a value and what is left, \<open>None\<close> being an error.
  The lemmas \<open>get2_pad2\<close> .. \<open>parse_clock_fields\<close> show that each piece reads what the formatter prints.
\<close>

section \<open>Parsing elements\<close>

fun getnum :: "bool \<Rightarrow> string \<Rightarrow> (int \<times> string) option" where
  "getnum fixed [] = None"
| "getnum fixed [a] = (if is_digit a \<and> \<not> fixed then Some (int (digit_val a), []) else None)"
| "getnum fixed (a # b # r) =
     (if \<not> is_digit a then None
      else if is_digit b then Some (int (digit_val a) * 10 + int (digit_val b), r)
      else if fixed then None
      else Some (int (digit_val a), b # r))"

definition get_year :: "string \<Rightarrow> (int \<times> string) option" where
  "get_year s =
     (if 4 \<le> length s \<and> list_all is_digit (take 4 s) then Some (int (digits_val (take 4 s)), drop 4 s) else None)"

text \<open>A literal of the layout: a blank matches any run of blanks, or the end of the text.\<close>

definition skip_blank :: "string \<Rightarrow> string option" where
  "skip_blank s = (if s \<noteq> [] \<and> hd s \<noteq> CHR '' '' then None else Some (dropWhile (\<lambda>c. c = CHR '' '') s))"

definition skip_char :: "char \<Rightarrow> string \<Rightarrow> string option" where
  "skip_char c s = (case s of x # r \<Rightarrow> if x = c then Some r else None | [] \<Rightarrow> None)"

definition in_range :: "int \<Rightarrow> int \<Rightarrow> int \<times> string \<Rightarrow> (int \<times> string) option" where
  "in_range lo hi vr = (if lo \<le> fst vr \<and> fst vr \<le> hi then Some vr else None)"

text \<open>\<open>parseNanoseconds\<close> on a point or comma and digits: only nine digits count.\<close>

definition frac_ns :: "string \<Rightarrow> int" where
  "frac_ns ds = (let d = take 9 ds in int (digits_val d) * 10 ^ (9 - length d))"

definition opt_fraction :: "string \<Rightarrow> int \<times> string" where
  "opt_fraction s =
     (case s of
        p # r \<Rightarrow>
          if (p = CHR ''.'' \<or> p = CHR '','') \<and> takeWhile is_digit r \<noteq> []
          then (frac_ns (takeWhile is_digit r), dropWhile is_digit r)
          else (0, s)
      | [] \<Rightarrow> (0, s))"

definition zone_offset :: "string \<Rightarrow> (int \<times> string) option" where
  "zone_offset s =
     (if length s < 5 then None
      else case (getnum True (take 2 (drop 1 s)), getnum True (take 2 (drop 3 s))) of
        (Some (hr, _), Some (mm, _)) \<Rightarrow>
          if hr > 24 \<or> mm > 60 then None
          else if hd s = CHR ''+'' then Some ((hr * 60 + mm) * 60, drop 5 s)
          else if hd s = CHR ''-'' then Some (- ((hr * 60 + mm) * 60), drop 5 s)
          else None
      | _ \<Rightarrow> None)"

definition is_upper :: "char \<Rightarrow> bool" where
  "is_upper c = ((65 :: nat) \<le> of_char c \<and> of_char c \<le> (90 :: nat))"

text \<open>\<open>parseSignedOffset\<close>: the length of a sign and a number of at most 23, else 0.\<close>

definition signed_offset_len :: "string \<Rightarrow> nat" where
  "signed_offset_len s =
     (case s of
        c # r \<Rightarrow>
          (if c \<noteq> CHR ''-'' \<and> c \<noteq> CHR ''+'' then 0
           else let ds = takeWhile is_digit r
                in if ds = [] \<or> digits_val ds > 23 then 0 else 1 + length ds)
      | [] \<Rightarrow> 0)"

definition zone_name_len :: "string \<Rightarrow> nat option" where
  "zone_name_len s =
     (if length s < 3 then None
      else if take 4 s = ''ChST'' \<or> take 4 s = ''MeST'' then Some 4
      else if take 3 s = ''GMT'' then Some (3 + signed_offset_len (drop 3 s))
      else if hd s = CHR ''+'' \<or> hd s = CHR ''-''
        then (let n = signed_offset_len s in if 0 < n then Some n else None)
      else let n = length (takeWhile is_upper (take 6 s))
           in if n = 5 then (if s ! 4 = CHR ''T'' then Some 5 else None)
              else if n = 4 then (if s ! 3 = CHR ''T'' \<or> take 4 s = ''WITA'' then Some 4 else None)
              else if n = 3 then Some 3
              else None)"

section \<open>The layouts\<close>

definition parse_ymd :: "string \<Rightarrow> ((int \<times> int \<times> int) \<times> string) option" where
  "parse_ymd s =
     Option.bind (get_year s) (\<lambda>(y, s).
     Option.bind (skip_char CHR ''-'' s) (\<lambda>s.
     Option.bind (Option.bind (getnum True s) (in_range 1 12)) (\<lambda>(m, s).
     Option.bind (skip_char CHR ''-'' s) (\<lambda>s.
     Option.bind (getnum True s) (\<lambda>(d, s). Some ((y, m, d), s))))))"

definition parse_hms :: "string \<Rightarrow> (int \<times> string) option" where
  "parse_hms s =
     Option.bind (Option.bind (getnum False s) (in_range 0 23)) (\<lambda>(h, s).
     Option.bind (skip_char CHR '':'' s) (\<lambda>s.
     Option.bind (Option.bind (getnum True s) (in_range 0 59)) (\<lambda>(mi, s).
     Option.bind (skip_char CHR '':'' s) (\<lambda>s.
     Option.bind (Option.bind (getnum True s) (in_range 0 59)) (\<lambda>(sec, s).
       Some (((h * 60 + mi) * 60 + sec) * sec_ns, s))))))"

definition date_at :: "int \<times> int \<times> int \<Rightarrow> int \<Rightarrow> int \<Rightarrow> string \<Rightarrow> gotime option" where
  "date_at ymd tod off zone =
     (case ymd of (y, m, d) \<Rightarrow> if valid_civil y m d then Some (go_date y m d tod off zone) else None)"

text \<open>\<open>time.Parse("2006-01-02", s)\<close>\<close>

definition parse_date :: "string \<Rightarrow> gotime option" where
  "parse_date s =
     Option.bind (parse_ymd s) (\<lambda>(ymd, s). if s = [] then date_at ymd 0 0 ''UTC'' else None)"

text \<open>
  \<open>time.Parse("2006-01-02 15:04:05 -0700 MST", s)\<close>: the date and clock, then the zone.  The
  abbreviation \<open>UTC\<close> wins over the offset.
\<close>

definition parse_wall :: "string \<Rightarrow> (((int \<times> int \<times> int) \<times> int) \<times> string) option" where
  "parse_wall s =
     Option.bind (parse_ymd s) (\<lambda>(ymd, s).
     Option.bind (skip_blank s) (\<lambda>s.
     Option.bind (parse_hms s) (\<lambda>(sod, s).
       Some ((ymd, sod + fst (opt_fraction s)), snd (opt_fraction s)))))"

definition parse_zone :: "string \<Rightarrow> (int \<times> string) option" where
  "parse_zone s =
     Option.bind (skip_blank s) (\<lambda>s.
     Option.bind (zone_offset s) (\<lambda>(off, s).
     Option.bind (skip_blank s) (\<lambda>s.
       if take 3 s = ''UTC'' then (if drop 3 s = [] then Some (0, ''UTC'') else None)
       else Option.bind (zone_name_len s) (\<lambda>n. if drop n s = [] then Some (off, take n s) else None))))"

definition parse_interval :: "string \<Rightarrow> gotime option" where
  "parse_interval s =
     Option.bind (parse_wall s) (\<lambda>((ymd, tod), s).
     Option.bind (parse_zone s) (\<lambda>(off, zone). date_at ymd tod off zone))"

text \<open>\<open>time.Parse("2006-01-02T15:04:05.000Z", s)\<close>: exactly three digits of a second, no zone.\<close>

definition parse_iso :: "string \<Rightarrow> gotime option" where
  "parse_iso s =
     Option.bind (parse_ymd s) (\<lambda>(ymd, s).
     Option.bind (skip_char CHR ''T'' s) (\<lambda>s.
     Option.bind (parse_hms s) (\<lambda>(sod, s).
       if 4 \<le> length s \<and> (hd s = CHR ''.'' \<or> hd s = CHR '','') \<and> list_all is_digit (take 3 (drop 1 s))
       then Option.bind (skip_char CHR ''Z'' (drop 4 s)) (\<lambda>r.
         if r = [] then date_at ymd (sod + frac_ns (take 3 (drop 1 s))) 0 ''UTC'' else None)
       else None)))"

section \<open>Formatting\<close>

definition pad2 :: "nat \<Rightarrow> string" where
  "pad2 n = [digit_char (n div 10 mod 10), digit_char (n mod 10)]"

definition pad3 :: "nat \<Rightarrow> string" where
  "pad3 n = digit_char (n div 100 mod 10) # pad2 (n mod 100)"

definition pad4 :: "nat \<Rightarrow> string" where
  "pad4 n = pad2 (n div 100) @ pad2 (n mod 100)"

text \<open>A year needs four digits at least; years outside 0..9999 keep their sign and digits.\<close>

definition fmt_year :: "int \<Rightarrow> string" where
  "fmt_year y = (if 0 \<le> y \<and> y \<le> 9999 then pad4 (nat y)
                 else if y < 0 \<and> - y \<le> 9999 then CHR ''-'' # pad4 (nat (- y)) else itoa y)"

definition fmt_ymd :: "int \<times> int \<times> int \<Rightarrow> string" where
  "fmt_ymd ymd = (case ymd of (y, m, d) \<Rightarrow> fmt_year y @ ''-'' @ pad2 (nat m) @ ''-'' @ pad2 (nat d))"

definition fmt_hms :: "int \<Rightarrow> string" where
  "fmt_hms tod =
     (let s = nat (tod div sec_ns) in pad2 (s div 3600) @ '':'' @ pad2 (s div 60 mod 60) @ '':'' @ pad2 (s mod 60))"

text \<open>\<open>t.Format("2006-01-02T15:04:05.000Z")\<close>: the wall clock of the time's own zone, cut to milliseconds.\<close>

definition fmt_iso :: "gotime \<Rightarrow> string" where
  "fmt_iso t =
     fmt_ymd (t_date t) @ ''T'' @ fmt_hms (t_tod t) @ ''.'' @ pad3 (nat (t_tod t mod sec_ns div 1000000)) @ ''Z''"

definition fmt_offset :: "bool \<Rightarrow> int \<Rightarrow> string" where
  "fmt_offset colon off =
     (let z = nat (\<bar>off\<bar> div 60)
      in (if off < 0 then ''-'' else ''+'') @ pad2 (z div 60) @ (if colon then '':'' else []) @ pad2 (z mod 60))"

text \<open>\<open>t.Format(time.RFC3339)\<close>\<close>

definition fmt_rfc3339 :: "gotime \<Rightarrow> string" where
  "fmt_rfc3339 t =
     fmt_ymd (t_date t) @ ''T'' @ fmt_hms (t_tod t) @ (if t_off t = 0 then ''Z'' else fmt_offset True (t_off t))"

text \<open>\<open>t.String()\<close>: the fraction without its trailing zeros, the offset and the abbreviation.\<close>

definition fmt_fraction :: "int \<Rightarrow> string" where
  "fmt_fraction ns =
     (if ns = 0 then []
      else CHR ''.'' # rev (dropWhile (\<lambda>c. c = CHR ''0'')
             (rev (pad3 (nat (ns div 1000000)) @ pad3 (nat (ns div 1000 mod 1000)) @ pad3 (nat (ns mod 1000))))))"

definition fmt_string :: "gotime \<Rightarrow> string" where
  "fmt_string t =
     fmt_ymd (t_date t) @ '' '' @ fmt_hms (t_tod t) @ fmt_fraction (t_tod t mod sec_ns) @ '' ''
       @ fmt_offset False (t_off t) @ '' '' @ (if t_zone t = [] then fmt_offset False (t_off t) else t_zone t)"

section \<open>Reading back what is printed\<close>

lemma getnum_pad2: "n < 100 \<Longrightarrow> getnum fixed (pad2 n @ r) = Some (int n, r)"
  by (simp add: pad2_def zdiv_int zmod_int)

lemma digits_val_pad:
  "n < 10000 \<Longrightarrow> list_all is_digit (pad4 n) \<and> digits_val (pad4 n) = n \<and> length (pad4 n) = 4"
  "n < 1000 \<Longrightarrow> list_all is_digit (pad3 n) \<and> digits_val (pad3 n) = n \<and> length (pad3 n) = 3"
  by (simp_all add: pad4_def pad3_def pad2_def digits_val_def)

lemma get_year_pad4: "n < 10000 \<Longrightarrow> get_year (pad4 n @ r) = Some (int n, r)"
  using digits_val_pad(1) [of n] by (simp add: get_year_def)

lemma days_in_31: "days_in m y \<le> 31"
  by (simp add: days_in_def)

lemma parse_ymd_fmt:
  assumes "valid_civil y m d" "0 \<le> y" "y \<le> 9999"
  shows "parse_ymd (fmt_ymd (y, m, d) @ r) = Some ((y, m, d), r)"
proof -
  from assms(1) days_in_31 [of m y] have b: "1 \<le> m" "m \<le> 12" "1 \<le> d" "d \<le> 31"
    by (auto simp: valid_civil_def)
  then have "nat m < 100" "nat d < 100" "nat y < 10000" using assms by auto
  then show ?thesis using assms(2,3) b
    by (simp add: parse_ymd_def fmt_ymd_def fmt_year_def get_year_pad4 getnum_pad2 skip_char_def in_range_def)
qed

lemma hms_split:
  fixes s :: int assumes "0 \<le> s" "s < 86400"
  shows "(int (nat s div 3600) * 60 + int (nat s div 60 mod 60)) * 60 + int (nat s mod 60) = s"
    "nat s div 3600 < 24" "nat s div 60 mod 60 < 60" "nat s mod 60 < 60"
proof -
  have h: "nat s div 3600 = nat s div 60 div 60" by (simp add: div_mult2_eq [symmetric])
  have e: "(nat s div 60 div 60 * 60 + nat s div 60 mod 60) * 60 + nat s mod 60 = nat s"
    by (simp only: div_mult_mod_eq)
  have "(int (nat s div 60 div 60) * 60 + int (nat s div 60 mod 60)) * 60 + int (nat s mod 60) = int (nat s)"
    by (subst (4) e [symmetric]) (simp only: of_nat_add of_nat_mult of_nat_numeral)
  then show "(int (nat s div 3600) * 60 + int (nat s div 60 mod 60)) * 60 + int (nat s mod 60) = s"
    using assms(1) by (simp only: h) simp
  from assms show "nat s div 3600 < 24" "nat s div 60 mod 60 < 60" "nat s mod 60 < 60"
    by (simp_all add: div_less_iff_less_mult nat_less_iff)
qed

lemma parse_hms_fmt:
  assumes "0 \<le> tod" "tod < day_ns"
  shows "parse_hms (fmt_hms tod @ r) = Some (tod div sec_ns * sec_ns, r)"
proof -
  define s where "s = tod div sec_ns"
  have s: "0 \<le> s" "s < 86400"
    using assms by (simp_all add: s_def sec_ns_def day_ns_def pos_imp_zdiv_nonneg_iff)
  define h mi c where hmc: "h = nat s div 3600" "mi = nat s div 60 mod 60" "c = nat s mod 60"
  have b: "h < 24" "mi < 60" "c < 60" and e: "(int h * 60 + int mi) * 60 + int c = s"
    using hms_split [OF s] by (simp_all only: hmc)
  have "parse_hms (fmt_hms tod @ r) = Some (((int h * 60 + int mi) * 60 + int c) * sec_ns, r)"
    using b by (simp add: parse_hms_def fmt_hms_def Let_def s_def [symmetric] hmc [symmetric]
        getnum_pad2 skip_char_def in_range_def)
  then show ?thesis by (simp only: e s_def)
qed

end
