(* ===== verification/Dates.thy ===== *)
theory Dates
  imports GoTimeText
begin

text \<open>
  The date helpers of \<open>internal/utils/utils.go\<close>: the CSV's interval bounds are read with
  \<open>ConvertStringToTime\<close>, sent to Kruize in ISO 8601 by \<open>ConvertDateToISO8601\<close> and read back with
  \<open>ConvertISO8601StringToTime\<close>; \<open>MaxIntervalEndTime\<close> picks the latest end and
  \<open>NeedRecommOnFirstOfMonth\<close> decides whether a new month asks for a recommendation.

  A panic of the source (an index out of range) is the value \<open>Panicked\<close>.
\<close>

datatype date_error =
    BadDate string
  | BadDateInSlice date_error

datatype ('e, 'a) outcome = Panicked string | Failed 'e | Returned 'a

definition ConvertDateToISO8601 :: "string \<Rightarrow> date_error + string" where
  "ConvertDateToISO8601 date =
     (case parse_interval date of None \<Rightarrow> Inl (BadDate date) | Some t \<Rightarrow> Inr (fmt_iso t))"

definition ConvertStringToTime :: "string \<Rightarrow> date_error + gotime" where
  "ConvertStringToTime data =
     (case parse_interval data of None \<Rightarrow> Inl (BadDate data) | Some t \<Rightarrow> Inr t)"

definition ConvertISO8601StringToTime :: "string \<Rightarrow> date_error + gotime" where
  "ConvertISO8601StringToTime data =
     (case parse_iso data of None \<Rightarrow> Inl (BadDate data) | Some t \<Rightarrow> Inr t)"

text \<open>The first loop of \<open>MaxIntervalEndTime\<close> converts, the second one keeps the later time.\<close>

fun convert_slice :: "string list \<Rightarrow> date_error + gotime list" where
  "convert_slice [] = Inr []"
| "convert_slice (v # vs) =
     (case ConvertStringToTime v of
        Inl e \<Rightarrow> Inl (BadDateInSlice e)
      | Inr t \<Rightarrow> (case convert_slice vs of Inl e \<Rightarrow> Inl e | Inr ts \<Rightarrow> Inr (t # ts)))"

fun later :: "gotime \<Rightarrow> gotime list \<Rightarrow> gotime" where
  "later m [] = m"
| "later m (e # es) = later (if t_before m e then e else m) es"

definition MaxIntervalEndTime :: "string list \<Rightarrow> (date_error, gotime) outcome" where
  "MaxIntervalEndTime slice =
     (case convert_slice slice of
        Inl e \<Rightarrow> Failed e
      | Inr [] \<Rightarrow> Panicked ''index out of range [0] with length 0''
      | Inr (t # ts) \<Rightarrow> Returned (later t (t # ts)))"

definition getDate :: "gotime \<Rightarrow> gotime" where
  "getDate d = (case t_date d of (y, m, dd) \<Rightarrow> go_date y m dd 0 (t_off d) (t_zone d))"

definition isItFirstOfMonth :: "gotime \<Rightarrow> bool" where
  "isItFirstOfMonth d = (case t_date d of (_, _, dd) \<Rightarrow> dd = 1)"

definition NeedRecommOnFirstOfMonth :: "gotime \<Rightarrow> gotime \<Rightarrow> bool" where
  "NeedRecommOnFirstOfMonth dbDate maxEndTime =
     (isItFirstOfMonth maxEndTime \<and> t_after (getDate maxEndTime) (getDate dbDate))"

section \<open>Conversions\<close>

lemma digit_val_le: "is_digit c \<Longrightarrow> digit_val c \<le> 9"
  unfolding is_digit_def digit_val_def by linarith

lemma parse_ymd_year: "parse_ymd s = Some ((y, m, d), r) \<Longrightarrow> 0 \<le> y \<and> y \<le> 9999"
proof -
  assume p: "parse_ymd s = Some ((y, m, d), r)"
  then have y: "list_all is_digit (take 4 s)" "4 \<le> length s" "y = int (digits_val (take 4 s))"
    by (auto simp: parse_ymd_def get_year_def Option.bind_eq_Some_conv split: if_splits)
  then obtain a b c e where t: "take 4 s = [a, b, c, e]"
    by (cases s; cases "tl s"; cases "tl (tl s)"; cases "tl (tl (tl s))") auto
  note dv = digit_val_le
  from y(1) t dv [of a] dv [of b] dv [of c] dv [of e] show ?thesis
    by (simp add: y(3) digits_val_def)
qed

lemma digits_val_bound: "list_all is_digit s \<Longrightarrow> digits_val s < 10 ^ length s"
proof (induction s rule: rev_induct)
  case (snoc c s)
  then have "digits_val s < 10 ^ length s" "digit_val c \<le> 9"
    by (simp_all add: digit_val_le)
  then show ?case by simp
qed simp

lemma frac_ns_bound: "list_all is_digit s \<Longrightarrow> 0 \<le> frac_ns s \<and> frac_ns s < sec_ns"
proof -
  assume d: "list_all is_digit s"
  define u where "u = take 9 s"
  have l: "length u \<le> 9" by (simp add: u_def)
  from d have "list_all is_digit u" by (auto simp: u_def list_all_iff dest: in_set_takeD)
  then have "digits_val u < 10 ^ length u" by (rule digits_val_bound)
  then have "digits_val u * 10 ^ (9 - length u) < 10 ^ length u * 10 ^ (9 - length u)" by simp
  also have "\<dots> = 10 ^ 9" using l by (simp add: power_add [symmetric])
  finally have "int (digits_val u * 10 ^ (9 - length u)) < int (10 ^ 9)" by (simp only: of_nat_less_iff)
  then show ?thesis by (simp add: frac_ns_def Let_def u_def sec_ns_def)
qed

lemma opt_fraction_bound: "0 \<le> fst (opt_fraction s) \<and> fst (opt_fraction s) < sec_ns"
proof -
  have "list_all is_digit (takeWhile is_digit u)" for u by (auto simp: list_all_iff dest: set_takeWhileD)
  note frac_ns_bound [OF this]
  moreover have "0 < sec_ns" by (simp add: sec_ns_def)
  ultimately show ?thesis
    by (simp only: opt_fraction_def split: list.split if_split) simp
qed

lemma parse_hms_bound: "parse_hms s = Some (sod, r) \<Longrightarrow> 0 \<le> sod \<and> sod + sec_ns \<le> day_ns"
  by (auto simp: parse_hms_def in_range_def Option.bind_eq_Some_conv sec_ns_def day_ns_def split: if_splits)

lemma date_at_fields:
  assumes "date_at ymd tod off zone = Some t" "0 \<le> tod" "tod < day_ns"
  shows "t_date t = ymd \<and> t_tod t = tod \<and> t_off t = off"
  using assms go_date_valid by (auto simp: date_at_def split: prod.splits if_splits)

text \<open>A parsed interval bound has a four-digit year.\<close>

lemma parse_interval_year:
  assumes "parse_interval s = Some t"
  shows "case t_date t of (y, m, d) \<Rightarrow> 0 \<le> y \<and> y \<le> 9999"
proof -
  from assms obtain ymd tod r off zone where
    w: "parse_wall s = Some ((ymd, tod), r)" and t: "date_at ymd tod off zone = Some t"
    by (auto simp: parse_interval_def Option.bind_eq_Some_conv)
  from w obtain s1 s2 sod s3 where
    p: "parse_ymd s = Some (ymd, s1)" "parse_hms s2 = Some (sod, s3)" "tod = sod + fst (opt_fraction s3)"
    by (auto simp: parse_wall_def Option.bind_eq_Some_conv)
  have "0 \<le> tod" "tod < day_ns"
    using parse_hms_bound [OF p(2)] opt_fraction_bound [of s3] p(3) by auto
  from date_at_fields [OF t this] p(1) show ?thesis
    by (cases ymd) (auto dest: parse_ymd_year)
qed

lemma frac_ns_pad3: "n < 1000 \<Longrightarrow> frac_ns (pad3 n) = int n * 1000000"
  using digits_val_pad(2) [of n] by (simp add: frac_ns_def Let_def)

text \<open>Reading the ISO form gives the wall clock, cut to milliseconds, as a UTC time.\<close>

lemma ms_split:
  fixes tod :: int assumes "0 \<le> tod"
  shows "tod div sec_ns * sec_ns + tod mod sec_ns div 1000000 * 1000000 = tod - tod mod 1000000"
    "nat (tod mod sec_ns div 1000000) < 1000"
proof -
  have "tod mod sec_ns mod 1000000 = tod mod 1000000"
    by (rule mod_mod_cancel) (simp add: sec_ns_def)
  moreover have "tod mod sec_ns = tod mod sec_ns div 1000000 * 1000000 + tod mod sec_ns mod 1000000"
    by (simp only: div_mult_mod_eq)
  moreover have "tod = tod div sec_ns * sec_ns + tod mod sec_ns" by (simp only: div_mult_mod_eq)
  ultimately show "tod div sec_ns * sec_ns + tod mod sec_ns div 1000000 * 1000000 = tod - tod mod 1000000"
    by linarith
  show "nat (tod mod sec_ns div 1000000) < 1000" by (simp add: sec_ns_def nat_less_iff)
qed

lemma parse_iso_fmt:
  assumes "t_date t = (y, m, d)" "0 \<le> y" "y \<le> 9999"
  shows "parse_iso (fmt_iso t) = Some (go_date y m d (t_tod t - t_tod t mod 1000000) 0 ''UTC'')"
proof -
  define n where "n = nat (t_tod t mod sec_ns div 1000000)"
  note b = t_tod_bounds [of t]
  note ms = ms_split [OF b(1)]
  have v: "valid_civil y m d" by (rule t_date_valid [OF assms(1)])
  have n: "n < 1000" "int n = t_tod t mod sec_ns div 1000000"
    using ms(2) by (simp_all add: n_def sec_ns_def)
  have l: "length (pad3 n) = 3" "list_all is_digit (pad3 n)" using digits_val_pad(2) [OF n(1)] by simp_all
  have "parse_iso (fmt_iso t) = date_at (y, m, d) (t_tod t div sec_ns * sec_ns + frac_ns (pad3 n)) 0 ''UTC''"
    by (simp add: parse_iso_def fmt_iso_def assms(1) parse_ymd_fmt [OF v assms(2,3)] skip_char_def
        parse_hms_fmt [OF b] n_def [symmetric] l)
  also have "frac_ns (pad3 n) = t_tod t mod sec_ns div 1000000 * 1000000"
    by (simp only: frac_ns_pad3 [OF n(1)] n(2))
  finally show ?thesis using v by (simp only: ms(1)) (simp add: date_at_def)
qed

lemma later_max: "later m es \<in> insert m (set es) \<and> (\<forall>e \<in> insert m (set es). t_ns e \<le> t_ns (later m es))"
proof (induction es arbitrary: m)
  case (Cons e es)
  from Cons.IH [of "if t_before m e then e else m"] show ?case
    by (fastforce simp: t_before_def)
qed simp

lemma convert_slice_Inr:
  "convert_slice vs = Inr ts \<longleftrightarrow> map ConvertStringToTime vs = map Inr ts"
proof (induction vs arbitrary: ts)
  case (Cons v vs)
  show ?case
  proof (cases "convert_slice vs")
    case (Inl e)
    with Cons.IH have "map ConvertStringToTime vs \<noteq> map Inr us" for us by auto
    with Inl show ?thesis by (cases ts) (auto split: sum.splits)
  next
    case (Inr us)
    with Cons.IH [of us] show ?thesis by (auto split: sum.splits)
  qed
qed auto

lemma getDate_ns: "t_ns (getDate d) = wall_day d * day_ns - t_off d * sec_ns"
proof -
  obtain y m dd where f: "t_date d = (y, m, dd)" by (cases "t_date d") auto
  have "days_of_civil y m 1 + (dd - 1) = wall_day d"
    using days_civil [of "wall_day d"] f by (auto simp: t_date_def days_of_civil_def)
  with t_date_valid [OF f] f show ?thesis
    by (simp add: getDate_def go_date_def Let_def valid_civil_def)
qed

section \<open>Properties\<close>

lemma iso_roundtrip:
  assumes "ConvertStringToTime date = Inr t"
  shows "\<exists>iso u. ConvertDateToISO8601 date = Inr iso \<and> ConvertISO8601StringToTime iso = Inr u
    \<and> t_ns u = wall_ns t - wall_ns t mod 1000000 \<and> t_off u = 0 \<and> t_date u = t_date t
    \<and> (t_off t = 0 \<longrightarrow> t_ns u = t_ns t - t_ns t mod 1000000)"
proof -
  obtain y m d where f: "t_date t = (y, m, d)" by (cases "t_date t") auto
  from assms have p: "parse_interval date = Some t" by (simp add: ConvertStringToTime_def split: option.splits)
  with parse_interval_year f have y: "0 \<le> y" "y \<le> 9999" by fastforce+
  define u where "u = go_date y m d (t_tod t - t_tod t mod 1000000) 0 ''UTC''"
  note b = t_tod_bounds [of t]
  have tod: "0 \<le> t_tod t - t_tod t mod 1000000" "t_tod t - t_tod t mod 1000000 < day_ns"
    using b by (simp_all add: minus_mod_eq_mult_div)
  note v = t_date_valid [OF f]
  note g = go_date_valid [OF v tod, of 0 "''UTC''"]
  have "wall_ns t mod 1000000 = t_tod t mod 1000000"
    by (simp add: t_tod_def mod_mod_cancel day_ns_def sec_ns_def)
  moreover have "t_ns u = wall_ns u" by (simp add: wall_ns_def u_def g)
  moreover have "wall_day u = wall_day t"
    using g(1) f days_civil [of "wall_day u"] days_civil [of "wall_day t"]
    by (auto simp: t_date_def u_def)
  ultimately have n: "t_ns u = wall_ns t - wall_ns t mod 1000000"
    using wall_split [of u] wall_split [of t] g(2) by (simp add: u_def)
  have "ConvertDateToISO8601 date = Inr (fmt_iso t)" by (simp add: ConvertDateToISO8601_def p)
  moreover have "ConvertISO8601StringToTime (fmt_iso t) = Inr u"
    by (simp add: ConvertISO8601StringToTime_def parse_iso_fmt [OF f y] u_def)
  moreover have "t_off u = 0" "t_date u = t_date t" using g f by (simp_all add: u_def)
  ultimately show ?thesis using n by (auto simp: wall_ns_def)
qed

text \<open>C24: Every interval bound the CSV parser accepts can be sent to Kruize and read back: the ISO 8601
  text that \<open>ConvertDateToISO8601\<close> produces is accepted by \<open>ConvertISO8601StringToTime\<close>, and names
  the wall clock of the bound cut to milliseconds, as a UTC time.  For a bound written with a zero
  offset that is the same instant up to the milliseconds; for another offset the zone is lost.\<close>

theorem ConvertDateToISO8601_roundtrip:
  assumes "ConvertStringToTime date = Inr t"
  shows "\<exists>iso u. ConvertDateToISO8601 date = Inr iso \<and> ConvertISO8601StringToTime iso = Inr u
    \<and> t_ns u = wall_ns t - wall_ns t mod 1000000 \<and> t_off u = 0 \<and> t_date u = t_date t
    \<and> (t_off t = 0 \<longrightarrow> t_ns u = t_ns t - t_ns t mod 1000000)"
  using assms by (rule iso_roundtrip)

theorem ConvertDateToISO8601_roundtrip_witness:
  "(\<exists>iso u. ConvertDateToISO8601 ''2023-02-01 07:00:00.5 -0130 EST'' = Inr iso \<and> ConvertISO8601StringToTime iso = Inr u
    \<and> t_ns u = 63810831600500000000 \<and> t_off u = 0)"
proof -
  define t where "t = \<lparr>t_ns = 63810837000500000000, t_off = - 5400, t_zone = ''EST''\<rparr>"
  have "ConvertStringToTime ''2023-02-01 07:00:00.5 -0130 EST'' = Inr t" unfolding t_def by code_simp
  from ConvertDateToISO8601_roundtrip [OF this] show ?thesis by (auto simp: t_def wall_ns_def sec_ns_def)
qed

text \<open>\<open>MaxIntervalEndTime\<close> on a non-empty column of well-formed bounds returns one of them, no
  earlier than any other; a malformed bound is an error and an empty column panics.\<close>

theorem MaxIntervalEndTime_latest:
  "case MaxIntervalEndTime slice of
     Returned t \<Rightarrow> Inr t \<in> ConvertStringToTime ` set slice
       \<and> (\<forall>s \<in> set slice. \<exists>u. ConvertStringToTime s = Inr u \<and> t_ns u \<le> t_ns t)
   | Failed _ \<Rightarrow> (\<exists>s \<in> set slice. \<forall>u. ConvertStringToTime s \<noteq> Inr u)
   | Panicked _ \<Rightarrow> slice = []"
proof (cases "convert_slice slice")
  case (Inl e)
  then have "\<exists>s \<in> set slice. \<forall>u. ConvertStringToTime s \<noteq> Inr u"
    by (induction slice arbitrary: e) (auto split: sum.splits)
  with Inl show ?thesis by (simp add: MaxIntervalEndTime_def)
next
  case (Inr ts)
  then have m: "map ConvertStringToTime slice = map Inr ts" by (simp add: convert_slice_Inr)
  then have im: "ConvertStringToTime ` set slice = Inr ` set ts" by (metis set_map)
  show ?thesis
  proof (cases ts)
    case Nil
    with Inr m show ?thesis by (simp add: MaxIntervalEndTime_def)
  next
    case (Cons t us)
    with Inr have r: "MaxIntervalEndTime slice = Returned (later t ts)" by (simp add: MaxIntervalEndTime_def)
    from later_max [of t ts] Cons have l: "later t ts \<in> set ts" "\<forall>e \<in> set ts. t_ns e \<le> t_ns (later t ts)" by auto
    then have "\<forall>s \<in> set slice. \<exists>u. ConvertStringToTime s = Inr u \<and> t_ns u \<le> t_ns (later t ts)"
      using im by (metis imageE imageI)
    with r l im show ?thesis by auto
  qed
qed

text \<open>Two times of one zone: a recommendation is asked for the first of a month exactly when the
  new maximum falls on day 1 of a month and on a later calendar day than the stored one.\<close>

theorem NeedRecommOnFirstOfMonth_iff:
  assumes "t_off dbDate = t_off maxEndTime"
  shows "NeedRecommOnFirstOfMonth dbDate maxEndTime \<longleftrightarrow>
    snd (snd (t_date maxEndTime)) = 1 \<and> wall_day dbDate < wall_day maxEndTime"
  using assms
  by (auto simp: NeedRecommOnFirstOfMonth_def isItFirstOfMonth_def t_after_def getDate_ns day_ns_def sec_ns_def
      split: prod.splits)

theorem NeedRecommOnFirstOfMonth_iff_witness:
  "NeedRecommOnFirstOfMonth \<lparr>t_ns = 0, t_off = 0, t_zone = ''UTC''\<rparr> \<lparr>t_ns = 31 * day_ns, t_off = 0, t_zone = ''UTC''\<rparr>"
  by (subst NeedRecommOnFirstOfMonth_iff) code_simp+

end
