(* ===== verification/Json.thy ===== *)
theory Json
  imports Float64 Prelude
begin

text \<open>
  JSON documents as \<open>json.Unmarshal\<close> builds them in an \<open>interface{}\<close>, and the way the backend edits
  them: a nested object is read with a checked type assertion (\<open>x, ok := m[k].(map[string]interface{})\<close>)
  and changed in place when the assertion succeeds.  The document is a tree, so the edit of the
  object under key \<open>k\<close> is \<open>on_obj k f\<close>.

  \<open>sub\<close> reads a nested object the way a failed assertion does (an empty map), so the path lemmas need
  no case distinctions.  The locale \<open>section_op\<close> is the contract of every edit: it leaves an empty
  object empty and a well-formed one (unique keys, representable numbers) well-formed.
\<close>

datatype json =
    JNull
  | JBool bool
  | JNum f64
  | JStr string
  | JArr "json list"
  | JObj "(string \<times> json) list"

type_synonym obj = "(string \<times> json) list"

fun wf_json :: "json \<Rightarrow> bool" where
  "wf_json (JNum v) = f64_ok v"
| "wf_json (JArr js) = list_all wf_json js"
| "wf_json (JObj o1) = (distinct_keys o1 \<and> list_all (\<lambda>p. wf_json (snd p)) o1)"
| "wf_json _ = True"

definition wf_obj :: "obj \<Rightarrow> bool" where
  "wf_obj m = wf_json (JObj m)"

fun obj_of :: "json \<Rightarrow> obj" where
  "obj_of (JObj m) = m"
| "obj_of _ = []"

fun is_obj :: "json \<Rightarrow> bool" where
  "is_obj (JObj m) = True"
| "is_obj _ = False"

text \<open>\<open>m[k]\<close>: a missing key reads as nil, like a JSON null.\<close>

definition jget :: "string \<Rightarrow> obj \<Rightarrow> json" where
  "jget k m = (case map_of m k of Some v \<Rightarrow> v | None \<Rightarrow> JNull)"

definition sub :: "string \<Rightarrow> obj \<Rightarrow> obj" where
  "sub k m = obj_of (jget k m)"

text \<open>\<open>if v, ok := m[k].(float64); ok\<close>\<close>

definition num_at :: "string \<Rightarrow> obj \<Rightarrow> f64 option" where
  "num_at k m = (case jget k m of JNum v \<Rightarrow> Some v | _ \<Rightarrow> None)"

definition str_at :: "string \<Rightarrow> obj \<Rightarrow> string option" where
  "str_at k m = (case jget k m of JStr v \<Rightarrow> Some v | _ \<Rightarrow> None)"

definition put :: "string \<Rightarrow> json \<Rightarrow> obj \<Rightarrow> obj" where
  "put k v m = AList.update k v m"

definition drop_key :: "string \<Rightarrow> obj \<Rightarrow> obj" where
  "drop_key k m = AList.delete k m"

definition on_obj :: "string \<Rightarrow> (obj \<Rightarrow> obj) \<Rightarrow> obj \<Rightarrow> obj" where
  "on_obj k f m = (case jget k m of JObj s \<Rightarrow> put k (JObj (f s)) m | _ \<Rightarrow> m)"

definition on_objs :: "string list \<Rightarrow> (obj \<Rightarrow> obj) \<Rightarrow> obj \<Rightarrow> obj" where
  "on_objs ks f m = fold (\<lambda>k. on_obj k f) ks m"

text \<open>Every value of a map that is an object, edited in place.\<close>

definition on_values :: "(obj \<Rightarrow> obj) \<Rightarrow> obj \<Rightarrow> obj" where
  "on_values f m = map_vals (\<lambda>v. if is_obj v then JObj (f (obj_of v)) else v) m"

section \<open>Reading after an edit\<close>

named_theorems json_path "what is read after an edit"

lemma jget_put [json_path, simp]: "jget k (put k' v m) = (if k = k' then v else jget k m)"
  by (simp add: jget_def put_def)

lemma jget_drop_key [json_path, simp]: "jget k (drop_key k' m) = (if k = k' then JNull else jget k m)"
  by (simp add: jget_def drop_key_def)

lemma jget_Nil [simp]: "jget k [] = JNull"
  by (simp add: jget_def)

lemma sub_Nil [simp]: "sub k [] = []"
  by (simp add: sub_def)

lemma num_at_Nil [simp]: "num_at k [] = None"
  by (simp add: num_at_def)

lemma jget_on_obj [json_path]:
  "jget k (on_obj k' f m) = (if k = k' \<and> is_obj (jget k m) then JObj (f (obj_of (jget k m))) else jget k m)"
  by (cases "jget k' m") (auto simp: on_obj_def)

lemma sub_put [json_path, simp]: "sub k (put k' v m) = (if k = k' then obj_of v else sub k m)"
  by (simp add: sub_def)

lemma num_at_put [json_path, simp]: "num_at k (put k' v m) = (if k = k' then (case v of JNum x \<Rightarrow> Some x | _ \<Rightarrow> None) else num_at k m)"
  by (simp add: num_at_def)

lemma sub_drop_key [json_path, simp]: "sub k (drop_key k' m) = (if k = k' then [] else sub k m)"
  by (simp add: sub_def)

lemma num_at_drop_key [json_path, simp]: "num_at k (drop_key k' m) = (if k = k' then None else num_at k m)"
  by (simp add: num_at_def)

lemma sub_on_obj_other [json_path]: "k \<noteq> k' \<Longrightarrow> sub k (on_obj k' f m) = sub k m"
  by (simp add: sub_def jget_on_obj)

lemma num_at_on_obj [json_path, simp]: "num_at k (on_obj k' f m) = num_at k m"
  by (cases "jget k m") (auto simp: num_at_def jget_on_obj)

lemma jget_on_objs_other [json_path]: "k \<notin> set ks \<Longrightarrow> jget k (on_objs ks f m) = jget k m"
  unfolding on_objs_def by (induction ks arbitrary: m) (auto simp: jget_on_obj)

lemma sub_on_objs_other [json_path]: "k \<notin> set ks \<Longrightarrow> sub k (on_objs ks f m) = sub k m"
  by (simp add: sub_def jget_on_objs_other)

lemma num_at_on_objs [json_path, simp]: "num_at k (on_objs ks f m) = num_at k m"
  unfolding on_objs_def by (induction ks arbitrary: m) auto

lemma is_obj_on_objs: "is_obj (jget k (on_objs ks f m)) = is_obj (jget k m)"
  unfolding on_objs_def by (induction ks arbitrary: m) (auto simp: jget_on_obj)

lemma sub_on_obj_nil: "f [] = [] \<Longrightarrow> sub k (on_obj k f m) = f (sub k m)"
  by (cases "jget k m") (simp_all add: sub_def jget_on_obj)

lemma on_obj_nil [simp]: "on_obj k f [] = []"
  by (simp add: on_obj_def)

lemma is_obj_on_obj: "is_obj (jget k (on_obj k' f m)) = is_obj (jget k m)"
  by (auto simp: jget_on_obj)

section \<open>The contract of an edit\<close>

lemma wf_jget: "wf_obj m \<Longrightarrow> wf_json (jget k m)"
  by (cases "map_of m k")
    (auto simp: wf_obj_def jget_def list_all_iff dest!: map_of_SomeD)

lemma wf_sub: "wf_obj m \<Longrightarrow> wf_obj (sub k m)"
  using wf_jget [of m k] by (cases "jget k m") (auto simp: sub_def wf_obj_def)

lemma wf_num_at: "wf_obj m \<Longrightarrow> num_at k m = Some v \<Longrightarrow> f64_ok v"
  using wf_jget [of m k] by (cases "jget k m") (auto simp: num_at_def)

lemma wf_Nil [simp]: "wf_obj []"
  by (simp add: wf_obj_def)

lemma wf_put: "wf_obj m \<Longrightarrow> wf_json v \<Longrightarrow> wf_obj (put k v m)"
proof -
  assume m: "wf_obj m" and v: "wf_json v"
  have "distinct (map fst (AList.update k v m))"
    using m by (simp add: wf_obj_def distinct_update)
  moreover have "wf_json (snd p)" if "p \<in> set (AList.update k v m)" for p
  proof -
    from that have "p = (k, v) \<or> p \<in> set m"
      by (induction m) (auto split: if_splits)
    with m v show ?thesis by (auto simp: wf_obj_def list_all_iff)
  qed
  ultimately show ?thesis by (simp add: wf_obj_def put_def list_all_iff)
qed

lemma wf_drop_key: "wf_obj m \<Longrightarrow> wf_obj (drop_key k m)"
  by (simp add: wf_obj_def drop_key_def list_all_iff distinct_delete) (simp add: AList.delete_eq)

locale wf_op =
  fixes f :: "obj \<Rightarrow> obj"
  assumes f_wf: "wf_obj m \<Longrightarrow> wf_obj (f m)"
begin

lemma wf_on_obj: "wf_obj m \<Longrightarrow> wf_obj (on_obj k f m)"
proof (cases "jget k m")
  case (JObj x)
  assume m: "wf_obj m"
  from wf_jget [OF m, of k] JObj have "wf_obj x" by (simp add: wf_obj_def)
  then have "wf_json (JObj (f x))" using f_wf by (simp only: wf_obj_def)
  with m show ?thesis by (simp add: on_obj_def JObj wf_put)
qed (simp_all add: on_obj_def)

lemma wf_on_objs: "wf_obj m \<Longrightarrow> wf_obj (on_objs ks f m)"
  unfolding on_objs_def by (induction ks arbitrary: m) (auto intro: wf_on_obj)

lemma wf_on_values: "wf_obj m \<Longrightarrow> wf_obj (on_values f m)"
proof -
  have "wf_json (if is_obj v then JObj (f (obj_of v)) else v)" if "wf_json v" for v
    using that f_wf by (cases v) (auto simp: wf_obj_def)
  then show "wf_obj m \<Longrightarrow> wf_obj (on_values f m)"
    by (auto simp: wf_obj_def on_values_def list_all_iff) (auto simp: map_vals_def)
qed

end

locale section_op = wf_op +
  assumes f_nil: "f [] = []"
begin

lemma sub_on_obj: "sub k (on_obj k f m) = f (sub k m)"
  by (rule sub_on_obj_nil [of f, OF f_nil])

lemma on_objs_nil: "on_objs ks f [] = []"
  by (induction ks) (simp_all add: on_objs_def on_obj_def)

lemma sub_on_objs: "distinct ks \<Longrightarrow> sub k (on_objs ks f m) = (if k \<in> set ks then f (sub k m) else sub k m)"
  unfolding on_objs_def
proof (induction ks arbitrary: m)
  case (Cons a ks)
  then show ?case by (cases "k = a") (auto simp: sub_on_obj sub_on_obj_other)
qed simp

end

text \<open>Edits compose, and an edit under a key is an edit.\<close>

lemma section_op_iff: "section_op f \<longleftrightarrow> (\<forall>m. wf_obj m \<longrightarrow> wf_obj (f m)) \<and> f [] = []"
  by (auto simp: section_op_def section_op_axioms_def wf_op_def)

lemma section_opI: "(\<And>m. wf_obj m \<Longrightarrow> wf_obj (f m)) \<Longrightarrow> f [] = [] \<Longrightarrow> section_op f"
  by (simp add: section_op_iff)

lemma section_op_wf: "section_op f \<Longrightarrow> wf_obj m \<Longrightarrow> wf_obj (f m)"
  by (simp add: section_op_iff)

lemma section_op_comp: "section_op f \<Longrightarrow> section_op g \<Longrightarrow> section_op (\<lambda>m. f (g m))"
  by (simp add: section_op_iff)

lemma section_op_on_obj: "wf_op f \<Longrightarrow> section_op (on_obj k f)"
  by (rule section_opI, erule (1) wf_op.wf_on_obj, simp add: on_obj_def)

lemma section_op_on_objs: "wf_op f \<Longrightarrow> section_op (on_objs ks f)"
proof (rule section_opI)
  show "on_objs ks f [] = []" by (induction ks) (simp_all add: on_objs_def on_obj_def)
qed (rule wf_op.wf_on_objs)

lemma section_op_on_values: "wf_op f \<Longrightarrow> section_op (on_values f)"
  by (rule section_opI, erule (1) wf_op.wf_on_values, simp add: on_values_def map_vals_def)

lemma section_op_id: "section_op (\<lambda>m. m)"
  by (simp add: section_op_iff)

lemma section_op_drop_key: "section_op (drop_key k)"
  by (simp add: section_op_iff wf_drop_key) (simp add: drop_key_def)

lemmas section_op_wf_op = section_op.axioms(1)

lemma section_op_nest: "section_op f \<Longrightarrow> section_op (on_obj k f)"
  by (rule section_op_on_obj [OF section_op_wf_op])

lemmas section_op_intros = section_op_on_obj section_op_on_objs section_op_on_values section_op_drop_key
  section_op_wf_op

text \<open>The shape of most edits: one nested object after another.\<close>

lemma section_op_on_obj2: "wf_op f \<Longrightarrow> wf_op g \<Longrightarrow> section_op (\<lambda>m. on_obj k f (on_obj k' g m))"
  by (rule section_op_comp [OF section_op_on_obj section_op_on_obj])

end
