(* ===== verification/KruizeTypes.thy ===== *)
theory KruizeTypes
  imports GoTime Json
begin

text \<open>
  The Kruize payload types of \<open>internal/types/kruizePayload\<close> that the backend decodes
  recommendations into: records with the source's fields.  A Go struct is never nil, so an object
  that the JSON leaves out is its zero value (\<open>zero_config\<close> ..); the engines of a term are a pointer,
  so they are an \<open>option\<close>.  Go maps are association lists with unique keys.
\<close>

record recommendedValues =
  rv_amount :: f64
  rv_format :: string

record recommendedConfig =
  rc_cpu :: recommendedValues
  rc_memory :: recommendedValues

record ConfigObject =
  co_limits :: recommendedConfig
  co_requests :: recommendedConfig

record Notification =
  nt_type :: string
  nt_message :: string
  nt_code :: int

record RecommendationEngineObject =
  eo_config :: ConfigObject
  eo_variation :: ConfigObject
  eo_notifications :: "(string \<times> Notification) list"

record RecommendationEngines =
  re_cost :: RecommendationEngineObject
  re_performance :: RecommendationEngineObject

record BoxPlotDetails =
  bp_min :: f64
  bp_q1 :: f64
  bp_median :: f64
  bp_q3 :: f64
  bp_max :: f64
  bp_format :: string

record PlotsData =
  pd_cpuUsage :: "BoxPlotDetails option"
  pd_memoryUsage :: "BoxPlotDetails option"

record Plot =
  pl_datapoints :: int
  pl_plots_data :: "(string \<times> PlotsData) list"

record RecommendationTerm =
  rt_duration_in_hours :: f64
  rt_notifications :: "(string \<times> Notification) list"
  rt_monitoring_start_time :: gotime
  rt_engines :: "RecommendationEngines option"
  rt_plots :: "Plot option"

record Term =
  tm_short :: RecommendationTerm
  tm_medium :: RecommendationTerm
  tm_long :: RecommendationTerm

record RecommendationData =
  rd_notifications :: "(string \<times> Notification) list"
  rd_monitoring_end_time :: gotime
  rd_current :: ConfigObject
  rd_terms :: Term

record Recommendation =
  rm_version :: string
  rm_data :: "(string \<times> RecommendationData) list"
  rm_notifications :: "(string \<times> Notification) list"

record AggregatedData =
  ad_min :: string
  ad_max :: string
  ad_sum :: string
  ad_avg :: string
  ad_format :: string

record Metric =
  mt_name :: string
  mt_results :: AggregatedData

record container =
  ct_image_name :: string
  ct_name :: string
  ct_metrics :: "Metric list"
  ct_recommendations :: Recommendation

record kubernetesObject =
  ko_type :: string
  ko_name :: string
  ko_namespace :: string
  ko_containers :: "container list"

record ListRecommendations =
  lr_cluster_name :: string
  lr_experiment_name :: string
  lr_experiment_type :: string
  lr_version :: string
  lr_kubernetes_objects :: "kubernetesObject list"

text \<open>The namespace response (\<open>kruizePayload/namespace/common.go\<close>) carries one namespace per object.\<close>

record NamespaceObject =
  no_namespace :: string
  no_recommendations :: Recommendation

record NamespaceKubernetesObject =
  nk_namespace :: string
  nk_containers :: "json list"
  nk_namespaces :: NamespaceObject

record NamespaceExperiment =
  ne_cluster_name :: string
  ne_experiment_type :: string
  ne_kubernetes_objects :: "NamespaceKubernetesObject list"
  ne_version :: string
  ne_experiment_name :: string

section \<open>Zero values\<close>

definition zero_values :: recommendedValues where
  "zero_values = \<lparr>rv_amount = Zero False, rv_format = []\<rparr>"

definition zero_rconfig :: recommendedConfig where
  "zero_rconfig = \<lparr>rc_cpu = zero_values, rc_memory = zero_values\<rparr>"

definition zero_config :: ConfigObject where
  "zero_config = \<lparr>co_limits = zero_rconfig, co_requests = zero_rconfig\<rparr>"

definition zero_engine :: RecommendationEngineObject where
  "zero_engine = \<lparr>eo_config = zero_config, eo_variation = zero_config, eo_notifications = []\<rparr>"

definition zero_term :: RecommendationTerm where
  "zero_term = \<lparr>rt_duration_in_hours = Zero False, rt_notifications = [], rt_monitoring_start_time = go_zero_time,
     rt_engines = None, rt_plots = None\<rparr>"

definition zero_terms :: Term where
  "zero_terms = \<lparr>tm_short = zero_term, tm_medium = zero_term, tm_long = zero_term\<rparr>"

definition zero_data :: RecommendationData where
  "zero_data = \<lparr>rd_notifications = [], rd_monitoring_end_time = go_zero_time, rd_current = zero_config, rd_terms = zero_terms\<rparr>"

definition zero_recommendation :: Recommendation where
  "zero_recommendation = \<lparr>rm_version = [], rm_data = [], rm_notifications = []\<rparr>"

end
