(* ===== verification/ColumnValues.thy ===== *)
theory ColumnValues
  imports Conversion KruizeTypes
begin

text \<open>
  \<open>internal/model/common.go\<close>: the sort columns of \<open>recommendation_sets\<close> and
  \<open>namespace_recommendation_sets\<close>.  \<open>ExtractRecommendationColumnValues\<close> computes them when a
  recommendation is saved, \<open>StoredVariationPcts\<close> is what the API reads back, and
  \<open>StoredVariationSpecs\<close> names the column of each term and engine.  A SQL NULL is \<open>None\<close>.
\<close>

section \<open>The stored columns\<close>

record StoredVariationPcts =
  CPUVariationShortCostPct :: "f64 option"
  CPUVariationShortPerformancePct :: "f64 option"
  CPUVariationMediumCostPct :: "f64 option"
  CPUVariationMediumPerformancePct :: "f64 option"
  CPUVariationLongCostPct :: "f64 option"
  CPUVariationLongPerformancePct :: "f64 option"
  MemoryVariationShortCostPct :: "f64 option"
  MemoryVariationShortPerformancePct :: "f64 option"
  MemoryVariationMediumCostPct :: "f64 option"
  MemoryVariationMediumPerformancePct :: "f64 option"
  MemoryVariationLongCostPct :: "f64 option"
  MemoryVariationLongPerformancePct :: "f64 option"

record StoredVariationSpec =
  vs_term :: string
  vs_engine :: string
  vs_cpu :: "StoredVariationPcts \<Rightarrow> f64 option"
  vs_mem :: "StoredVariationPcts \<Rightarrow> f64 option"

definition StoredVariationSpecs :: "StoredVariationSpec list" where
  "StoredVariationSpecs =
     [\<lparr>vs_term = ''short_term'', vs_engine = ''cost'',
       vs_cpu = CPUVariationShortCostPct, vs_mem = MemoryVariationShortCostPct\<rparr>,
      \<lparr>vs_term = ''short_term'', vs_engine = ''performance'',
       vs_cpu = CPUVariationShortPerformancePct, vs_mem = MemoryVariationShortPerformancePct\<rparr>,
      \<lparr>vs_term = ''medium_term'', vs_engine = ''cost'',
       vs_cpu = CPUVariationMediumCostPct, vs_mem = MemoryVariationMediumCostPct\<rparr>,
      \<lparr>vs_term = ''medium_term'', vs_engine = ''performance'',
       vs_cpu = CPUVariationMediumPerformancePct, vs_mem = MemoryVariationMediumPerformancePct\<rparr>,
      \<lparr>vs_term = ''long_term'', vs_engine = ''cost'',
       vs_cpu = CPUVariationLongCostPct, vs_mem = MemoryVariationLongCostPct\<rparr>,
      \<lparr>vs_term = ''long_term'', vs_engine = ''performance'',
       vs_cpu = CPUVariationLongPerformancePct, vs_mem = MemoryVariationLongPerformancePct\<rparr>]"

definition HasValues :: "StoredVariationPcts \<Rightarrow> bool" where
  "HasValues s =
     (CPUVariationShortCostPct s \<noteq> None
      \<or> CPUVariationShortPerformancePct s \<noteq> None
      \<or> CPUVariationMediumCostPct s \<noteq> None
      \<or> CPUVariationMediumPerformancePct s \<noteq> None
      \<or> CPUVariationLongCostPct s \<noteq> None
      \<or> CPUVariationLongPerformancePct s \<noteq> None
      \<or> MemoryVariationShortCostPct s \<noteq> None
      \<or> MemoryVariationShortPerformancePct s \<noteq> None
      \<or> MemoryVariationMediumCostPct s \<noteq> None
      \<or> MemoryVariationMediumPerformancePct s \<noteq> None
      \<or> MemoryVariationLongCostPct s \<noteq> None
      \<or> MemoryVariationLongPerformancePct s \<noteq> None)"

fun lookup_spec :: "StoredVariationSpec list \<Rightarrow> StoredVariationPcts \<Rightarrow> string \<Rightarrow> string \<Rightarrow> f64 option \<times> f64 option" where
  "lookup_spec [] s t e = (None, None)"
| "lookup_spec (spec # specs) s t e =
     (if vs_term spec = t \<and> vs_engine spec = e then (vs_cpu spec s, vs_mem spec s) else lookup_spec specs s t e)"

definition Lookup :: "StoredVariationPcts \<Rightarrow> string \<Rightarrow> string \<Rightarrow> f64 option \<times> f64 option" where
  "Lookup s t e = lookup_spec StoredVariationSpecs s t e"

section \<open>Extraction\<close>

text \<open>The columns of a row: the two current requests and the twelve variation columns.\<close>

record RecommendationColumnValues =
  CPURequestCurrent :: "f64 option"
  MemoryRequestCurrent :: "f64 option"
  cv_variations :: StoredVariationPcts

definition no_pcts :: StoredVariationPcts where
  "no_pcts = \<lparr>CPUVariationShortCostPct = None, CPUVariationShortPerformancePct = None,
     CPUVariationMediumCostPct = None, CPUVariationMediumPerformancePct = None,
     CPUVariationLongCostPct = None, CPUVariationLongPerformancePct = None,
     MemoryVariationShortCostPct = None, MemoryVariationShortPerformancePct = None,
     MemoryVariationMediumCostPct = None, MemoryVariationMediumPerformancePct = None,
     MemoryVariationLongCostPct = None, MemoryVariationLongPerformancePct = None\<rparr>"

abbreviation variation_cpu :: "RecommendationEngineObject \<Rightarrow> f64" where
  "variation_cpu e \<equiv> rv_amount (rc_cpu (co_requests (eo_variation e)))"

abbreviation variation_mem :: "RecommendationEngineObject \<Rightarrow> f64" where
  "variation_mem e \<equiv> rv_amount (rc_memory (co_requests (eo_variation e)))"

definition extractTermVariations :: "StoredVariationPcts \<Rightarrow> Term \<Rightarrow> f64 \<Rightarrow> f64 \<Rightarrow> StoredVariationPcts" where
  "extractTermVariations v0 terms cpuReq memReq =
     (let v1 = (case rt_engines (tm_short terms) of
            None \<Rightarrow> v0
          | Some e \<Rightarrow> v0\<lparr>
              CPUVariationShortCostPct := Some (VariationPercentOfRequestCPU (variation_cpu (re_cost e)) cpuReq),
              MemoryVariationShortCostPct := Some (VariationPercentOfRequestMemoryBytesMiB (variation_mem (re_cost e)) memReq),
              CPUVariationShortPerformancePct := Some (VariationPercentOfRequestCPU (variation_cpu (re_performance e)) cpuReq),
              MemoryVariationShortPerformancePct := Some (VariationPercentOfRequestMemoryBytesMiB (variation_mem (re_performance e)) memReq)\<rparr>);
          v2 = (case rt_engines (tm_medium terms) of
            None \<Rightarrow> v1
          | Some e \<Rightarrow> v1\<lparr>
              CPUVariationMediumCostPct := Some (VariationPercentOfRequestCPU (variation_cpu (re_cost e)) cpuReq),
              MemoryVariationMediumCostPct := Some (VariationPercentOfRequestMemoryBytesMiB (variation_mem (re_cost e)) memReq),
              CPUVariationMediumPerformancePct := Some (VariationPercentOfRequestCPU (variation_cpu (re_performance e)) cpuReq),
              MemoryVariationMediumPerformancePct := Some (VariationPercentOfRequestMemoryBytesMiB (variation_mem (re_performance e)) memReq)\<rparr>)
      in case rt_engines (tm_long terms) of
            None \<Rightarrow> v2
          | Some e \<Rightarrow> v2\<lparr>
              CPUVariationLongCostPct := Some (VariationPercentOfRequestCPU (variation_cpu (re_cost e)) cpuReq),
              MemoryVariationLongCostPct := Some (VariationPercentOfRequestMemoryBytesMiB (variation_mem (re_cost e)) memReq),
              CPUVariationLongPerformancePct := Some (VariationPercentOfRequestCPU (variation_cpu (re_performance e)) cpuReq),
              MemoryVariationLongPerformancePct := Some (VariationPercentOfRequestMemoryBytesMiB (variation_mem (re_performance e)) memReq)\<rparr>)"

definition ExtractRecommendationColumnValues :: "RecommendationData \<Rightarrow> RecommendationColumnValues" where
  "ExtractRecommendationColumnValues data =
     (let cpuReq = rv_amount (rc_cpu (co_requests (rd_current data)));
          memReq = rv_amount (rc_memory (co_requests (rd_current data)));
          cpuReq = ClampToNumeric10_4Range cpuReq;
          memReq = ClampToNumeric20_4Range memReq
      in \<lparr>CPURequestCurrent = Some cpuReq, MemoryRequestCurrent = Some memReq,
          cv_variations = extractTermVariations no_pcts (rd_terms data) cpuReq memReq\<rparr>)"

section \<open>Specification\<close>

text \<open>The term and the engine that a column name stands for.\<close>

definition term_named :: "string \<Rightarrow> Term \<Rightarrow> RecommendationTerm option" where
  "term_named t ts =
     (if t = ''short_term'' then Some (tm_short ts) else if t = ''medium_term'' then Some (tm_medium ts)
      else if t = ''long_term'' then Some (tm_long ts) else None)"

definition engine_named :: "string \<Rightarrow> RecommendationEngines \<Rightarrow> RecommendationEngineObject option" where
  "engine_named n e =
     (if n = ''cost'' then Some (re_cost e) else if n = ''performance'' then Some (re_performance e) else None)"

text \<open>What the column of a term and an engine should hold: nothing when the term has no engines.\<close>

definition variation_spec :: "RecommendationData \<Rightarrow> string \<Rightarrow> string \<Rightarrow> f64 option \<times> f64 option" where
  "variation_spec d t n =
     (case Option.bind (term_named t (rd_terms d)) (\<lambda>tm. Option.bind (rt_engines tm) (engine_named n)) of
        None \<Rightarrow> (None, None)
      | Some e \<Rightarrow>
          (Some (VariationPercentOfRequestCPU (variation_cpu e)
              (ClampToNumeric10_4Range (rv_amount (rc_cpu (co_requests (rd_current d)))))),
           Some (VariationPercentOfRequestMemoryBytesMiB (variation_mem e)
              (ClampToNumeric20_4Range (rv_amount (rc_memory (co_requests (rd_current d))))))))"

text \<open>What a NUMERIC(10,4) column can hold.\<close>

definition fits_numeric10_4 :: "f64 \<Rightarrow> bool" where
  "fits_numeric10_4 v = (is_finite v \<and> \<bar>f64_val v\<bar> < 10 ^ 6)"

lemma fits_clamp10: "fits_numeric10_4 (ClampToNumeric10_4Range v)"
  using clamp10.finite [of v] clamp10.bounded [of v] numeric10_4_max_lt
  by (simp add: fits_numeric10_4_def le_less_trans)

lemma fits_variation:
  "fits_numeric10_4 (VariationPercentOfRequestCPU v c)"
  "fits_numeric10_4 (VariationPercentOfRequestMemoryBytesMiB v c)"
  by (simp_all add: VariationPercentOfRequestCPU_def VariationPercentOfRequestMemoryBytesMiB_def Let_def fits_clamp10)

lemma lookup_extracted:
  "Lookup (cv_variations (ExtractRecommendationColumnValues d)) t n = variation_spec d t n"
  unfolding Lookup_def ExtractRecommendationColumnValues_def Let_def variation_spec_def
    StoredVariationSpecs_def term_named_def engine_named_def extractTermVariations_def no_pcts_def
  by (simp split: option.split)

text \<open>For every term and engine name, known or not, looking up the stored columns that
  were extracted from a recommendation gives the percentages of that term's engine, and NULL exactly
  when the term has no engines or the names are unknown: no column is crossed with another.\<close>

theorem Lookup_extracted:
  "Lookup (cv_variations (ExtractRecommendationColumnValues d)) t n = variation_spec d t n"
  by (rule lookup_extracted)

text \<open>Every column that is set holds a finite number below \<open>10^6\<close>, so the row fits the
  NUMERIC(10,4) columns, and the CPU request fits too.\<close>

theorem extracted_columns_fit:
  "pred_option fits_numeric10_4 (fst (Lookup (cv_variations (ExtractRecommendationColumnValues d)) t n))
   \<and> pred_option fits_numeric10_4 (snd (Lookup (cv_variations (ExtractRecommendationColumnValues d)) t n))
   \<and> pred_option fits_numeric10_4 (CPURequestCurrent (ExtractRecommendationColumnValues d))"
  unfolding lookup_extracted
  by (simp add: variation_spec_def ExtractRecommendationColumnValues_def Let_def fits_variation fits_clamp10
      split: option.split)

text \<open>The API uses the stored percentages exactly when some term has engines, so a row
  whose recommendation has no engines falls back to computing them.\<close>

theorem HasValues_extracted:
  "HasValues (cv_variations (ExtractRecommendationColumnValues d)) \<longleftrightarrow>
     rt_engines (tm_short (rd_terms d)) \<noteq> None \<or> rt_engines (tm_medium (rd_terms d)) \<noteq> None
       \<or> rt_engines (tm_long (rd_terms d)) \<noteq> None"
  by (simp add: HasValues_def ExtractRecommendationColumnValues_def Let_def extractTermVariations_def no_pcts_def
      split: option.split)

end
