(* ===== verification/RecommendationJson.thy ===== *)
theory RecommendationJson
  imports Json ColumnValues
begin

text \<open>
  \<open>internal/api/utils.go\<close>: the transformation of a stored recommendation document into what the API
  returns.  \<open>dropBoxPlotsObject\<close>, \<open>transformComponentUnits\<close>, \<open>filterNotifications\<close>,
  \<open>injectStoredRequestVariationPct\<close> and \<open>convertVariationToPercentage\<close> edit the decoded JSON in
  place, \<open>UpdateRecommendationJSON\<close> composes them.

  An engines value that is neither absent, null nor an object makes the unchecked type assertion of
  the source panic; the two functions that contain it return \<open>None\<close> then.  The document decoded by
  \<open>json.Unmarshal\<close> is an argument, \<open>None\<close> when decoding failed.
\<close>

section \<open>Constants (\<open>common.go\<close>, \<open>kruize_constants.go\<close>)\<close>

definition kruizeRecommendationTerms :: "string list" where
  "kruizeRecommendationTerms = [''short_term'', ''medium_term'', ''long_term'']"

definition kruizeRecommendationEngines :: "string list" where
  "kruizeRecommendationEngines = [''cost'', ''performance'']"

definition sections :: "string list" where
  "sections = [''limits'', ''requests'']"

definition NotificationsToShow :: "(string \<times> string) list" where
  "NotificationsToShow =
     [(''323004'', ''NOTICE''), (''323005'', ''NOTICE''), (''324003'', ''NOTICE''), (''324004'', ''NOTICE'')]"

definition MemoryUnitk8s :: "(string \<times> string) list" where
  "MemoryUnitk8s = [(''bytes'', ''bytes''), (''MiB'', ''Mi''), (''GiB'', ''Gi'')]"

definition CPUUnitk8s :: "(string \<times> string) list" where
  "CPUUnitk8s = [(''millicores'', ''m''), (''cores'', [])]"

text \<open>Reading a missing key of a \<open>map[string]string\<close> gives the empty string.\<close>

definition read_str :: "(string \<times> string) list \<Rightarrow> string \<Rightarrow> string" where
  "read_str m k = (case map_of m k of Some v \<Rightarrow> v | None \<Rightarrow> [])"

section \<open>Units\<close>

definition convertCPUUnit :: "string \<Rightarrow> f64 \<Rightarrow> f64" where
  "convertCPUUnit cpuUnit cpuValue =
     (if cpuUnit = ''millicores'' then f64_round (f64_mul cpuValue (f64_const 1000))
      else if cpuUnit = ''cores'' then TruncateToThreeDecimalPlaces cpuValue
      else cpuValue)"

definition convertMemoryUnit :: "string \<Rightarrow> f64 \<Rightarrow> f64" where
  "convertMemoryUnit memoryUnit memoryValue =
     (if memoryUnit = ''MiB'' then TruncateMemoryBytesToMiBTwoDecimals memoryValue
      else if memoryUnit = ''GiB'' then TruncateMemoryBytesToGiBTwoDecimals memoryValue
      else if memoryUnit = ''bytes'' then memoryValue
      else Zero False)"

type_synonym units = "(string \<times> string) list"

definition cpu_format :: "units \<Rightarrow> bool \<Rightarrow> string" where
  "cpu_format u k8s = (if k8s then read_str CPUUnitk8s (read_str u ''cpu'') else read_str u ''cpu'')"

definition memory_format :: "units \<Rightarrow> bool \<Rightarrow> string" where
  "memory_format u k8s = (if k8s then read_str MemoryUnitk8s (read_str u ''memory'') else read_str u ''memory'')"

text \<open>\<open>if v, ok := o["amount"].(float64); ok { o["amount"] = conv(v); o["format"] = fmt }\<close>\<close>

definition set_amount :: "(f64 \<Rightarrow> f64) \<Rightarrow> string \<Rightarrow> obj \<Rightarrow> obj" where
  "set_amount conv fmt m =
     (case num_at ''amount'' m of
        Some v \<Rightarrow> put ''format'' (JStr fmt) (put ''amount'' (JNum (conv v)) m)
      | None \<Rightarrow> m)"

definition convert_values :: "units \<Rightarrow> bool \<Rightarrow> obj \<Rightarrow> obj" where
  "convert_values u k8s m =
     on_obj ''cpu'' (set_amount (convertCPUUnit (read_str u ''cpu'')) (cpu_format u k8s))
       (on_obj ''memory'' (set_amount (convertMemoryUnit (read_str u ''memory'')) (memory_format u k8s)) m)"

definition truncateDurationInHours :: "obj \<Rightarrow> obj" where
  "truncateDurationInHours m =
     (case num_at ''duration_in_hours'' m of
        Some d \<Rightarrow> put ''duration_in_hours''
                   (JNum (f64_div (f64_trunc (f64_mul d (f64_const 10))) (f64_const 10))) m
      | None \<Rightarrow> m)"

definition drop_nil_start :: "obj \<Rightarrow> obj" where
  "drop_nil_start m =
     (if jget ''monitoring_start_time'' m = JStr ''0001-01-01T00:00:00Z'' then drop_key ''monitoring_start_time'' m
      else m)"

text \<open>A box plot: the five numbers are written even where they were missing (as a converted zero).\<close>

definition convert_usage :: "(f64 \<Rightarrow> f64) \<Rightarrow> string \<Rightarrow> obj \<Rightarrow> obj" where
  "convert_usage conv fmt m =
     fold (\<lambda>k m. put k (JNum (conv (case num_at k m of Some v \<Rightarrow> v | None \<Rightarrow> Zero False))) m)
       [''q1'', ''q3'', ''min'', ''max'', ''median'']
       (case str_at ''format'' m of Some _ \<Rightarrow> put ''format'' (JStr fmt) m | None \<Rightarrow> m)"

definition convert_datapoint :: "units \<Rightarrow> bool \<Rightarrow> obj \<Rightarrow> obj" where
  "convert_datapoint u k8s m =
     on_obj ''memoryUsage'' (convert_usage (convertMemoryUnit (read_str u ''memory'')) (memory_format u k8s))
       (on_obj ''cpuUsage'' (convert_usage (convertCPUUnit (read_str u ''cpu'')) (cpu_format u k8s)) m)"

definition convert_plots :: "units \<Rightarrow> bool \<Rightarrow> obj \<Rightarrow> obj" where
  "convert_plots u k8s = on_obj ''plots'' (on_obj ''plots_data'' (on_values (convert_datapoint u k8s)))"

text \<open>The unchecked assertion on a term's engines.\<close>

definition engines_panic :: "obj \<Rightarrow> bool" where
  "engines_panic m =
     (jget ''recommendation_engines'' m \<noteq> JNull \<and> \<not> is_obj (jget ''recommendation_engines'' m))"

definition on_engines :: "(obj \<Rightarrow> obj) \<Rightarrow> obj \<Rightarrow> obj" where
  "on_engines f = on_obj ''recommendation_engines'' (on_objs kruizeRecommendationEngines f)"

definition convert_engine :: "units \<Rightarrow> bool \<Rightarrow> obj \<Rightarrow> obj" where
  "convert_engine u k8s = on_objs [''config'', ''variation''] (on_objs sections (convert_values u k8s))"

definition convert_term :: "units \<Rightarrow> bool \<Rightarrow> obj \<Rightarrow> obj" where
  "convert_term u k8s m =
     on_engines (convert_engine u k8s)
       (convert_plots u k8s (truncateDurationInHours (drop_nil_start m)))"

text \<open>The loops over the terms: every term that is an object, in order, until one panics.\<close>

definition term_panics :: "obj \<Rightarrow> bool" where
  "term_panics data =
     (\<exists>t \<in> set kruizeRecommendationTerms.
        is_obj (jget t (sub ''recommendation_terms'' data))
        \<and> engines_panic (sub t (sub ''recommendation_terms'' data)))"

definition on_terms :: "(obj \<Rightarrow> obj) \<Rightarrow> obj \<Rightarrow> obj" where
  "on_terms f = on_obj ''recommendation_terms'' (on_objs kruizeRecommendationTerms f)"

definition transformComponentUnits :: "units \<Rightarrow> bool \<Rightarrow> obj \<Rightarrow> obj option" where
  "transformComponentUnits u k8s data =
     (let data = on_obj ''current'' (on_objs sections (convert_values u k8s)) data
      in if term_panics data then None else Some (on_terms (convert_term u k8s) data))"

section \<open>Notifications and plots\<close>

definition deleteNotificationObject :: "obj \<Rightarrow> obj" where
  "deleteNotificationObject m =
     (if list_ex (\<lambda>kv. map_of NotificationsToShow (fst kv) = None) (sub ''notifications'' m)
      then drop_key ''notifications'' m else m)"

definition filterNotifications :: "obj \<Rightarrow> obj" where
  "filterNotifications data =
     on_terms (\<lambda>t. on_engines deleteNotificationObject (deleteNotificationObject t))
       (deleteNotificationObject data)"

definition dropBoxPlotsObject :: "obj \<Rightarrow> obj" where
  "dropBoxPlotsObject = on_terms (drop_key ''plots'')"

section \<open>Variation as a percentage\<close>

definition amount_or_zero :: "string \<Rightarrow> string \<Rightarrow> obj \<Rightarrow> f64" where
  "amount_or_zero section res cur =
     (case num_at ''amount'' (sub res (sub section cur)) of Some v \<Rightarrow> v | None \<Rightarrow> Zero False)"

definition percent_of :: "f64 \<Rightarrow> f64 \<Rightarrow> f64" where
  "percent_of current v = TruncateToThreeDecimalPlaces (CalculatePercentage v current)"

definition percent_values :: "f64 \<Rightarrow> f64 \<Rightarrow> obj \<Rightarrow> obj" where
  "percent_values cpu mem m =
     on_obj ''cpu'' (set_amount (percent_of cpu) ''percent'')
       (on_obj ''memory'' (set_amount (percent_of mem) ''percent'') m)"

definition percent_variation :: "obj \<Rightarrow> bool \<Rightarrow> obj \<Rightarrow> obj" where
  "percent_variation cur skipRequests m =
     (let m = on_obj ''limits''
            (percent_values (amount_or_zero ''limits'' ''cpu'' cur) (amount_or_zero ''limits'' ''memory'' cur)) m
      in if skipRequests then m
         else on_obj ''requests''
            (percent_values (amount_or_zero ''requests'' ''cpu'' cur) (amount_or_zero ''requests'' ''memory'' cur)) m)"

definition convertVariationToPercentage :: "obj \<Rightarrow> bool \<Rightarrow> obj option" where
  "convertVariationToPercentage data skipRequests =
     (if term_panics data then None
      else Some (on_terms (on_engines (on_obj ''variation''
             (percent_variation (sub ''current'' data) skipRequests))) data))"

text \<open>\<open>cpu["amount"] = *cpuPct; cpu["format"] = "percent"\<close> when the object and the column exist.\<close>

definition inject_amount :: "f64 option \<Rightarrow> obj \<Rightarrow> obj" where
  "inject_amount pct m =
     (case pct of Some v \<Rightarrow> put ''format'' (JStr ''percent'') (put ''amount'' (JNum v) m) | None \<Rightarrow> m)"

definition inject_requests :: "f64 option \<Rightarrow> f64 option \<Rightarrow> obj \<Rightarrow> obj" where
  "inject_requests cpuPct memPct m =
     on_obj ''memory'' (inject_amount memPct) (on_obj ''cpu'' (inject_amount cpuPct) m)"

definition inject_spec :: "StoredVariationPcts \<Rightarrow> StoredVariationSpec \<Rightarrow> obj \<Rightarrow> obj" where
  "inject_spec pcts spec =
     on_obj ''recommendation_terms'' (on_obj (vs_term spec) (on_obj ''recommendation_engines''
       (on_obj (vs_engine spec) (on_obj ''variation'' (on_obj ''requests''
         (inject_requests (vs_cpu spec pcts) (vs_mem spec pcts)))))))"

definition injectStoredRequestVariationPct :: "obj \<Rightarrow> StoredVariationPcts \<Rightarrow> obj" where
  "injectStoredRequestVariationPct data pcts = fold (inject_spec pcts) StoredVariationSpecs data"

section \<open>The composition\<close>

datatype api_json = NilMap | ApiPanic | ApiJson obj

definition is_list_handler :: "string \<Rightarrow> bool" where
  "is_list_handler h = (h = ''recommendationset-list'' \<or> h = ''namespace-recommendationset-list'')"

definition UpdateRecommendationJSON ::
  "string \<Rightarrow> units \<Rightarrow> bool \<Rightarrow> obj option \<Rightarrow> StoredVariationPcts option \<Rightarrow> api_json" where
  "UpdateRecommendationJSON handlerName u k8s decoded storedPcts =
     (case decoded of
        None \<Rightarrow> NilMap
      | Some data \<Rightarrow>
          (let data = (if is_list_handler handlerName then dropBoxPlotsObject data else data)
           in case transformComponentUnits u k8s data of
                None \<Rightarrow> ApiPanic
              | Some data \<Rightarrow>
                  (let data = filterNotifications data;
                       (data, skipRequests) =
                         (case storedPcts of
                            Some p \<Rightarrow> if HasValues p then (injectStoredRequestVariationPct data p, True) else (data, False)
                          | None \<Rightarrow> (data, False))
                   in case convertVariationToPercentage data skipRequests of
                        None \<Rightarrow> ApiPanic
                      | Some data \<Rightarrow> ApiJson data)))"

section \<open>Every edit keeps a document well-formed\<close>

lemma convert_ok [simp]: "f64_ok v \<Longrightarrow> f64_ok (convertCPUUnit c v)" "f64_ok v \<Longrightarrow> f64_ok (convertMemoryUnit c v)"
  by (simp_all add: convertCPUUnit_def convertMemoryUnit_def trunc3_ok)

lemma percent_ok [simp]: "f64_ok (percent_of c v)"
  by (simp add: percent_of_def CalculatePercentage_def trunc3_ok)

lemma section_op_set_amount: "(\<And>v. f64_ok v \<Longrightarrow> f64_ok (conv v)) \<Longrightarrow> section_op (set_amount conv fmt)"
  by (rule section_opI) (auto simp: set_amount_def wf_put wf_num_at split: option.split)

interpretation unit_values: section_op "convert_values u k8s"
  unfolding convert_values_def
  by (intro section_op_on_obj2 section_op_wf_op section_op_set_amount convert_ok)

interpretation duration: section_op truncateDurationInHours
  by (rule section_opI) (auto simp: truncateDurationInHours_def wf_put split: option.split)

interpretation nil_start: section_op drop_nil_start
  by (rule section_opI) (auto simp: drop_nil_start_def wf_drop_key)

lemma wf_convert_usage:
  assumes conv: "\<And>v. f64_ok v \<Longrightarrow> f64_ok (conv v)" shows "wf_op (convert_usage conv fmt)"
proof
  fix m assume m: "wf_obj m"
  have step: "wf_obj (put k (JNum (conv (case num_at k m of Some v \<Rightarrow> v | None \<Rightarrow> Zero False))) m)" if "wf_obj m" for k m
  proof (rule wf_put [OF that])
    have "f64_ok (case num_at k m of Some v \<Rightarrow> v | None \<Rightarrow> Zero False)"
      using wf_num_at [OF that] by (simp split: option.split)
    then show "wf_json (JNum (conv (case num_at k m of Some v \<Rightarrow> v | None \<Rightarrow> Zero False)))"
      by (simp add: conv)
  qed
  have fold: "wf_obj (fold (\<lambda>k m. put k (JNum (conv (case num_at k m of Some v \<Rightarrow> v | None \<Rightarrow> Zero False))) m) ks m)"
    if "wf_obj m" for ks m
    using that by (induction ks arbitrary: m) (simp_all add: step)
  have "wf_obj (case str_at ''format'' m of Some _ \<Rightarrow> put ''format'' (JStr fmt) m | None \<Rightarrow> m)"
    using m by (simp add: wf_put split: option.split)
  then show "wf_obj (convert_usage conv fmt m)"
    unfolding convert_usage_def by (rule fold)
qed

interpretation datapoint: section_op "convert_datapoint u k8s"
  unfolding convert_datapoint_def by (intro section_op_on_obj2 wf_convert_usage convert_ok)

interpretation plots: section_op "convert_plots u k8s"
  unfolding convert_plots_def
  by (intro section_op_on_obj section_op_wf_op [OF section_op_on_obj] section_op_wf_op [OF section_op_on_values]
      datapoint.wf_op_axioms)

lemma section_op_on_engines: "wf_op f \<Longrightarrow> section_op (on_engines f)"
  unfolding on_engines_def by (intro section_op_on_obj section_op_wf_op [OF section_op_on_objs])

lemma section_op_on_terms: "wf_op f \<Longrightarrow> section_op (on_terms f)"
  unfolding on_terms_def by (intro section_op_on_obj section_op_wf_op [OF section_op_on_objs])

interpretation engine: section_op "convert_engine u k8s"
  unfolding convert_engine_def
  by (intro section_op_on_objs section_op_wf_op [OF section_op_on_objs] unit_values.wf_op_axioms)

interpretation convert_term: section_op "convert_term u k8s"
  unfolding convert_term_def
  by (rule section_op_comp [OF section_op_on_engines [OF engine.wf_op_axioms] section_op_comp
        [OF plots.section_op_axioms section_op_comp [OF duration.section_op_axioms nil_start.section_op_axioms]]])

interpretation notif: section_op deleteNotificationObject
  by (rule section_opI) (auto simp: deleteNotificationObject_def wf_drop_key)

interpretation notif_term: section_op "\<lambda>t. on_engines deleteNotificationObject (deleteNotificationObject t)"
  by (rule section_op_comp [OF section_op_on_engines [OF notif.wf_op_axioms] notif.section_op_axioms])

interpretation percent_values: section_op "percent_values c m"
  unfolding percent_values_def
  by (intro section_op_on_obj2 section_op_wf_op section_op_set_amount percent_ok)

lemma section_op_percent_variation: "section_op (percent_variation cur skip)"
  unfolding percent_variation_def Let_def
  by (cases skip) (simp_all add: section_op_on_obj section_op_on_obj2 percent_values.wf_op_axioms)

interpretation percent_variation: section_op "percent_variation cur skip"
  by (rule section_op_percent_variation)

definition pcts_ok :: "StoredVariationPcts \<Rightarrow> bool" where
  "pcts_ok p = list_all (\<lambda>s. pred_option f64_ok (vs_cpu s p) \<and> pred_option f64_ok (vs_mem s p)) StoredVariationSpecs"

lemma wf_inject:
  assumes "pred_option f64_ok c" "pred_option f64_ok m" shows "section_op (on_obj ''requests'' (inject_requests c m))"
proof -
  have "wf_op (inject_amount p)" if "pred_option f64_ok p" for p
    using that by (unfold_locales) (auto simp: inject_amount_def wf_put split: option.split)
  with assms show ?thesis unfolding inject_requests_def
    by (intro section_op_on_obj section_op_wf_op [OF section_op_on_obj2])
qed

lemma section_op_inject_spec:
  "pred_option f64_ok (vs_cpu s p) \<Longrightarrow> pred_option f64_ok (vs_mem s p) \<Longrightarrow> section_op (inject_spec p s)"
  unfolding inject_spec_def
  by (rule section_op_nest, rule section_op_nest, rule section_op_nest, rule section_op_nest, rule section_op_nest,
      rule wf_inject)

lemma wf_injectStored: "pcts_ok p \<Longrightarrow> wf_obj d \<Longrightarrow> wf_obj (injectStoredRequestVariationPct d p)"
proof -
  have "wf_obj (fold (inject_spec p) ss d)"
    if "list_all (\<lambda>s. pred_option f64_ok (vs_cpu s p) \<and> pred_option f64_ok (vs_mem s p)) ss" "wf_obj d" for ss d
    using that
    by (induction ss arbitrary: d) (simp_all add: section_op_wf [OF section_op_inject_spec])
  then show "pcts_ok p \<Longrightarrow> wf_obj d \<Longrightarrow> wf_obj (injectStoredRequestVariationPct d p)"
    by (simp add: injectStoredRequestVariationPct_def pcts_ok_def)
qed

lemma wf_transform: "wf_obj d \<Longrightarrow> transformComponentUnits u k8s d = Some r \<Longrightarrow> wf_obj r"
proof -
  have c: "section_op (on_obj ''current'' (on_objs sections (convert_values u k8s)))"
    by (rule section_op_nest [OF section_op_on_objs [OF unit_values.wf_op_axioms]])
  show "wf_obj d \<Longrightarrow> transformComponentUnits u k8s d = Some r \<Longrightarrow> wf_obj r"
    by (auto simp: transformComponentUnits_def Let_def split: if_splits
        intro: section_op_wf [OF section_op_on_terms [OF convert_term.wf_op_axioms]] section_op_wf [OF c])
qed

lemma wf_filter: "wf_obj d \<Longrightarrow> wf_obj (filterNotifications d)"
  unfolding filterNotifications_def
  by (rule section_op_wf [OF section_op_on_terms [OF notif_term.wf_op_axioms] notif.f_wf])

lemma wf_convertVariation: "wf_obj d \<Longrightarrow> convertVariationToPercentage d s = Some r \<Longrightarrow> wf_obj r"
proof -
  have "section_op (on_engines (on_obj ''variation'' (percent_variation (sub ''current'' d) s)))"
    by (rule section_op_on_engines [OF section_op_wf_op [OF section_op_nest [OF section_op_percent_variation]]])
  from section_op_wf [OF section_op_on_terms [OF section_op_wf_op [OF this]]]
  show "wf_obj d \<Longrightarrow> convertVariationToPercentage d s = Some r \<Longrightarrow> wf_obj r"
    by (auto simp: convertVariationToPercentage_def split: if_splits)
qed

lemma wf_dropPlots: "wf_obj d \<Longrightarrow> wf_obj (dropBoxPlotsObject d)"
  unfolding dropBoxPlotsObject_def
  by (rule section_op_wf [OF section_op_on_terms [OF section_op_wf_op [OF section_op_drop_key]]])

end
