(* ===== verification/RecommendationView.thy ===== *)
theory RecommendationView
  imports RecommendationJson
begin

text \<open>
  What the API's document shows, as a function of the stored one.  \<open>engine_obj t e\<close> is the object of
  one engine of one term; \<open>amount_at\<close> reads the amount of a resource in one of its sections.  The
  lemmas push the reading through each edit of \<open>RecommendationJson\<close>; the properties state the
  composed \<open>UpdateRecommendationJSON\<close>.
\<close>

definition term_obj :: "string \<Rightarrow> obj \<Rightarrow> obj" where
  "term_obj t d = sub t (sub ''recommendation_terms'' d)"

definition engine_obj :: "string \<Rightarrow> string \<Rightarrow> obj \<Rightarrow> obj" where
  "engine_obj t e d = sub e (sub ''recommendation_engines'' (term_obj t d))"

definition amount_at :: "string \<Rightarrow> string \<Rightarrow> obj \<Rightarrow> f64 option" where
  "amount_at section res m = num_at ''amount'' (sub res (sub section m))"

section \<open>Reading through the edits\<close>

named_theorems view "what is read after an edit of the recommendation document"

lemma on_terms_view [view]:
  "section_op f \<Longrightarrow> t \<in> set kruizeRecommendationTerms \<Longrightarrow> term_obj t (on_terms f d) = f (term_obj t d)"
  "k \<noteq> ''recommendation_terms'' \<Longrightarrow> jget k (on_terms f d) = jget k d"
  "k \<noteq> ''recommendation_terms'' \<Longrightarrow> sub k (on_terms f d) = sub k d"
proof -
  assume f: "section_op f" and t: "t \<in> set kruizeRecommendationTerms"
  have "section_op (on_objs kruizeRecommendationTerms f)"
    by (rule section_op_on_objs [OF section_op_wf_op [OF f]])
  from section_op.sub_on_obj [OF this] section_op.sub_on_objs [OF f] t
  show "term_obj t (on_terms f d) = f (term_obj t d)"
    by (simp add: term_obj_def on_terms_def kruizeRecommendationTerms_def)
qed (simp_all add: on_terms_def jget_on_obj sub_on_obj_other)

lemma on_engines_view [view]:
  "section_op f \<Longrightarrow> e \<in> set kruizeRecommendationEngines \<Longrightarrow>
     sub e (sub ''recommendation_engines'' (on_engines f m)) = f (sub e (sub ''recommendation_engines'' m))"
  "k \<noteq> ''recommendation_engines'' \<Longrightarrow> sub k (on_engines f m) = sub k m"
  "num_at k (on_engines f m) = num_at k m"
proof -
  assume f: "section_op f" and e: "e \<in> set kruizeRecommendationEngines"
  have "section_op (on_objs kruizeRecommendationEngines f)"
    by (rule section_op_on_objs [OF section_op_wf_op [OF f]])
  from section_op.sub_on_obj [OF this] section_op.sub_on_objs [OF f] e
  show "sub e (sub ''recommendation_engines'' (on_engines f m)) = f (sub e (sub ''recommendation_engines'' m))"
    by (simp add: on_engines_def kruizeRecommendationEngines_def)
qed (simp_all add: on_engines_def sub_on_obj_other)

lemma on_terms_engine [view]:
  "section_op f \<Longrightarrow> t \<in> set kruizeRecommendationTerms \<Longrightarrow>
     engine_obj t e (on_terms f d) = sub e (sub ''recommendation_engines'' (f (term_obj t d)))"
  by (simp add: engine_obj_def on_terms_view)

lemma plots_view [view]: "k \<noteq> ''plots'' \<Longrightarrow> sub k (convert_plots u k8s m) = sub k m"
  by (simp add: convert_plots_def sub_on_obj_other)

lemma duration_view [view]: "k \<noteq> ''duration_in_hours'' \<Longrightarrow> sub k (truncateDurationInHours m) = sub k m"
  by (simp add: truncateDurationInHours_def split: option.split)

lemma nil_start_view [view]: "k \<noteq> ''monitoring_start_time'' \<Longrightarrow> sub k (drop_nil_start m) = sub k m"
  by (simp add: drop_nil_start_def)

lemma notification_view [view]: "k \<noteq> ''notifications'' \<Longrightarrow> sub k (deleteNotificationObject m) = sub k m"
  by (simp add: deleteNotificationObject_def)

lemma convert_term_view [view]:
  "e \<in> set kruizeRecommendationEngines \<Longrightarrow>
     sub e (sub ''recommendation_engines'' (convert_term u k8s m))
       = convert_engine u k8s (sub e (sub ''recommendation_engines'' m))"
  by (simp add: convert_term_def on_engines_view engine.section_op_axioms plots_view duration_view nil_start_view)

lemma convert_engine_view [view]:
  assumes "b \<in> {''config'', ''variation''}" "s \<in> set sections"
  shows "sub s (sub b (convert_engine u k8s m)) = convert_values u k8s (sub s (sub b m))"
proof -
  have "section_op (on_objs sections (convert_values u k8s))"
    by (rule section_op_on_objs [OF unit_values.wf_op_axioms])
  from section_op.sub_on_objs [OF this] unit_values.sub_on_objs assms show ?thesis
    by (auto simp: convert_engine_def sections_def)
qed

lemma convert_engine_notifications [view]: "sub ''notifications'' (convert_engine u k8s m) = sub ''notifications'' m"
  by (simp add: convert_engine_def sub_on_objs_other)

lemma set_amount_view [view]:
  "num_at ''amount'' (set_amount conv fmt m) = map_option conv (num_at ''amount'' m)"
  "k \<notin> {''amount'', ''format''} \<Longrightarrow> sub k (set_amount conv fmt m) = sub k m"
  "set_amount conv fmt [] = []"
  by (simp_all add: set_amount_def split: option.split)

lemma sub_on_obj_set_amount: "sub k (on_obj k (set_amount conv fmt) m) = set_amount conv fmt (sub k m)"
  by (cases "jget k m") (simp_all add: sub_def jget_on_obj set_amount_view)

lemma convert_values_view [view]:
  "num_at ''amount'' (sub ''cpu'' (convert_values u k8s m))
     = map_option (convertCPUUnit (read_str u ''cpu'')) (num_at ''amount'' (sub ''cpu'' m))"
  "num_at ''amount'' (sub ''memory'' (convert_values u k8s m))
     = map_option (convertMemoryUnit (read_str u ''memory'')) (num_at ''amount'' (sub ''memory'' m))"
  by (simp_all add: convert_values_def sub_on_obj_set_amount sub_on_obj_other set_amount_view)

lemma percent_values_view [view]:
  "num_at ''amount'' (sub ''cpu'' (percent_values c m0 m)) = map_option (percent_of c) (num_at ''amount'' (sub ''cpu'' m))"
  "num_at ''amount'' (sub ''memory'' (percent_values c m0 m)) = map_option (percent_of m0) (num_at ''amount'' (sub ''memory'' m))"
  by (simp_all add: percent_values_def sub_on_obj_set_amount sub_on_obj_other set_amount_view)

lemma percent_variation_view [view]:
  "sub ''limits'' (percent_variation cur skip m)
     = percent_values (amount_or_zero ''limits'' ''cpu'' cur) (amount_or_zero ''limits'' ''memory'' cur) (sub ''limits'' m)"
  "sub ''requests'' (percent_variation cur skip m)
     = (if skip then sub ''requests'' m
        else percent_values (amount_or_zero ''requests'' ''cpu'' cur) (amount_or_zero ''requests'' ''memory'' cur) (sub ''requests'' m))"
  by (simp_all add: percent_variation_def Let_def percent_values.sub_on_obj sub_on_obj_other)

lemma is_obj_terms [view]: "is_obj (jget t (sub ''recommendation_terms'' (on_terms f d))) = is_obj (jget t (sub ''recommendation_terms'' d))"
  by (cases "jget ''recommendation_terms'' d") (simp_all add: on_terms_def sub_def jget_on_obj is_obj_on_objs)

lemma jget_term_obj:
  assumes "section_op f" "t \<in> set kruizeRecommendationTerms"
  shows "sub t (sub ''recommendation_terms'' (on_terms f d)) = f (sub t (sub ''recommendation_terms'' d))"
  using on_terms_view(1) [OF assms] by (simp add: term_obj_def)

lemma engines_panic_on_engines [view]: "engines_panic (on_engines f m) = engines_panic m"
  by (cases "jget ''recommendation_engines'' m") (simp_all add: engines_panic_def on_engines_def jget_on_obj)

lemma engines_panic_edits [view]:
  "engines_panic (convert_plots u k8s m) = engines_panic m"
  "engines_panic (truncateDurationInHours m) = engines_panic m"
  "engines_panic (drop_nil_start m) = engines_panic m"
  "engines_panic (deleteNotificationObject m) = engines_panic m"
  "engines_panic (drop_key ''plots'' m) = engines_panic m"
  by (simp_all add: engines_panic_def convert_plots_def jget_on_obj truncateDurationInHours_def drop_nil_start_def
      deleteNotificationObject_def split: option.split)

text \<open>An edit of the terms that leaves their engines' kind alone does not change who panics.\<close>

lemma term_panics_on_terms:
  assumes "section_op f" "\<And>m. engines_panic (f m) = engines_panic m"
  shows "term_panics (on_terms f d) = term_panics d"
  using assms(2) by (auto simp: term_panics_def is_obj_terms jget_term_obj [OF assms(1)])

section \<open>The stored percentages\<close>

lemma inject_requests_view:
  assumes "num_at ''amount'' (sub ''cpu'' m) = Some x"
  shows "num_at ''amount'' (sub ''cpu'' (inject_requests c b m)) = Some (case c of Some v \<Rightarrow> v | None \<Rightarrow> x)"
  using assms
  by (cases "jget ''cpu'' m")
    (simp_all add: inject_requests_def sub_on_obj_other inject_amount_def sub_def jget_on_obj split: option.split)

lemma inject_requests_memory:
  assumes "num_at ''amount'' (sub ''memory'' m) = Some x"
  shows "num_at ''amount'' (sub ''memory'' (inject_requests c b m)) = Some (case b of Some v \<Rightarrow> v | None \<Rightarrow> x)"
  using assms
  by (cases "jget ''memory'' m")
    (simp_all add: inject_requests_def inject_amount_def sub_def jget_on_obj split: option.split)

lemma inject_requests_nil [simp]: "inject_requests c b [] = []"
  by (simp add: inject_requests_def)

lemma inject_spec_view:
  "engine_obj t e (inject_spec p s d) =
     (if vs_term s = t \<and> vs_engine s = e
      then on_obj ''variation'' (on_obj ''requests'' (inject_requests (vs_cpu s p) (vs_mem s p))) (engine_obj t e d)
      else engine_obj t e d)"
  by (cases "vs_term s = t"; cases "vs_engine s = e")
    (simp_all add: engine_obj_def term_obj_def inject_spec_def sub_on_obj_nil sub_on_obj_other)

lemma injectStored_view:
  assumes "t \<in> set kruizeRecommendationTerms" "e \<in> set kruizeRecommendationEngines"
  shows "engine_obj t e (injectStoredRequestVariationPct d p)
     = on_obj ''variation'' (on_obj ''requests'' (inject_requests (fst (Lookup p t e)) (snd (Lookup p t e)))) (engine_obj t e d)"
  using assms
  by (auto simp: injectStoredRequestVariationPct_def StoredVariationSpecs_def Lookup_def inject_spec_view
      kruizeRecommendationTerms_def kruizeRecommendationEngines_def)

lemma inject_spec_other:
  "k \<noteq> ''recommendation_terms'' \<Longrightarrow> sub k (inject_spec p s d) = sub k d"
  "k \<noteq> ''recommendation_engines'' \<Longrightarrow> sub k (term_obj t (inject_spec p s d)) = sub k (term_obj t d)"
  "term_panics (inject_spec p s d) = term_panics d"
proof -
  show "k \<noteq> ''recommendation_terms'' \<Longrightarrow> sub k (inject_spec p s d) = sub k d"
    by (simp add: inject_spec_def sub_on_obj_other)
  show "k \<noteq> ''recommendation_engines'' \<Longrightarrow> sub k (term_obj t (inject_spec p s d)) = sub k (term_obj t d)"
    by (cases "vs_term s = t") (simp_all add: inject_spec_def term_obj_def sub_on_obj_nil sub_on_obj_other)
  have "is_obj (jget t (sub ''recommendation_terms'' (inject_spec p s d))) = is_obj (jget t (sub ''recommendation_terms'' d))" for t
    by (simp add: inject_spec_def sub_on_obj_nil is_obj_on_obj)
  moreover have "engines_panic (sub t (sub ''recommendation_terms'' (inject_spec p s d)))
      = engines_panic (sub t (sub ''recommendation_terms'' d))" for t
    by (cases "vs_term s = t"; cases "jget ''recommendation_engines'' (sub t (sub ''recommendation_terms'' d))")
      (simp_all add: inject_spec_def sub_on_obj_nil sub_on_obj_other engines_panic_def jget_on_obj)
  ultimately show "term_panics (inject_spec p s d) = term_panics d" by (simp add: term_panics_def)
qed

lemma injectStored_other:
  "k \<noteq> ''recommendation_terms'' \<Longrightarrow> sub k (injectStoredRequestVariationPct d p) = sub k d"
  "k \<noteq> ''recommendation_engines'' \<Longrightarrow> sub k (term_obj t (injectStoredRequestVariationPct d p)) = sub k (term_obj t d)"
  "term_panics (injectStoredRequestVariationPct d p) = term_panics d"
proof -
  have *: "k \<noteq> ''recommendation_terms'' \<Longrightarrow> sub k (fold (inject_spec p) ss d) = sub k d"
    "k \<noteq> ''recommendation_engines'' \<Longrightarrow> sub k (term_obj t (fold (inject_spec p) ss d)) = sub k (term_obj t d)"
    "term_panics (fold (inject_spec p) ss d) = term_panics d" for ss
    by (induction ss arbitrary: d) (simp_all add: inject_spec_other)
  show "k \<noteq> ''recommendation_terms'' \<Longrightarrow> sub k (injectStoredRequestVariationPct d p) = sub k d"
    "k \<noteq> ''recommendation_engines'' \<Longrightarrow> sub k (term_obj t (injectStoredRequestVariationPct d p)) = sub k (term_obj t d)"
    "term_panics (injectStoredRequestVariationPct d p) = term_panics d"
    unfolding injectStoredRequestVariationPct_def by (rule *, assumption)+ (rule *)
qed

section \<open>The composed transformation\<close>

text \<open>The steps before the percentages, and the stored percentages when there are any.\<close>

definition converted :: "string \<Rightarrow> units \<Rightarrow> bool \<Rightarrow> obj \<Rightarrow> obj" where
  "converted h u k8s d =
     filterNotifications (on_terms (convert_term u k8s) (on_obj ''current'' (on_objs sections (convert_values u k8s))
       (if is_list_handler h then dropBoxPlotsObject d else d)))"

definition injected :: "StoredVariationPcts option \<Rightarrow> obj \<Rightarrow> obj \<times> bool" where
  "injected stored d =
     (case stored of
        Some p \<Rightarrow> if HasValues p then (injectStoredRequestVariationPct d p, True) else (d, False)
      | None \<Rightarrow> (d, False))"

definition percented :: "obj \<times> bool \<Rightarrow> obj" where
  "percented ds =
     on_terms (on_engines (on_obj ''variation'' (percent_variation (sub ''current'' (fst ds)) (snd ds)))) (fst ds)"

lemma percent_step: "section_op (on_engines (on_obj ''variation'' (percent_variation cur s)))"
  by (rule section_op_on_engines [OF section_op_wf_op [OF section_op_nest [OF section_op_percent_variation]]])

lemma term_panics_current: "term_panics (on_obj ''current'' f d) = term_panics d"
  by (simp add: term_panics_def sub_on_obj_other)

lemma term_panics_drop: "term_panics (dropBoxPlotsObject d) = term_panics d"
  unfolding dropBoxPlotsObject_def
  by (rule term_panics_on_terms [OF section_op_drop_key]) (rule engines_panic_edits)

lemma term_panics_filter: "term_panics (filterNotifications d) = term_panics d"
proof -
  have "term_panics (deleteNotificationObject d) = term_panics d"
    by (simp add: term_panics_def notification_view)
  moreover have "term_panics (on_terms (\<lambda>t. on_engines deleteNotificationObject (deleteNotificationObject t)) m) = term_panics m" for m
    by (rule term_panics_on_terms [OF notif_term.section_op_axioms]) (simp add: view)
  ultimately show ?thesis by (simp add: filterNotifications_def)
qed

lemma term_panics_convert: "term_panics (on_terms (convert_term u k8s) d) = term_panics d"
  by (rule term_panics_on_terms [OF convert_term.section_op_axioms]) (simp add: convert_term_def view)

lemma update_eq:
  "UpdateRecommendationJSON h u k8s (Some d) stored =
     (if term_panics d then ApiPanic else ApiJson (percented (injected stored (converted h u k8s d))))"
proof (cases "term_panics d")
  case True
  then show ?thesis
    by (simp add: UpdateRecommendationJSON_def transformComponentUnits_def Let_def term_panics_current term_panics_drop)
next
  case False
  then have c: "\<not> term_panics (converted h u k8s d)"
    by (simp add: converted_def term_panics_filter term_panics_convert term_panics_current term_panics_drop)
  then have i: "\<not> term_panics (fst (injected stored (converted h u k8s d)))"
    by (simp add: injected_def injectStored_other split: option.split)
  have "transformComponentUnits u k8s (if is_list_handler h then dropBoxPlotsObject d else d)
      = Some (on_terms (convert_term u k8s) (on_obj ''current'' (on_objs sections (convert_values u k8s))
          (if is_list_handler h then dropBoxPlotsObject d else d)))"
    using False by (simp add: transformComponentUnits_def Let_def term_panics_current term_panics_drop)
  then have "UpdateRecommendationJSON h u k8s (Some d) stored =
     (case injected stored (converted h u k8s d) of (data, s) \<Rightarrow>
        (case convertVariationToPercentage data s of None \<Rightarrow> ApiPanic | Some data \<Rightarrow> ApiJson data))"
    by (simp add: UpdateRecommendationJSON_def Let_def converted_def injected_def)
  with i False show ?thesis
    by (cases "injected stored (converted h u k8s d)") (simp add: convertVariationToPercentage_def percented_def)
qed

section \<open>Amounts\<close>

lemma engine_filter:
  assumes "t \<in> set kruizeRecommendationTerms" "e \<in> set kruizeRecommendationEngines"
  shows "engine_obj t e (filterNotifications d) = deleteNotificationObject (engine_obj t e d)"
proof -
  have "term_obj t (deleteNotificationObject d) = term_obj t d" by (simp add: term_obj_def notification_view)
  then show ?thesis
    using assms
    by (simp add: filterNotifications_def on_terms_view notif_term.section_op_axioms on_engines_view
        notif.section_op_axioms notification_view engine_obj_def)
qed

lemma engine_converted:
  assumes "t \<in> set kruizeRecommendationTerms" "e \<in> set kruizeRecommendationEngines"
  shows "engine_obj t e (converted h u k8s d) = deleteNotificationObject (convert_engine u k8s (engine_obj t e d))"
proof -
  have "engine_obj t e (dropBoxPlotsObject d) = engine_obj t e d"
    unfolding dropBoxPlotsObject_def using assms
    by (simp add: on_terms_engine section_op_drop_key) (simp add: engine_obj_def)
  moreover have "engine_obj t e (on_obj ''current'' f m) = engine_obj t e m" for f m
    by (simp add: engine_obj_def term_obj_def sub_on_obj_other)
  ultimately show ?thesis
    unfolding converted_def engine_filter [OF assms] using assms
    by (simp add: on_terms_engine convert_term.section_op_axioms convert_term_view) (simp add: engine_obj_def)
qed

lemma current_converted:
  assumes "s \<in> set sections"
  shows "sub s (sub ''current'' (converted h u k8s d)) = convert_values u k8s (sub s (sub ''current'' d))"
proof -
  have "sub ''current'' (if is_list_handler h then dropBoxPlotsObject d else d) = sub ''current'' d"
    by (simp add: dropBoxPlotsObject_def on_terms_view)
  moreover have "section_op (on_objs sections (convert_values u k8s))"
    by (rule section_op_on_objs [OF unit_values.wf_op_axioms])
  ultimately have "sub ''current'' (converted h u k8s d) = on_objs sections (convert_values u k8s) (sub ''current'' d)"
    by (simp add: converted_def filterNotifications_def on_terms_view notification_view section_op.sub_on_obj)
  then show ?thesis
    using assms unit_values.sub_on_objs [of sections s] by (simp add: sections_def)
qed

lemma sub_injected:
  "sub ''current'' (fst (injected st d)) = sub ''current'' d"
  "sub ''notifications'' (fst (injected st d)) = sub ''notifications'' d"
  "sub ''notifications'' (term_obj t (fst (injected st d))) = sub ''notifications'' (term_obj t d)"
  by (simp_all add: injected_def injectStored_other split: option.split)

lemma engine_percented:
  assumes "t \<in> set kruizeRecommendationTerms" "e \<in> set kruizeRecommendationEngines"
  shows "engine_obj t e (percented ds)
     = on_obj ''variation'' (percent_variation (sub ''current'' (fst ds)) (snd ds)) (engine_obj t e (fst ds))"
  using assms
  by (simp add: percented_def on_terms_engine percent_step on_engines_view section_op_nest section_op_percent_variation)
    (simp add: engine_obj_def)

text \<open>The converted current amount that percentages are taken of; a missing one counts as zero.\<close>

definition current_amount :: "units \<Rightarrow> obj \<Rightarrow> string \<Rightarrow> string \<Rightarrow> f64" where
  "current_amount u d section res =
     (case amount_at section res (sub ''current'' d) of
        Some v \<Rightarrow> if res = ''cpu'' then convertCPUUnit (read_str u ''cpu'') v else convertMemoryUnit (read_str u ''memory'') v
      | None \<Rightarrow> Zero False)"

lemma current_amount_converted:
  "s \<in> set sections \<Longrightarrow> amount_or_zero s ''cpu'' (sub ''current'' (converted h u k8s d)) = current_amount u d s ''cpu''"
  "s \<in> set sections \<Longrightarrow> amount_or_zero s ''memory'' (sub ''current'' (converted h u k8s d)) = current_amount u d s ''memory''"
  by (simp_all add: amount_or_zero_def current_converted convert_values_view current_amount_def amount_at_def
      split: option.split)

definition convert_amount :: "units \<Rightarrow> string \<Rightarrow> f64 \<Rightarrow> f64" where
  "convert_amount u res =
     (if res = ''cpu'' then convertCPUUnit (read_str u ''cpu'') else convertMemoryUnit (read_str u ''memory''))"

lemma amount_at_converted:
  assumes "t \<in> set kruizeRecommendationTerms" "e \<in> set kruizeRecommendationEngines" "s \<in> set sections"
    "b \<in> {''config'', ''variation''}" "res \<in> {''cpu'', ''memory''}"
  shows "amount_at s res (sub b (engine_obj t e (converted h u k8s d)))
     = map_option (convert_amount u res) (amount_at s res (sub b (engine_obj t e d)))"
proof -
  have "b \<noteq> ''notifications''" using assms(4) by auto
  with assms show ?thesis
    by (auto simp: amount_at_def engine_converted notification_view convert_engine_view convert_values_view
        convert_amount_def)
qed

lemma amount_at_injected:
  assumes t: "t \<in> set kruizeRecommendationTerms" and e: "e \<in> set kruizeRecommendationEngines"
  shows "sub ''config'' (engine_obj t e (fst (injected st d))) = sub ''config'' (engine_obj t e d)"
    "sub ''notifications'' (engine_obj t e (fst (injected st d))) = sub ''notifications'' (engine_obj t e d)"
    "sub ''limits'' (sub ''variation'' (engine_obj t e (fst (injected st d)))) = sub ''limits'' (sub ''variation'' (engine_obj t e d))"
  by (simp_all add: injected_def injectStored_view [OF t e] sub_on_obj_nil sub_on_obj_other split: option.split)

section \<open>Properties\<close>

definition all_engines :: "(string \<Rightarrow> string \<Rightarrow> bool) \<Rightarrow> bool" where
  "all_engines P = list_all (\<lambda>t. list_all (P t) kruizeRecommendationEngines) kruizeRecommendationTerms"

lemma all_enginesI:
  "(\<And>t e. t \<in> set kruizeRecommendationTerms \<Longrightarrow> e \<in> set kruizeRecommendationEngines \<Longrightarrow> P t e) \<Longrightarrow> all_engines P"
  by (simp add: all_engines_def list_all_iff)

text \<open>The transformation returns nothing exactly for an undecodable document and panics
  exactly when some term's engines are neither absent, null nor an object; it returns a document for
  every other one, whatever else is missing from it.\<close>

theorem UpdateRecommendationJSON_outcome:
  "UpdateRecommendationJSON h u k8s decoded stored =
     (case decoded of
        None \<Rightarrow> NilMap
      | Some d \<Rightarrow> if term_panics d then ApiPanic else ApiJson (percented (injected stored (converted h u k8s d))))"
  by (cases decoded) (simp_all only: update_eq option.case, simp add: UpdateRecommendationJSON_def)

text \<open>A well-formed document (unique keys, representable numbers) is transformed into a
  well-formed one, whatever the units, the handler and the stored percentages.\<close>

lemma UpdateRecommendationJSON_wf:
  assumes d: "wf_obj d" and p: "pred_option pcts_ok stored"
  shows "case UpdateRecommendationJSON h u k8s (Some d) stored of ApiJson r \<Rightarrow> wf_obj r | _ \<Rightarrow> True"
proof -
  have "section_op (on_obj ''current'' (on_objs sections (convert_values u k8s)))"
    by (rule section_op_nest [OF section_op_on_objs [OF unit_values.wf_op_axioms]])
  then have c: "wf_obj (converted h u k8s d)"
    unfolding converted_def using d
    by (intro wf_filter section_op_wf [OF section_op_on_terms [OF convert_term.wf_op_axioms]]) (simp add: section_op_wf wf_dropPlots)
  have "wf_obj (fst (injected stored (converted h u k8s d)))"
    using p c by (cases stored) (simp_all add: injected_def wf_injectStored)
  then have "wf_obj (percented (injected stored (converted h u k8s d)))"
    unfolding percented_def by (rule section_op_wf [OF section_op_on_terms [OF section_op_wf_op [OF percent_step]]])
  then show ?thesis by (simp add: update_eq)
qed

definition shown_only :: "obj \<Rightarrow> bool" where
  "shown_only m = list_all (\<lambda>kv. fst kv \<in> fst ` set NotificationsToShow) (sub ''notifications'' m)"

lemma shown_only_delete: "shown_only (deleteNotificationObject m)"
  by (auto simp: shown_only_def deleteNotificationObject_def list_all_iff list_ex_iff map_of_eq_None_iff)

lemma shown_only_cong: "sub ''notifications'' m = sub ''notifications'' m' \<Longrightarrow> shown_only m = shown_only m'"
  by (simp add: shown_only_def)

text \<open>C26: A returned document shows only the listed notification codes, at the level of the
  recommendation, of every term and of every engine of a term.\<close>

theorem UpdateRecommendationJSON_notifications:
  "case UpdateRecommendationJSON h u k8s decoded stored of
     ApiJson r \<Rightarrow> shown_only r \<and> all_engines (\<lambda>t e. shown_only (term_obj t r) \<and> shown_only (engine_obj t e r))
   | _ \<Rightarrow> True"
proof (cases decoded)
  case (Some d)
  let ?c = "converted h u k8s d"
  let ?r = "percented (injected stored ?c)"
  have "sub ''notifications'' ?r = sub ''notifications'' ?c"
    by (simp add: percented_def on_terms_view sub_injected)
  moreover have "shown_only ?c"
    unfolding converted_def filterNotifications_def
    by (subst shown_only_cong [OF on_terms_view(3)]) (simp_all add: shown_only_delete)
  ultimately have top: "shown_only ?r" using shown_only_cong by blast
  have "shown_only (term_obj t ?r) \<and> shown_only (engine_obj t e ?r)"
    if t: "t \<in> set kruizeRecommendationTerms" and e: "e \<in> set kruizeRecommendationEngines" for t e
  proof -
    have "sub ''notifications'' (term_obj t ?r) = sub ''notifications'' (term_obj t ?c)"
      using t by (simp add: percented_def on_terms_view percent_step on_engines_view sub_injected)
    moreover have "shown_only (term_obj t (filterNotifications m))" for m
      unfolding filterNotifications_def using t
      by (simp add: on_terms_view notif_term.section_op_axioms shown_only_cong [OF on_engines_view(2)] shown_only_delete)
    moreover have "sub ''notifications'' (engine_obj t e ?r) = sub ''notifications'' (engine_obj t e ?c)"
      by (simp add: engine_percented [OF t e] sub_on_obj_other amount_at_injected [OF t e])
    moreover have "shown_only (engine_obj t e ?c)"
      by (simp add: engine_converted [OF t e] shown_only_delete)
    ultimately show ?thesis using shown_only_cong unfolding converted_def by blast
  qed
  with top Some show ?thesis by (simp add: update_eq all_enginesI)
qed (simp add: UpdateRecommendationJSON_def)

text \<open>C36: In a returned document, the amounts of an engine's configuration are the stored
  document's amounts converted to the requested unit, for cpu and memory, limits and requests, and an
  amount that was missing stays missing.\<close>

theorem UpdateRecommendationJSON_config:
  "case UpdateRecommendationJSON h u k8s (Some d) stored of
     ApiJson r \<Rightarrow> all_engines (\<lambda>t e. list_all (\<lambda>s. list_all (\<lambda>res.
       amount_at s res (sub ''config'' (engine_obj t e r))
         = map_option (convert_amount u res) (amount_at s res (sub ''config'' (engine_obj t e d))))
       [''cpu'', ''memory'']) sections)
   | _ \<Rightarrow> True"
proof -
  let ?r = "percented (injected stored (converted h u k8s d))"
  have "amount_at s res (sub ''config'' (engine_obj t e ?r))
      = map_option (convert_amount u res) (amount_at s res (sub ''config'' (engine_obj t e d)))"
    if "t \<in> set kruizeRecommendationTerms" "e \<in> set kruizeRecommendationEngines" "s \<in> set sections"
      "res \<in> {''cpu'', ''memory''}" for t e s res
    using that amount_at_converted [of t e s "''config''" res]
    by (simp add: engine_percented sub_on_obj_other amount_at_injected)
  then show ?thesis by (simp add: update_eq all_enginesI list_all_iff)
qed

definition stored_used :: "StoredVariationPcts option \<Rightarrow> bool" where
  "stored_used stored = (case stored of Some p \<Rightarrow> HasValues p | None \<Rightarrow> False)"

lemma injected_unused: "\<not> stored_used stored \<Longrightarrow> injected stored d = (d, False)"
  by (auto simp: injected_def stored_used_def split: option.splits)

lemma amount_at_percented:
  assumes "t \<in> set kruizeRecommendationTerms" "e \<in> set kruizeRecommendationEngines"
    and "res \<in> {''cpu'', ''memory''}" and s: "s = ''limits'' \<or> s = ''requests'' \<and> \<not> stored_used stored"
  shows "amount_at s res (sub ''variation'' (engine_obj t e (percented (injected stored (converted h u k8s d)))))
    = map_option (\<lambda>v. percent_of (current_amount u d s res) (convert_amount u res v))
        (amount_at s res (sub ''variation'' (engine_obj t e d)))"
proof -
  have m: "s \<in> set sections" using s by (auto simp: sections_def)
  have "sub s (sub ''variation'' (engine_obj t e (percented (injected stored (converted h u k8s d)))))
      = percent_values (current_amount u d s ''cpu'') (current_amount u d s ''memory'')
          (sub s (sub ''variation'' (engine_obj t e (converted h u k8s d))))"
    using s
  proof
    assume "s = ''limits''"
    then show ?thesis
      using m by (simp add: engine_percented assms percent_variation.sub_on_obj percent_variation_view sub_injected
          current_amount_converted amount_at_injected [OF assms(1,2)])
  next
    assume r: "s = ''requests'' \<and> \<not> stored_used stored"
    then show ?thesis
      using m by (simp add: engine_percented assms percent_variation.sub_on_obj percent_variation_view injected_unused
          current_amount_converted)
  qed
  with amount_at_converted [OF assms(1,2) m _ assms(3), of "''variation''" h u k8s d] assms(3) show ?thesis
    by (auto simp: amount_at_def percent_values_view option.map_comp o_def)
qed

text \<open>C10: A variation amount is shown as the percentage of the current amount of the same
  section and resource, both converted to the requested unit and the result cut to three decimals.
  That holds for limits always, and for requests unless stored percentages replace them.\<close>

theorem UpdateRecommendationJSON_percentages:
  "case UpdateRecommendationJSON h u k8s (Some d) stored of
     ApiJson r \<Rightarrow> all_engines (\<lambda>t e. list_all (\<lambda>s. list_all (\<lambda>res.
       amount_at s res (sub ''variation'' (engine_obj t e r))
         = map_option (\<lambda>v. percent_of (current_amount u d s res) (convert_amount u res v))
             (amount_at s res (sub ''variation'' (engine_obj t e d))))
       [''cpu'', ''memory'']) (if stored_used stored then [''limits''] else sections))
   | _ \<Rightarrow> True"
  using amount_at_percented by (simp add: update_eq all_enginesI sections_def)

text \<open>C4: In cores and MiB, the units of the stored columns, the two ways of showing a request variation agree.  Take a document that
  does not panic and whose request variations and current requests are present, that the poller read into \<open>rd\<close> and stored with
  \<open>ExtractRecommendationColumnValues\<close>, the current requests being finite and within their columns' limits.  Then the document shown
  from the stored columns has the amounts of the document computed from the JSON, clamped to NUMERIC(10,4).  In other units
  (bytes, which the list endpoints take by default, GiB, millicores) the computed percentages are of differently rounded amounts, and
  nothing is said.\<close>

theorem stored_percentages_agree:
  assumes ok: "\<not> term_panics d"
    and u: "read_str u ''cpu'' = ''cores''" "read_str u ''memory'' = ''MiB''"
    and te: "t \<in> set kruizeRecommendationTerms" "e \<in> set kruizeRecommendationEngines"
    and typed: "term_named t (rd_terms rd) = Some tm" "rt_engines tm = Some E" "engine_named e E = Some eo"
    and var: "amount_at ''requests'' ''cpu'' (sub ''variation'' (engine_obj t e d)) = Some (variation_cpu eo)"
      "amount_at ''requests'' ''memory'' (sub ''variation'' (engine_obj t e d)) = Some (variation_mem eo)"
    and cur: "amount_at ''requests'' ''cpu'' (sub ''current'' d) = Some cpu"
      "amount_at ''requests'' ''memory'' (sub ''current'' d) = Some mem"
      "rd_current rd = c" "cpu = rv_amount (rc_cpu (co_requests c))" "mem = rv_amount (rc_memory (co_requests c))"
    and range: "is_finite cpu" "\<bar>f64_val cpu\<bar> \<le> numeric10_4_max" "is_finite mem" "\<bar>f64_val mem\<bar> \<le> numeric20_4_max"
  shows "\<exists>r r'.
    UpdateRecommendationJSON h u k8s (Some d) (Some (cv_variations (ExtractRecommendationColumnValues rd))) = ApiJson r
    \<and> UpdateRecommendationJSON h u k8s (Some d) None = ApiJson r'
    \<and> list_all (\<lambda>res. amount_at ''requests'' res (sub ''variation'' (engine_obj t e r))
         = map_option ClampToNumeric10_4Range (amount_at ''requests'' res (sub ''variation'' (engine_obj t e r'))))
        [''cpu'', ''memory'']"
proof -
  define p where "p = cv_variations (ExtractRecommendationColumnValues rd)"
  define k where "k = converted h u k8s d"
  have cl: "ClampToNumeric10_4Range cpu = cpu" "ClampToNumeric20_4Range mem = mem"
    using range by (simp_all add: clamp10.inside clamp20.inside)
  have lk: "Lookup p t e = (Some (VariationPercentOfRequestCPU (variation_cpu eo) cpu),
      Some (VariationPercentOfRequestMemoryBytesMiB (variation_mem eo) mem))"
    by (simp add: p_def lookup_extracted variation_spec_def typed cl cur(3-5) [symmetric] del: cur(4,5))
       (simp add: cur cl [unfolded cur(4,5)])
  have hv: "HasValues p"
  proof (rule ccontr)
    assume "\<not> HasValues p"
    then have "Lookup p t e = (None, None)"
      by (simp add: HasValues_def Lookup_def StoredVariationSpecs_def)
    with lk show False by simp
  qed
  have "num_at ''amount'' (sub ''cpu'' (sub ''requests'' (sub ''variation'' (engine_obj t e k))))
      = Some (TruncateToThreeDecimalPlaces (variation_cpu eo))"
    "num_at ''amount'' (sub ''memory'' (sub ''requests'' (sub ''variation'' (engine_obj t e k))))
      = Some (TruncateMemoryBytesToMiBTwoDecimals (variation_mem eo))"
    using amount_at_converted [OF te, of "''requests''" "''variation''" _ h u k8s d] var
    by (simp_all add: amount_at_def k_def sections_def convert_amount_def u convertCPUUnit_def convertMemoryUnit_def)
  note inj = inject_requests_view [OF this(1)] inject_requests_memory [OF this(2)]
  have s: "amount_at ''requests'' ''cpu'' (sub ''variation'' (engine_obj t e (percented (injected (Some p) k))))
      = Some (VariationPercentOfRequestCPU (variation_cpu eo) cpu)"
    "amount_at ''requests'' ''memory'' (sub ''variation'' (engine_obj t e (percented (injected (Some p) k))))
      = Some (VariationPercentOfRequestMemoryBytesMiB (variation_mem eo) mem)"
    by (simp_all add: amount_at_def engine_percented te percent_variation.sub_on_obj percent_variation_view
        injected_def hv injectStored_view sub_on_obj_nil inj lk)
  have n: "amount_at ''requests'' ''cpu'' (sub ''variation'' (engine_obj t e (percented (injected None k))))
      = Some (percent_of (TruncateToThreeDecimalPlaces cpu) (TruncateToThreeDecimalPlaces (variation_cpu eo)))"
    "amount_at ''requests'' ''memory'' (sub ''variation'' (engine_obj t e (percented (injected None k))))
      = Some (percent_of (TruncateMemoryBytesToMiBTwoDecimals mem) (TruncateMemoryBytesToMiBTwoDecimals (variation_mem eo)))"
    using amount_at_percented [OF te, of _ "''requests''" None h u k8s d] var cur(1,2)
    by (simp_all add: k_def stored_used_def current_amount_def convert_amount_def u convertCPUUnit_def
        convertMemoryUnit_def)
  show ?thesis
    using ok s n unfolding p_def [symmetric]
    by (simp add: update_eq k_def VariationPercentOfRequestCPU_def VariationPercentOfRequestMemoryBytesMiB_def
        percent_of_def Let_def)
qed

section \<open>A concrete document\<close>

text \<open>One CPU and one GiB are requested; the cost engine of the short term asks for half a CPU more and
  256 MiB less.\<close>

definition sample_amounts :: "rat \<Rightarrow> rat \<Rightarrow> obj" where
  "sample_amounts c m =
     [(''requests'', JObj [(''cpu'', JObj [(''amount'', JNum (f64_const c)), (''format'', JStr ''cores'')]),
        (''memory'', JObj [(''amount'', JNum (f64_const m)), (''format'', JStr ''bytes'')])])]"

definition sample_doc :: obj where
  "sample_doc =
     [(''current'', JObj (sample_amounts 1 1073741824)),
      (''notifications'', JObj [(''323004'', JObj []), (''111000'', JObj [])]),
      (''recommendation_terms'', JObj [(''short_term'', JObj [(''duration_in_hours'', JNum (f64_const (241 / 10))),
        (''recommendation_engines'', JObj [(''cost'', JObj [(''variation'', JObj (sample_amounts (1 / 2) (- 268435456)))])])])])]"

definition sample_config :: "rat \<Rightarrow> rat \<Rightarrow> ConfigObject" where
  "sample_config c m =
     \<lparr>co_limits = zero_rconfig, co_requests =
        \<lparr>rc_cpu = \<lparr>rv_amount = f64_const c, rv_format = ''cores''\<rparr>,
         rc_memory = \<lparr>rv_amount = f64_const m, rv_format = ''bytes''\<rparr>\<rparr>\<rparr>"

definition sample_engine :: RecommendationEngineObject where
  "sample_engine = \<lparr>eo_config = zero_config, eo_variation = sample_config (1 / 2) (- 268435456), eo_notifications = []\<rparr>"

definition sample_engines :: RecommendationEngines where
  "sample_engines = \<lparr>re_cost = sample_engine, re_performance = zero_engine\<rparr>"

definition sample_data :: RecommendationData where
  "sample_data =
     \<lparr>rd_notifications = [], rd_monitoring_end_time = go_zero_time, rd_current = sample_config 1 1073741824,
      rd_terms = \<lparr>tm_short = zero_term\<lparr>rt_engines := Some sample_engines\<rparr>, tm_medium = zero_term, tm_long = zero_term\<rparr>\<rparr>"

definition default_units :: units where
  "default_units = [(''cpu'', ''cores''), (''memory'', ''MiB'')]"

lemma sample_ok: "\<not> term_panics sample_doc"
  by code_simp

theorem stored_percentages_agree_witness:
  "\<exists>r r'.
    UpdateRecommendationJSON ''recommendationset'' default_units False (Some sample_doc)
      (Some (cv_variations (ExtractRecommendationColumnValues sample_data))) = ApiJson r
    \<and> UpdateRecommendationJSON ''recommendationset'' default_units False (Some sample_doc) None = ApiJson r'
    \<and> list_all (\<lambda>res. amount_at ''requests'' res (sub ''variation'' (engine_obj ''short_term'' ''cost'' r))
         = map_option ClampToNumeric10_4Range
             (amount_at ''requests'' res (sub ''variation'' (engine_obj ''short_term'' ''cost'' r'))))
        [''cpu'', ''memory'']"
proof (rule stored_percentages_agree [where tm = "zero_term\<lparr>rt_engines := Some sample_engines\<rparr>" and E = sample_engines
      and eo = sample_engine and cpu = "f64_const 1" and mem = "f64_const 1073741824"
      and c = "sample_config 1 1073741824"])
  show "\<not> term_panics sample_doc" by (rule sample_ok)
  show "amount_at ''requests'' ''cpu'' (sub ''variation'' (engine_obj ''short_term'' ''cost'' sample_doc)) = Some (variation_cpu sample_engine)"
    "amount_at ''requests'' ''memory'' (sub ''variation'' (engine_obj ''short_term'' ''cost'' sample_doc)) = Some (variation_mem sample_engine)"
    "amount_at ''requests'' ''cpu'' (sub ''current'' sample_doc) = Some (f64_const 1)"
    "amount_at ''requests'' ''memory'' (sub ''current'' sample_doc) = Some (f64_const 1073741824)"
    by (simp_all add: amount_at_def engine_obj_def term_obj_def sample_doc_def sample_amounts_def sub_def jget_def
        num_at_def sample_engine_def sample_config_def)
  show "is_finite (f64_const 1)" "\<bar>f64_val (f64_const 1)\<bar> \<le> numeric10_4_max"
    "is_finite (f64_const 1073741824)" "\<bar>f64_val (f64_const 1073741824)\<bar> \<le> numeric20_4_max"
    by code_simp+
qed (simp_all add: default_units_def read_str_def kruizeRecommendationTerms_def kruizeRecommendationEngines_def
    sample_data_def term_named_def engine_named_def sample_engines_def sample_config_def)

end
