(* ===== verification/ListOptions.thy ===== *)
theory ListOptions
  imports Prelude
begin

text \<open>
  Request parameters: \<open>internal/api/listoptions/list_options.go\<close> and \<open>ParseUnitParams\<close> of
  \<open>internal/api/utils.go\<close>.  The query of a request is Go's \<open>url.Values\<close>, a map from a name to the list
  of its values; \<open>qget\<close> is echo's \<open>QueryParam\<close> (the first value, or the empty string).
\<close>

type_synonym query = "(string \<times> string list) list"

definition qvals :: "query \<Rightarrow> string \<Rightarrow> string list" where
  "qvals q k = (case map_of q k of Some vs \<Rightarrow> vs | None \<Rightarrow> [])"

definition qget :: "query \<Rightarrow> string \<Rightarrow> string" where
  "qget q k = (case qvals q k of v # _ \<Rightarrow> v | [] \<Rightarrow> [])"

section \<open>List options\<close>

definition DefaultLimit :: int where "DefaultLimit = 10"
definition DefaultOffset :: int where "DefaultOffset = 0"

definition DefaultContainerRecsDBColumn :: string where
  "DefaultContainerRecsDBColumn = ''clusters.last_reported_at''"

definition DefaultNsRecsDBColumn :: string where
  "DefaultNsRecsDBColumn = ''clusters.last_reported_at''"

record ListOptions =
  Limit :: int
  Offset :: int
  OrderBy :: string
  OrderHow :: string
  Format :: string

definition SQLOrderByFragment :: "string \<Rightarrow> string \<Rightarrow> string" where
  "SQLOrderByFragment orderByColumnSQL orderHow =
     (let s = orderByColumnSQL @ '' '' @ orderHow
      in if orderHow = ''desc'' then s @ '' NULLS LAST'' else s)"

type_synonym OrderByMap = "(string \<times> string) list"

text \<open>The sort keys and columns both maps share, after their own table's name.\<close>

definition variation_order_keys :: "(string \<times> string) list" where
  "variation_order_keys =
     [(''cpu_request_current'', ''cpu_request_current''),
      (''memory_request_current'', ''memory_request_current''),
      (''cpu_variation_short_cost'', ''cpu_variation_short_cost_pct''),
      (''cpu_variation_short_performance'', ''cpu_variation_short_performance_pct''),
      (''cpu_variation_medium_cost'', ''cpu_variation_medium_cost_pct''),
      (''cpu_variation_medium_performance'', ''cpu_variation_medium_performance_pct''),
      (''cpu_variation_long_cost'', ''cpu_variation_long_cost_pct''),
      (''cpu_variation_long_performance'', ''cpu_variation_long_performance_pct''),
      (''memory_variation_short_cost'', ''memory_variation_short_cost_pct''),
      (''memory_variation_short_performance'', ''memory_variation_short_performance_pct''),
      (''memory_variation_medium_cost'', ''memory_variation_medium_cost_pct''),
      (''memory_variation_medium_performance'', ''memory_variation_medium_performance_pct''),
      (''memory_variation_long_cost'', ''memory_variation_long_cost_pct''),
      (''memory_variation_long_performance'', ''memory_variation_long_performance_pct'')]"

definition ContainerAllowedOrderBy :: OrderByMap where
  "ContainerAllowedOrderBy =
     [(''cluster'', ''clusters.cluster_alias''),
      (''workload_type'', ''workloads.workload_type''),
      (''workload'', ''workloads.workload_name''),
      (''project'', ''workloads.namespace''),
      (''container'', ''recommendation_sets.container_name''),
      (''last_reported'', ''clusters.last_reported_at'')]
     @ map_vals (\<lambda>c. ''recommendation_sets.'' @ c) variation_order_keys"

definition NsAllowedOrderBy :: OrderByMap where
  "NsAllowedOrderBy =
     [(''cluster'', ''clusters.cluster_alias''),
      (''project'', ''namespace_recommendation_sets.namespace_name''),
      (''last_reported'', ''clusters.last_reported_at'')]
     @ map_vals (\<lambda>c. ''namespace_recommendation_sets.'' @ c) variation_order_keys"

definition parseInt :: "string \<Rightarrow> int \<Rightarrow> int" where
  "parseInt val def = (if val = [] then def else case atoi val of Some i \<Rightarrow> i | None \<Rightarrow> def)"

datatype list_error =
    LimitTooSmall
  | InvalidOrderHow string
  | InvalidOrderBy string
  | InvalidFormat string

definition resolveResponseFormat :: "string \<Rightarrow> string \<Rightarrow> list_error + string" where
  "resolveResponseFormat acceptHeaderVal formatQueryParamVal =
     (if acceptHeaderVal = [] \<and> formatQueryParamVal = [] then Inr ''json''
      else if acceptHeaderVal = ''text/csv'' then Inr ''csv''
      else if acceptHeaderVal = ''application/json'' then Inr ''json''
      else if formatQueryParamVal = [] \<or> formatQueryParamVal = ''json'' then Inr ''json''
      else if formatQueryParamVal = ''csv'' then Inr ''csv''
      else Inl (InvalidFormat formatQueryParamVal))"

text \<open>\<open>ListAPIOptions\<close>; \<open>uni\<close> is the Unicode part of \<open>strings.ToLower\<close>, \<open>accept\<close> the Accept header.\<close>

definition ListAPIOptions ::
  "(string \<Rightarrow> string) \<Rightarrow> string \<Rightarrow> query \<Rightarrow> string \<Rightarrow> OrderByMap \<Rightarrow> list_error + ListOptions" where
  "ListAPIOptions uni accept q defaultDBColumn allowedOrderBy =
     (let limit = parseInt (qget q ''limit'') DefaultLimit;
          offset = parseInt (qget q ''offset'') DefaultOffset;
          orderBy = qget q ''order_by'';
          orderHow = to_lower uni (qget q ''order_how'');
          formatParam = to_lower uni (qget q ''format'')
      in case resolveResponseFormat accept formatParam of
           Inl e \<Rightarrow> Inl e
         | Inr format \<Rightarrow>
             (let offset = (if offset < 0 then DefaultOffset else offset)
              in if limit < - 1 then Inl LimitTooSmall
                 else let orderHow = (if orderHow = [] then ''desc'' else orderHow)
                      in if orderHow \<noteq> ''asc'' \<and> orderHow \<noteq> ''desc'' then Inl (InvalidOrderHow orderHow)
                         else case (if orderBy \<noteq> [] then map_of allowedOrderBy orderBy else Some defaultDBColumn) of
                                None \<Rightarrow> Inl (InvalidOrderBy orderBy)
                              | Some col \<Rightarrow>
                                  Inr \<lparr>Limit = limit, Offset = offset, OrderBy = col, OrderHow = orderHow, Format = format\<rparr>))"

section \<open>Units\<close>

datatype unit_error = InvalidCpuUnit | InvalidMemoryUnit | InvalidTrueUnits

text \<open>\<open>ParseUnitParams\<close>: the chosen units and whether to write them the Kubernetes way.\<close>

definition ParseUnitParams :: "query \<Rightarrow> string \<Rightarrow> string \<Rightarrow> unit_error + (string \<times> string) list \<times> bool" where
  "ParseUnitParams q defaultCPU defaultMemory =
     (let cpuUnitParam = qget q ''cpu-unit'';
          memoryUnitParam = qget q ''memory-unit'';
          trueUnitsStr = qget q ''true-units''
      in if cpuUnitParam \<noteq> [] \<and> cpuUnitParam \<notin> {''millicores'', ''cores''} then Inl InvalidCpuUnit
         else let cpu = (if cpuUnitParam \<noteq> [] then cpuUnitParam else defaultCPU)
         in if memoryUnitParam \<noteq> [] \<and> memoryUnitParam \<notin> {''bytes'', ''MiB'', ''GiB''} then Inl InvalidMemoryUnit
         else let memory = (if memoryUnitParam \<noteq> [] then memoryUnitParam else defaultMemory)
         in if trueUnitsStr = [] then Inr ([(''cpu'', cpu), (''memory'', memory)], True)
            else case parse_bool trueUnitsStr of
                   None \<Rightarrow> Inl InvalidTrueUnits
                 | Some b \<Rightarrow> Inr ([(''cpu'', cpu), (''memory'', memory)], \<not> b))"

section \<open>Properties\<close>

lemma atoi_range: "atoi s = Some i \<Longrightarrow> int_min \<le> i \<and> i \<le> int_max"
  by (simp add: atoi_def Let_def split: list.splits if_splits)

lemma resolve_Inr: "resolveResponseFormat a f = Inr r \<Longrightarrow> r \<in> {''json'', ''csv''}"
  unfolding resolveResponseFormat_def by (simp only: sum.inject sum.simps split: if_split_asm) simp_all

lemma ListAPIOptions_Inr:
  assumes "ListAPIOptions uni accept q def allowed = Inr o1"
  shows "OrderBy o1 = def \<or> (\<exists>k. map_of allowed k = Some (OrderBy o1))" "OrderHow o1 \<in> {''asc'', ''desc''}"
    "0 \<le> Offset o1" "- 1 \<le> Limit o1" "Format o1 \<in> {''json'', ''csv''}"
proof -
  define how where "how = to_lower uni (qget q ''order_how'')"
  define by1 where "by1 = qget q ''order_by''"
  define l where "l = parseInt (qget q ''limit'') DefaultLimit"
  define off where "off = parseInt (qget q ''offset'') DefaultOffset"
  from assms obtain fmt where r: "resolveResponseFormat accept (to_lower uni (qget q ''format'')) = Inr fmt"
    unfolding ListAPIOptions_def Let_def by (auto split: sum.splits)
  define h where "h = (if how = [] then ''desc'' else how)"
  from assms have l: "\<not> l < - 1" and h: "\<not> (h \<noteq> ''asc'' \<and> h \<noteq> ''desc'')"
    unfolding ListAPIOptions_def Let_def how_def [symmetric] l_def [symmetric] h_def [symmetric] r sum.case
    by (auto split: if_split_asm)
  define c where "c = (if by1 \<noteq> [] then map_of allowed by1 else Some def)"
  from assms have "(case c of None \<Rightarrow> Inl (InvalidOrderBy by1) | Some col \<Rightarrow>
      Inr \<lparr>Limit = l, Offset = (if off < 0 then DefaultOffset else off), OrderBy = col, OrderHow = h, Format = fmt\<rparr>) = Inr o1"
    unfolding ListAPIOptions_def Let_def how_def [symmetric] l_def [symmetric] h_def [symmetric] off_def [symmetric]
      by1_def [symmetric] r sum.case if_not_P [OF l] if_not_P [OF h] c_def .
  then obtain col where o1: "c = Some col"
    "o1 = \<lparr>Limit = l, Offset = (if off < 0 then DefaultOffset else off), OrderBy = col, OrderHow = h, Format = fmt\<rparr>"
    by (cases c) auto
  show "OrderBy o1 = def \<or> (\<exists>k. map_of allowed k = Some (OrderBy o1))"
    using o1(1) by (cases "by1 = []") (auto simp: o1(2) c_def)
  show "OrderHow o1 \<in> {''asc'', ''desc''}" "0 \<le> Offset o1" "- 1 \<le> Limit o1" "Format o1 \<in> {''json'', ''csv''}"
    using h l resolve_Inr [OF r] by (auto simp: o1(2) DefaultOffset_def)
qed


text \<open>A limit and an offset sent as the decimal text of a 64-bit \<open>int\<close> are taken as they
  are (a negative offset as 0), and options are refused exactly for the stated reasons.\<close>

theorem ListAPIOptions_accepts:
  assumes "qget q ''limit'' = itoa l" "qget q ''offset'' = itoa off" "- 1 \<le> l" "l \<le> int_max" "int_min \<le> off" "off \<le> int_max"
    and "qget q ''order_how'' = []" "qget q ''format'' = []" "qget q ''order_by'' = k" "map_of allowed k = Some col" "k \<noteq> []"
  shows "ListAPIOptions uni accept q def allowed =
    Inr \<lparr>Limit = l, Offset = max 0 off, OrderBy = col, OrderHow = ''desc'',
      Format = (if accept = ''text/csv'' then ''csv'' else ''json'')\<rparr>"
proof -
  have "int_min \<le> l" using assms(3) by (simp add: int_min_def)
  moreover have "itoa i \<noteq> []" for i by (simp add: itoa_def)
  ultimately show ?thesis
    using assms by (simp add: ListAPIOptions_def Let_def parseInt_def atoi_itoa to_lower_def is_ascii_def
        resolveResponseFormat_def DefaultOffset_def)
qed

theorem ListAPIOptions_accepts_witness:
  "ListAPIOptions (\<lambda>s. s) [] [(''limit'', [itoa 25]), (''offset'', [itoa (-3)]), (''order_by'', [''cluster''])] [] ContainerAllowedOrderBy =
    Inr \<lparr>Limit = 25, Offset = max 0 (-3), OrderBy = ''clusters.cluster_alias'', OrderHow = ''desc'', Format = ''json''\<rparr>"
  using ListAPIOptions_accepts [of "[(''limit'', [itoa 25]), (''offset'', [itoa (-3)]), (''order_by'', [''cluster''])]"
      25 "-3" "''cluster''" ContainerAllowedOrderBy "''clusters.cluster_alias''" "\<lambda>s. s" "[]" "[]"]
  by (simp add: qget_def qvals_def int_min_def int_max_def ContainerAllowedOrderBy_def)

text \<open>Unit parameters are accepted exactly when each is absent or one of its listed values; the
  accepted ones give the units asked for or the defaults.\<close>

theorem ParseUnitParams_spec:
  "ParseUnitParams q dc dm =
     (let c = qget q ''cpu-unit''; m = qget q ''memory-unit''; t = qget q ''true-units''
      in if c \<in> {[], ''millicores'', ''cores''} \<and> m \<in> {[], ''bytes'', ''MiB'', ''GiB''} \<and> (t = [] \<or> parse_bool t \<noteq> None)
         then Inr ([(''cpu'', if c = [] then dc else c), (''memory'', if m = [] then dm else m)], parse_bool t \<noteq> Some True)
         else Inl (if c \<notin> {[], ''millicores'', ''cores''} then InvalidCpuUnit
                   else if m \<notin> {[], ''bytes'', ''MiB'', ''GiB''} then InvalidMemoryUnit else InvalidTrueUnits))"
proof -
  have "parse_bool [] = None" by (simp add: parse_bool_def)
  then show ?thesis by (auto simp: ParseUnitParams_def Let_def split: option.split)
qed

end
