(* ===== verification/Filters.thy ===== *)
theory Filters
  imports ListOptions GoTimeText
begin

text \<open>
  The filters of the list endpoints (\<open>internal/api/utils.go\<close>, \<open>common.go\<close>): \<open>applyParamFilter\<close> turns the
  \<open>param\<close>, \<open>filter[exact:param]\<close> and \<open>exclude[param]\<close> values of a request into SQL clauses with their
  arguments, and \<open>MapQueryParameters\<close> / \<open>MapNamespaceQueryParameters\<close> collect them with the time range.

  A clause map (\<open>map[string]any\<close>) is an association list from the clause text to its arguments, written
  with \<open>AList.update\<close>; \<open>maps.Copy\<close> is a fold of updates.  \<open>uuid.Parse\<close> succeeding is the parameter
  \<open>uuid_ok\<close>, and the configured \<open>MaxCountPerQueryParam\<close> is \<open>maxCount\<close>.  The bytes of a value that are
  not ASCII are outside every range of \<open>isCharSafeRFC1123\<close>, as the runes they encode are.
\<close>

section \<open>Errors and modes\<close>

datatype param_error =
    EmptyValue string
  | TooLong string nat
  | InvalidCharacter string
  | UnknownClusterMode string
  | UnknownMode string
  | ExcludeExactShared string
  | ExcludeIncludeShared string
  | TooManyParameters string int
  | InvalidWorkloadType string
  | InvalidStartDate
  | InvalidEndDate

definition FilterModeInclude :: string where "FilterModeInclude = ''include''"
definition FilterModeExact :: string where "FilterModeExact = ''exact''"
definition FilterModeExclude :: string where "FilterModeExclude = ''exclude''"

record mode_clause =
  Suffix :: string
  Wrap :: bool
  Join :: string

text \<open>\<open>FilterModeClause[mode]\<close>; an unknown mode reads as the zero struct.\<close>

definition FilterModeClause :: "string \<Rightarrow> mode_clause" where
  "FilterModeClause mode =
     (if mode = FilterModeInclude then \<lparr>Suffix = '' ILIKE ?'', Wrap = True, Join = '' OR ''\<rparr>
      else if mode = FilterModeExact then \<lparr>Suffix = '' = ?'', Wrap = False, Join = '' OR ''\<rparr>
      else if mode = FilterModeExclude then \<lparr>Suffix = '' != ?'', Wrap = False, Join = '' AND ''\<rparr>
      else \<lparr>Suffix = [], Wrap = False, Join = []\<rparr>)"

definition NamespaceMaxLen :: nat where "NamespaceMaxLen = 63"
definition ClusterMaxLen :: nat where "ClusterMaxLen = 253"

definition SkipSanitizationForContainer :: bool where "SkipSanitizationForContainer = True"
definition SkipSanitizationForNamespace :: bool where "SkipSanitizationForNamespace = True"

definition validWorkloadTypes :: "string list" where
  "validWorkloadTypes =
     [''daemonset'', ''deployment'', ''deploymentconfig'', ''replicaset'', ''replicationcontroller'', ''statefulset'']"

fun validateWorkloadTypeValues :: "string list \<Rightarrow> param_error option" where
  "validateWorkloadTypeValues [] = None"
| "validateWorkloadTypeValues (v # vs) =
     (if \<not> List.member validWorkloadTypes v then Some (InvalidWorkloadType v) else validateWorkloadTypeValues vs)"

section \<open>Values\<close>

definition isCharSafeRFC1123 :: "char \<Rightarrow> bool \<Rightarrow> bool" where
  "isCharSafeRFC1123 c allowDot =
     (let n = (of_char c :: nat)
      in 97 \<le> n \<and> n \<le> 122 \<or> 65 \<le> n \<and> n \<le> 90 \<or> 48 \<le> n \<and> n \<le> 57
         \<or> c = CHR ''-'' \<or> c = CHR ''_'' \<or> allowDot \<and> c = CHR ''.'')"

definition sanitizeParamValue :: "string \<Rightarrow> string \<Rightarrow> nat \<Rightarrow> bool \<Rightarrow> bool \<Rightarrow> param_error + string" where
  "sanitizeParamValue paramName s paramMaxLen allowDot skipSanitize =
     (if skipSanitize then Inr s
      else if s = [] then Inl (EmptyValue paramName)
      else if paramMaxLen < length s then Inl (TooLong paramName paramMaxLen)
      else if list_ex (\<lambda>c. \<not> isCharSafeRFC1123 c allowDot) s then Inl (InvalidCharacter paramName)
      else Inr s)"

definition wrap_like :: "bool \<Rightarrow> string \<Rightarrow> string" where
  "wrap_like w s = (if w then ''%'' @ s @ ''%'' else s)"

definition parseClusterParams ::
  "(string \<Rightarrow> bool) \<Rightarrow> string \<Rightarrow> string \<Rightarrow> param_error + string list \<times> string list" where
  "parseClusterParams uuid_ok value mode =
     (if value = [] then Inr ([], [])
      else let modeClause = FilterModeClause mode
      in if Suffix modeClause = [] then Inl (UnknownClusterMode mode)
      else if uuid_ok value
        then Inr ([''clusters.cluster_uuid'' @
                    (if mode = FilterModeInclude then Suffix (FilterModeClause FilterModeExact) else Suffix modeClause)],
                  [value])
      else Inr ([''clusters.cluster_alias'' @ Suffix modeClause], [wrap_like (Wrap modeClause) value]))"

section \<open>Clauses\<close>

text \<open>
  The arguments of a clause: a time, one string per placeholder, or a slice that expands inside a
  single \<open>IN (?)\<close>.
\<close>

datatype qarg = QTime gotime | QStrings "string list" | QSlice "string list"

type_synonym clauses = "(string \<times> qarg) list"

text \<open>\<open>maps.Copy(dst, src)\<close>\<close>

definition maps_copy :: "('k \<times> 'v) list \<Rightarrow> ('k \<times> 'v) list \<Rightarrow> ('k \<times> 'v) list" where
  "maps_copy dst src = fold (\<lambda>(k, v). AList.update k v) src dst"

text \<open>What the command line of \<open>buildModeClause\<close> fixes for one parameter.\<close>

record filter_param =
  fp_param :: string
  fp_column :: string
  fp_maxLen :: nat
  fp_allowDot :: bool
  fp_skip :: bool

text \<open>The clause texts and arguments of one value.\<close>

definition value_clause ::
  "(string \<Rightarrow> bool) \<Rightarrow> filter_param \<Rightarrow> string \<Rightarrow> string \<Rightarrow> param_error + string list \<times> string list" where
  "value_clause uuid_ok fp mode val =
     (if val = [] then Inr ([], [])
      else if fp_param fp = ''cluster'' then parseClusterParams uuid_ok val mode
      else case sanitizeParamValue (fp_param fp) val (fp_maxLen fp) (fp_allowDot fp) (fp_skip fp) of
        Inl e \<Rightarrow> Inl e
      | Inr s \<Rightarrow> Inr ([fp_column fp @ Suffix (FilterModeClause mode)], [wrap_like (Wrap (FilterModeClause mode)) s]))"

fun collect_values ::
  "(string \<Rightarrow> bool) \<Rightarrow> filter_param \<Rightarrow> string \<Rightarrow> string list \<Rightarrow> param_error + string list \<times> string list" where
  "collect_values uuid_ok fp mode [] = Inr ([], [])"
| "collect_values uuid_ok fp mode (v # vs) =
     (case value_clause uuid_ok fp mode v of
        Inl e \<Rightarrow> Inl e
      | Inr (cs, as) \<Rightarrow>
          (case collect_values uuid_ok fp mode vs of
             Inl e \<Rightarrow> Inl e
           | Inr (cs', as') \<Rightarrow> Inr (cs @ cs', as @ as')))"

text \<open>\<open>buildModeClause\<close>; \<open>None\<close> is the nil map.\<close>

definition buildModeClause ::
  "(string \<Rightarrow> bool) \<Rightarrow> filter_param \<Rightarrow> string \<Rightarrow> string list \<Rightarrow> param_error + clauses option" where
  "buildModeClause uuid_ok fp mode vals =
     (if vals = [] then Inr None
      else if Suffix (FilterModeClause mode) = [] then Inl (UnknownMode mode)
      else case collect_values uuid_ok fp mode vals of
        Inl e \<Rightarrow> Inl e
      | Inr (allSQLClauses, allParamVals) \<Rightarrow>
          if allSQLClauses = [] then Inr None
          else Inr (Some [(join (Join (FilterModeClause mode)) allSQLClauses, QStrings allParamVals)]))"

text \<open>One \<open>if len(..) > 0\<close> block of \<open>buildSQLClauseWithFilterType\<close>.\<close>

definition add_mode ::
  "(string \<Rightarrow> bool) \<Rightarrow> filter_param \<Rightarrow> string \<Rightarrow> string list \<Rightarrow> clauses \<Rightarrow> param_error + clauses" where
  "add_mode uuid_ok fp mode vals clauseMap =
     (if vals = [] then Inr clauseMap
      else case buildModeClause uuid_ok fp mode vals of
        Inl e \<Rightarrow> Inl e
      | Inr None \<Rightarrow> Inr clauseMap
      | Inr (Some clause) \<Rightarrow> Inr (maps_copy clauseMap clause))"

fun exclude_conflict :: "string \<Rightarrow> string list \<Rightarrow> string list \<Rightarrow> string list \<Rightarrow> param_error option" where
  "exclude_conflict p includeVals exactVals [] = None"
| "exclude_conflict p includeVals exactVals (ev # evs) =
     (if List.member exactVals ev then Some (ExcludeExactShared p)
      else if List.member includeVals ev then Some (ExcludeIncludeShared p)
      else exclude_conflict p includeVals exactVals evs)"

definition buildSQLClauseWithFilterType ::
  "(string \<Rightarrow> bool) \<Rightarrow> filter_param \<Rightarrow> string list \<Rightarrow> string list \<Rightarrow> string list \<Rightarrow> param_error + clauses option" where
  "buildSQLClauseWithFilterType uuid_ok fp includeVals exactVals excludeVals =
     (if excludeVals = [] \<and> exactVals = [] then
        (if includeVals = [] then Inr None
         else buildModeClause uuid_ok fp FilterModeInclude includeVals)
      else case exclude_conflict (fp_param fp) includeVals exactVals excludeVals of
        Some e \<Rightarrow> Inl e
      | None \<Rightarrow>
         (case add_mode uuid_ok fp FilterModeExclude excludeVals [] of
            Inl e \<Rightarrow> Inl e
          | Inr m1 \<Rightarrow>
         (case add_mode uuid_ok fp FilterModeExact exactVals m1 of
            Inl e \<Rightarrow> Inl e
          | Inr m2 \<Rightarrow>
         (case add_mode uuid_ok fp FilterModeInclude
                 (if exactVals \<noteq> [] \<and> includeVals \<noteq> [] then filter (\<lambda>v. \<not> List.member exactVals v) includeVals
                  else includeVals) m2 of
            Inl e \<Rightarrow> Inl e
          | Inr m3 \<Rightarrow> Inr (Some m3)))))"

definition nonempty_vals :: "query \<Rightarrow> string \<Rightarrow> string list" where
  "nonempty_vals q k = filter (\<lambda>v. v \<noteq> []) (qvals q k)"

definition exclude_key :: "string \<Rightarrow> string" where "exclude_key p = ''exclude['' @ p @ '']''"
definition exact_key :: "string \<Rightarrow> string" where "exact_key p = ''filter[exact:'' @ p @ '']''"

text \<open>\<open>applyParamFilter\<close>; the clause map is returned with the error, as the caller keeps it.\<close>

definition applyParamFilter ::
  "(string \<Rightarrow> bool) \<Rightarrow> int \<Rightarrow> query \<Rightarrow> filter_param \<Rightarrow> bool \<Rightarrow> clauses \<Rightarrow> clauses \<times> param_error option" where
  "applyParamFilter uuid_ok maxCount q fp treatIncludeAsExact queryParams =
     (let plain = nonempty_vals q (fp_param fp);
          includeVals = (if treatIncludeAsExact then [] else plain);
          excludeVals = nonempty_vals q (exclude_key (fp_param fp));
          exactVals = (if treatIncludeAsExact then plain else []) @ nonempty_vals q (exact_key (fp_param fp))
      in if maxCount < int (length includeVals) then (queryParams, Some (TooManyParameters (fp_param fp) maxCount))
         else if maxCount < int (length excludeVals) then (queryParams, Some (TooManyParameters (fp_param fp) maxCount))
         else if maxCount < int (length exactVals) then (queryParams, Some (TooManyParameters (fp_param fp) maxCount))
         else if includeVals = [] \<and> excludeVals = [] \<and> exactVals = [] then (queryParams, None)
         else case buildSQLClauseWithFilterType uuid_ok fp includeVals exactVals excludeVals of
           Inl e \<Rightarrow> (queryParams, Some e)
         | Inr None \<Rightarrow> (queryParams, None)
         | Inr (Some clauseMap) \<Rightarrow> (maps_copy queryParams clauseMap, None))"

section \<open>The query maps\<close>

definition t_utc_second :: "gotime \<Rightarrow> gotime" where
  "t_utc_second t = \<lparr>t_ns = t_ns t - t_ns t mod sec_ns, t_off = 0, t_zone = ''UTC''\<rparr>"

definition first_of_month :: "gotime \<Rightarrow> gotime" where
  "first_of_month now = (case t_date now of (y, m, _) \<Rightarrow> go_date y m 1 0 0 ''UTC'')"

definition t_add :: "gotime \<Rightarrow> int \<Rightarrow> gotime" where
  "t_add t d = t\<lparr>t_ns := t_ns t + d\<rparr>"

text \<open>The time range; \<open>table\<close> is the table whose \<open>monitoring_end_time\<close> is filtered.\<close>

definition time_range :: "string \<Rightarrow> gotime \<Rightarrow> query \<Rightarrow> clauses \<times> param_error option" where
  "time_range table clock q =
     (let now = t_utc_second clock;
          start_key = table @ ''.monitoring_end_time >= ?'';
          end_key = table @ ''.monitoring_end_time < ?''
      in case (if qget q ''start_date'' = [] then Some (first_of_month now) else parse_date (qget q ''start_date'')) of
           None \<Rightarrow> ([], Some InvalidStartDate)
         | Some s \<Rightarrow>
             (case (if qget q ''end_date'' = [] then Some now
                    else map_option (\<lambda>e. t_add e (24 * hour_ns)) (parse_date (qget q ''end_date''))) of
                None \<Rightarrow> ([(start_key, QTime s)], Some InvalidEndDate)
              | Some e \<Rightarrow> (AList.update end_key (QTime e) [(start_key, QTime s)], None)))"

text \<open>The parameters are filtered one after another and their errors are collected.\<close>

definition filter_step ::
  "(string \<Rightarrow> bool) \<Rightarrow> int \<Rightarrow> query \<Rightarrow> filter_param \<times> bool \<times> param_error option
     \<Rightarrow> clauses \<times> param_error list \<Rightarrow> clauses \<times> param_error list" where
  "filter_step uuid_ok maxCount q = (\<lambda>(fp, asExact, precheck) (m, errs).
     case precheck of
       Some e \<Rightarrow> (m, errs @ [e])
     | None \<Rightarrow> (case applyParamFilter uuid_ok maxCount q fp asExact m of
          (m', None) \<Rightarrow> (m', errs)
        | (m', Some e) \<Rightarrow> (m', errs @ [e])))"

definition container_params :: "query \<Rightarrow> (filter_param \<times> bool \<times> param_error option) list" where
  "container_params q =
     [(\<lparr>fp_param = ''cluster'', fp_column = [], fp_maxLen = ClusterMaxLen, fp_allowDot = True,
        fp_skip = SkipSanitizationForContainer\<rparr>, False, None),
      (\<lparr>fp_param = ''project'', fp_column = ''workloads.namespace'', fp_maxLen = NamespaceMaxLen, fp_allowDot = False,
        fp_skip = SkipSanitizationForContainer\<rparr>, False, None),
      (\<lparr>fp_param = ''workload'', fp_column = ''workloads.workload_name'', fp_maxLen = ClusterMaxLen, fp_allowDot = True,
        fp_skip = SkipSanitizationForContainer\<rparr>, False, None),
      (\<lparr>fp_param = ''workload_type'', fp_column = ''workloads.workload_type'', fp_maxLen = NamespaceMaxLen, fp_allowDot = False,
        fp_skip = SkipSanitizationForContainer\<rparr>, True,
        validateWorkloadTypeValues
          (qvals q ''workload_type'' @ qvals q ''filter[exact:workload_type]'' @ qvals q ''exclude[workload_type]'')),
      (\<lparr>fp_param = ''container'', fp_column = ''recommendation_sets.container_name'', fp_maxLen = NamespaceMaxLen,
        fp_allowDot = False, fp_skip = SkipSanitizationForContainer\<rparr>, False, None)]"

definition namespace_params :: "(filter_param \<times> bool \<times> param_error option) list" where
  "namespace_params =
     [(\<lparr>fp_param = ''cluster'', fp_column = [], fp_maxLen = ClusterMaxLen, fp_allowDot = True,
        fp_skip = SkipSanitizationForNamespace\<rparr>, False, None),
      (\<lparr>fp_param = ''project'', fp_column = ''namespace_recommendation_sets.namespace_name'',
        fp_maxLen = NamespaceMaxLen, fp_allowDot = False, fp_skip = SkipSanitizationForNamespace\<rparr>, False, None)]"

text \<open>The result is the clause map, or the errors joined.\<close>

definition run_filters ::
  "(string \<Rightarrow> bool) \<Rightarrow> int \<Rightarrow> query \<Rightarrow> (filter_param \<times> bool \<times> param_error option) list
     \<Rightarrow> clauses \<times> param_error option \<Rightarrow> param_error list + clauses" where
  "run_filters uuid_ok maxCount q ps tr =
     (case tr of
        (_, Some e) \<Rightarrow> Inl [e]
      | (m, None) \<Rightarrow>
          (case fold (filter_step uuid_ok maxCount q) ps (m, []) of
             (m', errs) \<Rightarrow> if errs = [] then Inr m' else Inl errs))"

definition MapQueryParameters :: "(string \<Rightarrow> bool) \<Rightarrow> int \<Rightarrow> gotime \<Rightarrow> query \<Rightarrow> param_error list + clauses" where
  "MapQueryParameters uuid_ok maxCount clock q =
     run_filters uuid_ok maxCount q (container_params q) (time_range ''recommendation_sets'' clock q)"

definition MapNamespaceQueryParameters :: "(string \<Rightarrow> bool) \<Rightarrow> int \<Rightarrow> gotime \<Rightarrow> query \<Rightarrow> param_error list + clauses" where
  "MapNamespaceQueryParameters uuid_ok maxCount clock q =
     run_filters uuid_ok maxCount q namespace_params (time_range ''namespace_recommendation_sets'' clock q)"

section \<open>The shape of a clause\<close>

text \<open>
  A clause is fine for a set of columns when its text is made of the columns, the three suffixes and
  the two connectives only, with one placeholder fragment per argument and no more arguments than the
  configured maximum; the two time clauses take a time.
\<close>

definition suffixes :: "string list" where
  "suffixes = ['' ILIKE ?'', '' = ?'', '' != ?'']"

definition fragments :: "string list \<Rightarrow> string set" where
  "fragments cols = {c @ s | c s. c \<in> set cols \<and> s \<in> set suffixes}"

definition clause_fine :: "string \<Rightarrow> string list \<Rightarrow> int \<Rightarrow> string \<times> qarg \<Rightarrow> bool" where
  "clause_fine table cols maxCount kv =
     (case snd kv of
        QTime t \<Rightarrow> fst kv \<in> {table @ ''.monitoring_end_time >= ?'', table @ ''.monitoring_end_time < ?''}
      | QStrings vs \<Rightarrow> int (length vs) \<le> maxCount \<and>
          (\<exists>fs sep. fs \<noteq> [] \<and> set fs \<subseteq> fragments cols \<and> length fs = length vs \<and> sep \<in> {'' OR '', '' AND ''}
             \<and> fst kv = join sep fs)
      | QSlice _ \<Rightarrow> False)"

definition cluster_columns :: "string list" where
  "cluster_columns = [''clusters.cluster_uuid'', ''clusters.cluster_alias'']"

definition param_columns :: "filter_param \<Rightarrow> string list" where
  "param_columns fp = (if fp_param fp = ''cluster'' then cluster_columns else [fp_column fp])"

lemma mode_cases:
  "Suffix (FilterModeClause mode) = [] \<or>
   Suffix (FilterModeClause mode) \<in> set suffixes \<and> Join (FilterModeClause mode) \<in> {'' OR '', '' AND ''}"
  by (simp add: FilterModeClause_def suffixes_def)

lemma fragmentI: "c \<in> set cols \<Longrightarrow> s \<in> set suffixes \<Longrightarrow> c @ s \<in> fragments cols"
  unfolding fragments_def by blast

lemma parseCluster_shape:
  assumes "parseClusterParams uuid_ok v mode = Inr (cs, as)" "v \<noteq> []"
  obtains c s a where "cs = [c @ s]" "as = [a]" "c \<in> set cluster_columns"
    "s = Suffix (FilterModeClause mode) \<or> s = Suffix (FilterModeClause FilterModeExact)"
proof -
  define sx where "sx = (if mode = FilterModeInclude then Suffix (FilterModeClause FilterModeExact) else Suffix (FilterModeClause mode))"
  have sx: "sx = Suffix (FilterModeClause mode) \<or> sx = Suffix (FilterModeClause FilterModeExact)"
    by (simp add: sx_def)
  have u: "''clusters.cluster_uuid'' \<in> set cluster_columns" "''clusters.cluster_alias'' \<in> set cluster_columns"
    by (simp_all add: cluster_columns_def)
  from assms have n: "\<not> Suffix (FilterModeClause mode) = []" by (auto simp: parseClusterParams_def)
  show thesis
  proof (cases "uuid_ok v")
    case True
    with assms n have "cs = [''clusters.cluster_uuid'' @ sx]" "as = [v]"
      unfolding parseClusterParams_def Let_def sx_def [symmetric] by (simp_all del: append_Cons)
    then show ?thesis using u(1) sx by (rule that)
  next
    case False
    with assms n have "cs = [''clusters.cluster_alias'' @ Suffix (FilterModeClause mode)]"
      "as = [wrap_like (Wrap (FilterModeClause mode)) v]"
      unfolding parseClusterParams_def Let_def sx_def [symmetric] by (simp_all del: append_Cons)
    then show ?thesis using u(2) disjI1 [OF refl] by (rule that)
  qed
qed

lemma value_clause_props:
  assumes "value_clause uuid_ok fp mode v = Inr (cs, as)" "Suffix (FilterModeClause mode) \<noteq> []"
  shows "length cs = length as \<and> length as \<le> 1 \<and> set cs \<subseteq> fragments (param_columns fp)"
proof (cases "v = []")
  case False
  have m: "Suffix (FilterModeClause mode) \<in> set suffixes"
    using mode_cases [of mode] assms(2) by blast
  have e: "Suffix (FilterModeClause FilterModeExact) \<in> set suffixes"
    by (simp add: FilterModeClause_def FilterModeExact_def FilterModeInclude_def suffixes_def)
  show ?thesis
  proof (cases "fp_param fp = ''cluster''")
    case True
    with assms False have "parseClusterParams uuid_ok v mode = Inr (cs, as)" by (simp add: value_clause_def)
    then show ?thesis
    proof (rule parseCluster_shape)
      fix c s a assume p: "cs = [c @ s]" "as = [a]" "c \<in> set cluster_columns"
        "s = Suffix (FilterModeClause mode) \<or> s = Suffix (FilterModeClause FilterModeExact)"
      from p(4) m e have "s \<in> set suffixes" by blast
      from fragmentI [OF p(3) this] show ?thesis by (simp add: p(1,2) param_columns_def True)
    qed (rule False)
  next
    case o: False
    with assms(1) \<open>v \<noteq> []\<close> have "length cs = 1" "length as = 1" "cs = [fp_column fp @ Suffix (FilterModeClause mode)]"
      by (auto simp: value_clause_def split: sum.split_asm)
    then show ?thesis using fragmentI [OF _ m, of "fp_column fp" "param_columns fp"] o by (simp add: param_columns_def)
  qed
qed (use assms in \<open>simp add: value_clause_def\<close>)

lemma collect_values_props:
  assumes "collect_values uuid_ok fp mode vs = Inr (cs, as)" "Suffix (FilterModeClause mode) \<noteq> []"
  shows "length cs = length as \<and> length as \<le> length vs \<and> set cs \<subseteq> fragments (param_columns fp)"
  using assms(1)
proof (induction vs arbitrary: cs as)
  case (Cons v vs)
  from Cons.prems obtain c a cs' as' where s: "value_clause uuid_ok fp mode v = Inr (c, a)"
    "collect_values uuid_ok fp mode vs = Inr (cs', as')" "cs = c @ cs'" "as = a @ as'"
    by (auto split: sum.split_asm)
  from value_clause_props [OF s(1) assms(2)] Cons.IH [OF s(2)] s(3,4) show ?case by simp
qed simp

lemma buildModeClause_fine:
  assumes "buildModeClause uuid_ok fp mode vals = Inr (Some cl)" "int (length vals) \<le> maxCount"
  shows "list_all (clause_fine table (param_columns fp) maxCount) cl"
proof -
  from assms(1) obtain cs as where s: "collect_values uuid_ok fp mode vals = Inr (cs, as)" "cs \<noteq> []"
    "Suffix (FilterModeClause mode) \<noteq> []" "cl = [(join (Join (FilterModeClause mode)) cs, QStrings as)]"
    by (auto simp: buildModeClause_def split: if_split_asm sum.split_asm)
  have j: "Join (FilterModeClause mode) \<in> {'' OR '', '' AND ''}" using mode_cases [of mode] s(3) by blast
  note p = collect_values_props [OF s(1,3)]
  have "int (length as) \<le> maxCount" using p assms(2) by linarith
  with p j s(2) have "clause_fine table (param_columns fp) maxCount (join (Join (FilterModeClause mode)) cs, QStrings as)"
    unfolding clause_fine_def by auto
  then show ?thesis by (simp add: s(4))
qed

lemma list_all_update: "list_all P m \<Longrightarrow> P (k, v) \<Longrightarrow> list_all P (AList.update k v m)"
  by (induction m) auto

lemma list_all_maps_copy: "list_all P dst \<Longrightarrow> list_all P src \<Longrightarrow> list_all P (maps_copy dst src)"
  unfolding maps_copy_def
  by (induction src arbitrary: dst) (auto simp: list_all_update)

lemma add_mode_fine:
  assumes "add_mode uuid_ok fp mode vals m = Inr m'" "list_all (clause_fine table (param_columns fp) maxCount) m"
    "int (length vals) \<le> maxCount"
  shows "list_all (clause_fine table (param_columns fp) maxCount) m'"
  using assms buildModeClause_fine [OF _ assms(3), of uuid_ok fp mode _ table]
  by (auto simp: add_mode_def list_all_maps_copy split: if_split_asm sum.split_asm option.split_asm)

lemma buildSQL_fine:
  assumes "buildSQLClauseWithFilterType uuid_ok fp is es xs = Inr (Some m)"
    "int (length is) \<le> maxCount" "int (length es) \<le> maxCount" "int (length xs) \<le> maxCount"
  shows "list_all (clause_fine table (param_columns fp) maxCount) m"
proof (cases "xs = [] \<and> es = []")
  case True
  with assms buildModeClause_fine [OF _ assms(2)] show ?thesis
    by (auto simp: buildSQLClauseWithFilterType_def split: if_split_asm)
next
  case False
  define is' where "is' = (if es \<noteq> [] \<and> is \<noteq> [] then filter (\<lambda>v. \<not> List.member es v) is else is)"
  have l: "int (length is') \<le> maxCount"
    using assms(2) by (simp add: is'_def order_trans [OF _ assms(2)])
  from False assms(1) obtain m1 m2 where
    s: "add_mode uuid_ok fp FilterModeExclude xs [] = Inr m1" "add_mode uuid_ok fp FilterModeExact es m1 = Inr m2"
      "add_mode uuid_ok fp FilterModeInclude is' m2 = Inr m"
    unfolding buildSQLClauseWithFilterType_def is'_def [symmetric]
    by (auto split: if_split_asm sum.split_asm option.split_asm)
  have m1: "list_all (clause_fine table (param_columns fp) maxCount) m1" by (rule add_mode_fine [OF s(1) _ assms(4)]) simp
  show ?thesis
    by (rule add_mode_fine [OF s(3) add_mode_fine [OF s(2) m1 assms(3)] l])
qed

lemma clause_fine_mono: "set cols \<subseteq> set cols' \<Longrightarrow> clause_fine table cols n kv \<Longrightarrow> clause_fine table cols' n kv"
proof -
  assume "set cols \<subseteq> set cols'"
  then have "fragments cols \<subseteq> fragments cols'" by (auto simp: fragments_def)
  then show "clause_fine table cols n kv \<Longrightarrow> clause_fine table cols' n kv"
    unfolding clause_fine_def by (cases "snd kv") (simp_all, blast)
qed

lemma applyParamFilter_fine:
  assumes m: "list_all (clause_fine table cols n) m" and c: "set (param_columns fp) \<subseteq> set cols"
  shows "list_all (clause_fine table cols n) (fst (applyParamFilter uuid_ok n q fp b m))"
proof -
  have mono: "list_all (clause_fine table (param_columns fp) n) cl \<Longrightarrow> list_all (clause_fine table cols n) cl" for cl
    by (auto simp: list_all_iff intro: clause_fine_mono [OF c])
  define il where "il = (if b then [] else nonempty_vals q (fp_param fp))"
  define es where "es = (if b then nonempty_vals q (fp_param fp) else []) @ nonempty_vals q (exact_key (fp_param fp))"
  define xs where "xs = nonempty_vals q (exclude_key (fp_param fp))"
  have "fst (applyParamFilter uuid_ok n q fp b m) = m \<or>
    (\<exists>cl. int (length il) \<le> n \<and> int (length es) \<le> n \<and> int (length xs) \<le> n
       \<and> buildSQLClauseWithFilterType uuid_ok fp il es xs = Inr (Some cl)
       \<and> fst (applyParamFilter uuid_ok n q fp b m) = maps_copy m cl)"
    unfolding applyParamFilter_def Let_def il_def [symmetric] es_def [symmetric] xs_def [symmetric]
    by (auto split: sum.split option.split)
  then show ?thesis
    using m buildSQL_fine [of uuid_ok fp il es xs _ n table] list_all_maps_copy mono by metis
qed

lemma filter_step_fine:
  assumes "list_all (clause_fine table cols n) (fst s)" "set (param_columns (fst p)) \<subseteq> set cols"
  shows "list_all (clause_fine table cols n) (fst (filter_step uuid_ok n q p s))"
proof -
  obtain fp b pre m errs where d: "p = (fp, b, pre)" "s = (m, errs)" by (metis prod_cases3 surj_pair)
  have "list_all (clause_fine table cols n) (fst (applyParamFilter uuid_ok n q fp b m))"
    using applyParamFilter_fine assms by (simp add: d)
  then show ?thesis
    using assms(1) by (cases "applyParamFilter uuid_ok n q fp b m") (simp add: d filter_step_def split: option.split)
qed

lemma run_filters_fine:
  assumes "run_filters uuid_ok n q ps (time_range table clock q) = Inr m"
    and c: "list_all (\<lambda>p. set (param_columns (fst p)) \<subseteq> set cols) ps"
  shows "list_all (clause_fine table cols n) m"
proof -
  have f: "list_all (clause_fine table cols n) (fst (fold (filter_step uuid_ok n q) ps s))"
    if "list_all (\<lambda>p. set (param_columns (fst p)) \<subseteq> set cols) ps" "list_all (clause_fine table cols n) (fst s)" for ps s
    using that by (induction ps arbitrary: s) (simp_all add: filter_step_fine)
  obtain m0 e where t: "time_range table clock q = (m0, e)" by (cases "time_range table clock q") auto
  from assms(1) t have "e = None" and m: "m = fst (fold (filter_step uuid_ok n q) ps (m0, []))"
    by (auto simp: run_filters_def split: option.split_asm prod.split_asm if_split_asm)
  from t have "list_all (clause_fine table cols n) m0"
    by (auto simp: time_range_def Let_def clause_fine_def intro!: list_all_update split: option.split_asm)
  with f [OF c, of "(m0, [])"] show ?thesis by (simp add: m)
qed

section \<open>Properties\<close>

definition container_columns :: "string list" where
  "container_columns =
     cluster_columns @ [''workloads.namespace'', ''workloads.workload_name'', ''workloads.workload_type'',
       ''recommendation_sets.container_name'']"

definition namespace_columns :: "string list" where
  "namespace_columns = cluster_columns @ [''namespace_recommendation_sets.namespace_name'']"

text \<open>C12 (safety): every clause that an accepted container or namespace request adds to the query is built from
  the endpoint's own columns, the three operators and the two connectives alone, takes exactly one
  argument per placeholder and at most the configured number of them; whatever the request's values
  hold reaches the database as arguments, never as SQL text.\<close>

theorem MapQueryParameters_clauses:
  "(case MapQueryParameters uuid_ok n clock q of
      Inr m \<Rightarrow> list_all (clause_fine ''recommendation_sets'' container_columns n) m | Inl _ \<Rightarrow> True)
   \<and> (case MapNamespaceQueryParameters uuid_ok n clock q of
      Inr m \<Rightarrow> list_all (clause_fine ''namespace_recommendation_sets'' namespace_columns n) m | Inl _ \<Rightarrow> True)"
proof -
  have c: "list_all (\<lambda>p. set (param_columns (fst p)) \<subseteq> set container_columns) (container_params q)"
    by (auto simp: container_params_def param_columns_def container_columns_def)
  have d: "list_all (\<lambda>p. set (param_columns (fst p)) \<subseteq> set namespace_columns) namespace_params"
    by (auto simp: namespace_params_def param_columns_def namespace_columns_def)
  show ?thesis
    unfolding MapQueryParameters_def MapNamespaceQueryParameters_def
    using run_filters_fine [OF _ c] run_filters_fine [OF _ d] by (simp split: sum.split)
qed

lemma collect_values_skip:
  "fp_skip fp \<Longrightarrow> Suffix (FilterModeClause mode) \<noteq> [] \<Longrightarrow> \<exists>r. collect_values uuid_ok fp mode vs = Inr r"
proof (induction vs)
  case (Cons v vs)
  then have "\<exists>r. value_clause uuid_ok fp mode v = Inr r"
    by (simp add: value_clause_def sanitizeParamValue_def parseClusterParams_def Let_def)
  with Cons show ?case by (auto split: sum.split)
qed simp

lemma mode_suffix [simp]:
  "Suffix (FilterModeClause FilterModeInclude) \<noteq> []" "Suffix (FilterModeClause FilterModeExact) \<noteq> []"
  "Suffix (FilterModeClause FilterModeExclude) \<noteq> []"
  by (simp_all add: FilterModeClause_def FilterModeInclude_def FilterModeExact_def FilterModeExclude_def)

lemma buildModeClause_skip:
  assumes "fp_skip fp" "Suffix (FilterModeClause mode) \<noteq> []"
  shows "\<exists>r. buildModeClause uuid_ok fp mode vs = Inr r"
  using collect_values_skip [OF assms, of uuid_ok vs] assms(2)
  by (auto simp: buildModeClause_def split: prod.split)

lemma add_mode_skip:
  assumes "fp_skip fp" "Suffix (FilterModeClause mode) \<noteq> []"
  shows "\<exists>r. add_mode uuid_ok fp mode vs m = Inr r"
  using buildModeClause_skip [OF assms, of uuid_ok vs] by (auto simp: add_mode_def split: option.split)

lemma exclude_conflict_None:
  "exclude_conflict p is es xs = None \<longleftrightarrow> set xs \<inter> (set es \<union> set is) = {}"
  by (induction xs) auto

lemma buildSQL_error:
  assumes f: "fp_skip fp"
  shows "(\<exists>r. buildSQLClauseWithFilterType uuid_ok fp is es xs = Inr r) \<longleftrightarrow> set xs \<inter> (set es \<union> set is) = {}"
proof (cases "xs = [] \<and> es = []")
  case True
  then show ?thesis
    using buildModeClause_skip [OF f mode_suffix(1), of uuid_ok "is"] by (simp add: buildSQLClauseWithFilterType_def)
next
  case False
  obtain m1 where m1: "add_mode uuid_ok fp FilterModeExclude xs [] = Inr m1"
    using add_mode_skip [OF f mode_suffix(3)] by blast
  obtain m2 where m2: "add_mode uuid_ok fp FilterModeExact es m1 = Inr m2"
    using add_mode_skip [OF f mode_suffix(2)] by blast
  have m3: "\<exists>m3. add_mode uuid_ok fp FilterModeInclude vs m2 = Inr m3" for vs
    by (rule add_mode_skip [OF f mode_suffix(1)])
  show ?thesis
  proof (cases "exclude_conflict (fp_param fp) is es xs")
    case None
    moreover have "\<exists>r. buildSQLClauseWithFilterType uuid_ok fp is es xs = Inr r"
      unfolding buildSQLClauseWithFilterType_def if_not_P [OF False] None option.case m1 sum.case m2
      using m3 by (metis sum.case(2))
    ultimately show ?thesis using exclude_conflict_None [of "fp_param fp" "is" es xs] by simp
  next
    case (Some e)
    then have "buildSQLClauseWithFilterType uuid_ok fp is es xs = Inl e"
      unfolding buildSQLClauseWithFilterType_def if_not_P [OF False] by simp
    with Some exclude_conflict_None [of "fp_param fp" "is" es xs] show ?thesis by simp
  qed
qed

text \<open>With sanitising off, as both endpoints run it, a parameter is refused exactly when one of
  its three value lists is longer than the maximum or an excluded value is also asked for.\<close>

theorem applyParamFilter_error_iff:
  "snd (applyParamFilter uuid_ok n q (fp\<lparr>fp_skip := True\<rparr>) asExact m) = None \<longleftrightarrow>
     (let plain = nonempty_vals q (fp_param fp); xs = nonempty_vals q (exclude_key (fp_param fp));
          es = nonempty_vals q (exact_key (fp_param fp))
      in list_all (\<lambda>vs. int (length vs) \<le> n) (if asExact then [xs, plain @ es] else [plain, xs, es])
         \<and> set xs \<inter> (set es \<union> set plain) = {})"
proof -
  define fp' where "fp' = fp\<lparr>fp_skip := True\<rparr>"
  have f: "fp_skip fp'" "fp_param fp' = fp_param fp" by (simp_all add: fp'_def)
  define il where "il = (if asExact then [] else nonempty_vals q (fp_param fp))"
  define es where "es = (if asExact then nonempty_vals q (fp_param fp) else []) @ nonempty_vals q (exact_key (fp_param fp))"
  define xs where "xs = nonempty_vals q (exclude_key (fp_param fp))"
  define sql where "sql = buildSQLClauseWithFilterType uuid_ok fp' il es xs"
  have l: "il = [] \<and> xs = [] \<and> es = [] \<Longrightarrow> set xs \<inter> (set es \<union> set il) = {}" by simp
  have s: "(\<exists>r. sql = Inr r) \<longleftrightarrow> set xs \<inter> (set es \<union> set il) = {}"
    unfolding sql_def by (rule buildSQL_error [OF f(1)])
  have "snd (applyParamFilter uuid_ok n q fp' asExact m) = None \<longleftrightarrow>
      int (length il) \<le> n \<and> int (length xs) \<le> n \<and> int (length es) \<le> n
      \<and> (il = [] \<and> xs = [] \<and> es = [] \<or> (\<exists>r. sql = Inr r))"
    unfolding applyParamFilter_def Let_def f(2) il_def [symmetric] es_def [symmetric] xs_def [symmetric] sql_def [symmetric]
    by (cases sql) (auto split: option.split)
  also have "\<dots> \<longleftrightarrow> int (length il) \<le> n \<and> int (length xs) \<le> n \<and> int (length es) \<le> n
      \<and> set xs \<inter> (set es \<union> set il) = {}"
    using s l by blast
  finally show ?thesis
    unfolding fp'_def [symmetric] by (cases asExact) (auto simp: Let_def il_def es_def xs_def)
qed

lemma validate_None: "validateWorkloadTypeValues vs = None \<longleftrightarrow> list_all (List.member validWorkloadTypes) vs"
  by (induction vs) auto

lemma fold_filter_errors:
  "snd (fold (filter_step uuid_ok n q) ps s) = [] \<Longrightarrow> snd s = [] \<and> list_all (\<lambda>p. snd (snd p) = None) ps"
proof (induction ps arbitrary: s)
  case (Cons p ps)
  obtain fp b pre where d1: "p = (fp, b, pre)" by (cases p) auto
  obtain m errs where d2: "s = (m, errs)" by (cases s) auto
  note d = d1 d2
  from Cons.prems Cons.IH [of "filter_step uuid_ok n q p s"]
  have "snd (filter_step uuid_ok n q p s) = []" "list_all (\<lambda>p. snd (snd p) = None) ps" by simp_all
  then show ?case
    by (cases "applyParamFilter uuid_ok n q fp b m") (auto simp: d filter_step_def split: option.split_asm)
qed simp

text \<open>An accepted container request names only known workload types, in all three of the
  parameter's forms.\<close>

theorem MapQueryParameters_workload_types:
  "case MapQueryParameters uuid_ok n clock q of
     Inr _ \<Rightarrow> list_all (List.member validWorkloadTypes)
       (qvals q ''workload_type'' @ qvals q ''filter[exact:workload_type]'' @ qvals q ''exclude[workload_type]'')
   | Inl _ \<Rightarrow> True"
proof (cases "MapQueryParameters uuid_ok n clock q")
  case (Inr m)
  then obtain m0 where "fold (filter_step uuid_ok n q) (container_params q) (m0, []) = (m, [])"
    by (auto simp: MapQueryParameters_def run_filters_def split: prod.split_asm option.split_asm if_split_asm)
  then have "snd (fold (filter_step uuid_ok n q) (container_params q) (m0, [])) = []" by simp
  from fold_filter_errors [OF this] have "validateWorkloadTypeValues
      (qvals q ''workload_type'' @ qvals q ''filter[exact:workload_type]'' @ qvals q ''exclude[workload_type]'') = None"
    by (simp add: container_params_def)
  with Inr show ?thesis by (simp only: sum.case validate_None)
qed simp

text \<open>The clauses of an include and of an exact filter on two cluster UUIDs have the same text,
  so copying the include clause over the exact one loses the exact filter: only the included UUID is
  searched for.\<close>

theorem cluster_exact_overwritten:
  assumes "uuid_ok a" "uuid_ok b" "a \<noteq> b" "a \<noteq> []" "b \<noteq> []" "fp_param fp = ''cluster''"
  shows "buildSQLClauseWithFilterType uuid_ok fp [a] [b] [] = Inr (Some [(''clusters.cluster_uuid = ?'', QStrings [a])])"
  using assms
  by (simp add: buildSQLClauseWithFilterType_def add_mode_def buildModeClause_def value_clause_def parseClusterParams_def
      Let_def FilterModeClause_def FilterModeInclude_def FilterModeExact_def maps_copy_def)

theorem cluster_exact_overwritten_witness:
  "buildSQLClauseWithFilterType (\<lambda>s. length s = 3)
     \<lparr>fp_param = ''cluster'', fp_column = [], fp_maxLen = 253, fp_allowDot = True, fp_skip = True\<rparr> [''u-1''] [''u-2''] []
   = Inr (Some [(''clusters.cluster_uuid = ?'', QStrings [''u-1''])])"
  by (rule cluster_exact_overwritten) simp_all

lemma parse_date_midnight: "parse_date s = Some t \<Longrightarrow> t_ns t mod day_ns = 0"
  by (auto simp: parse_date_def date_at_def go_date_def Let_def Option.bind_eq_Some_conv split: if_split_asm prod.split_asm)

lemma day_interval:
  fixes s t e :: int
  assumes "0 < d" "s mod d = 0" "e mod d = 0"
  shows "s \<le> t \<and> t < e + d \<longleftrightarrow> s div d \<le> t div d \<and> t div d \<le> e div d"
proof -
  from assms(2,3) obtain a b where ab: "s = d * a" "e = d * b" by (metis mod_0_imp_dvd dvdE)
  have q: "d * a \<le> t \<longleftrightarrow> a \<le> t div d" for a
  proof
    assume "d * a \<le> t"
    then have "(d * a) div d \<le> t div d" using assms(1) by (rule zdiv_mono1)
    then show "a \<le> t div d" using assms(1) by simp
  next
    assume "a \<le> t div d"
    then have "d * a \<le> d * (t div d)" using assms(1) by simp
    also have "\<dots> \<le> t" using mult_div_mod_eq [of d t] pos_mod_sign [OF assms(1), of t] by linarith
    finally show "d * a \<le> t" .
  qed
  have "t < d * b + d \<longleftrightarrow> \<not> d * (b + 1) \<le> t" by (simp add: algebra_simps not_le)
  also have "\<dots> \<longleftrightarrow> t div d \<le> b" unfolding q by linarith
  finally show ?thesis using assms(1) by (simp add: ab q)
qed

text \<open>With both dates given, the time clauses select exactly the times whose UTC day lies
  between the start date and the end date, both included.\<close>

theorem time_range_days:
  assumes "parse_date (qget q ''start_date'') = Some s" "parse_date (qget q ''end_date'') = Some e"
  shows "\<exists>m e'. time_range table clock q = (m, None)
    \<and> map_of m (table @ ''.monitoring_end_time >= ?'') = Some (QTime s)
    \<and> map_of m (table @ ''.monitoring_end_time < ?'') = Some (QTime e')
    \<and> (\<forall>t. (t_ns s \<le> t \<and> t < t_ns e') = (t_ns s div day_ns \<le> t div day_ns \<and> t div day_ns \<le> t_ns e div day_ns))"
proof -
  have ne: "qget q ''start_date'' \<noteq> []" "qget q ''end_date'' \<noteq> []"
    using assms by (auto simp: parse_date_def parse_ymd_def get_year_def)
  have d: "24 * hour_ns = day_ns" "0 < day_ns" by (simp_all add: hour_ns_def day_ns_def sec_ns_def)
  have "(t_ns s \<le> t \<and> t < t_ns (t_add e (24 * hour_ns))) = (t_ns s div day_ns \<le> t div day_ns \<and> t div day_ns \<le> t_ns e div day_ns)" for t
    unfolding d(1) t_add_def using day_interval [OF d(2) parse_date_midnight [OF assms(1)] parse_date_midnight [OF assms(2)]] by simp
  then show ?thesis using assms ne by (simp add: time_range_def Let_def)
qed

theorem time_range_days_witness:
  "\<exists>m e'. time_range ''recommendation_sets'' go_zero_time
      [(''start_date'', [''2024-02-01'']), (''end_date'', [''2024-02-29''])] = (m, None)
    \<and> map_of m ''recommendation_sets.monitoring_end_time < ?'' = Some (QTime e')
    \<and> \<not> t_ns e' \<le> 63844847999 * sec_ns"
proof -
  let ?q = "[(''start_date'', [''2024-02-01'']), (''end_date'', [''2024-02-29''])]"
  have p: "parse_date (qget ?q ''start_date'') = Some \<lparr>t_ns = 63842342400 * sec_ns, t_off = 0, t_zone = ''UTC''\<rparr>"
    "parse_date (qget ?q ''end_date'') = Some \<lparr>t_ns = 63844761600 * sec_ns, t_off = 0, t_zone = ''UTC''\<rparr>"
    by code_simp+
  from time_range_days [OF p, of "''recommendation_sets''" go_zero_time] obtain m e' where
    r: "time_range ''recommendation_sets'' go_zero_time ?q = (m, None)"
      "map_of m ''recommendation_sets.monitoring_end_time < ?'' = Some (QTime e')"
    and t: "(63842342400 * sec_ns \<le> t \<and> t < t_ns e') = (63842342400 * sec_ns div day_ns \<le> t div day_ns
      \<and> t div day_ns \<le> 63844761600 * sec_ns div day_ns)" for t
    by auto
  have "63844847999 * sec_ns < t_ns e'"
    using t [of "63844847999 * sec_ns"] by (simp add: day_ns_def sec_ns_def)
  with r show ?thesis by (intro exI [of _ m] exI [of _ e']) simp
qed

end
