(* ===== verification/Pagination.thy ===== *)
theory Pagination
  imports ListOptions "HOL-Library.List_Lexorder" "HOL-Library.Char_ord"
begin

text \<open>
  \<open>CollectionResponse\<close> (\<open>internal/api/utils.go\<close>): the metadata and the links of a page.  The query text of
  a link is \<open>url.PathUnescape(q.Encode())\<close>: keys in byte order, values escaped byte by byte and the
  escapes undone, which leaves every byte as it is except a blank, which stays a plus sign
  (\<open>unescape_escape\<close>).  Offsets are 64-bit \<open>int\<close>s, so their sums wrap around.
\<close>

definition wrap64 :: "int \<Rightarrow> int" where
  "wrap64 i = (i + 2 ^ 63) mod 2 ^ 64 - 2 ^ 63"

lemma wrap64_id: "int_min \<le> i \<Longrightarrow> i \<le> int_max \<Longrightarrow> wrap64 i = i"
  by (simp add: wrap64_def int_min_def int_max_def)

section \<open>Escaping (\<open>net/url\<close>)\<close>

definition unreserved :: "char \<Rightarrow> bool" where
  "unreserved c =
     (let n = (of_char c :: nat)
      in 97 \<le> n \<and> n \<le> 122 \<or> 65 \<le> n \<and> n \<le> 90 \<or> 48 \<le> n \<and> n \<le> 57
         \<or> c = CHR ''-'' \<or> c = CHR ''_'' \<or> c = CHR ''.'' \<or> c = CHR ''~'')"

definition hex_char :: "nat \<Rightarrow> char" where
  "hex_char d = (if d < 10 then char_of (48 + d) else char_of (55 + d))"

definition hex_val :: "char \<Rightarrow> nat option" where
  "hex_val c =
     (let n = of_char c
      in if 48 \<le> n \<and> n \<le> 57 then Some (n - 48) else if 65 \<le> n \<and> n \<le> 70 then Some (n - 55)
         else if 97 \<le> n \<and> n \<le> 102 then Some (n - 87) else None)"

text \<open>\<open>url.QueryEscape\<close>\<close>

definition escape_char :: "char \<Rightarrow> string" where
  "escape_char c =
     (if unreserved c then [c] else if c = CHR '' '' then ''+''
      else [CHR ''%'', hex_char (of_char c div 16), hex_char (of_char c mod 16)])"

definition query_escape :: "string \<Rightarrow> string" where
  "query_escape s = concat (map escape_char s)"

text \<open>\<open>url.PathUnescape\<close>\<close>

fun path_unescape :: "string \<Rightarrow> string option" where
  "path_unescape [] = Some []"
| "path_unescape (c # r) =
     (if c = CHR ''%'' then
        (case r of
           a # b # r' \<Rightarrow>
             (case (hex_val a, hex_val b) of
                (Some x, Some y) \<Rightarrow> map_option (\<lambda>s. char_of (16 * x + y) # s) (path_unescape r')
              | _ \<Rightarrow> None)
         | _ \<Rightarrow> None)
      else map_option (\<lambda>s. c # s) (path_unescape r))"

text \<open>\<open>url.Values.Encode\<close> and \<open>url.Values.Set\<close>\<close>

definition sorted_query :: "query \<Rightarrow> (string \<times> string) list" where
  "sorted_query q = concat (map (\<lambda>(k, vs). map (\<lambda>v. (k, v)) vs) (sort_key fst q))"

definition encode_query :: "query \<Rightarrow> string" where
  "encode_query q = join ''&'' (map (\<lambda>(k, v). query_escape k @ ''='' @ query_escape v) (sorted_query q))"

definition query_set :: "string \<Rightarrow> string \<Rightarrow> query \<Rightarrow> query" where
  "query_set k v q = AList.update k [v] q"

section \<open>The response\<close>

record Links =
  lk_first :: string
  lk_previous :: string
  lk_next :: string
  lk_last :: string

record Metadata =
  md_count :: int
  md_limit :: int
  md_offset :: int

record 'a Collection =
  cl_data :: "'a list"
  cl_meta :: Metadata
  cl_links :: Links

definition page_link :: "string \<Rightarrow> query \<Rightarrow> string" where
  "page_link path q =
     path @ ''?'' @ (case path_unescape (encode_query q) of Some params \<Rightarrow> params | None \<Rightarrow> [])"

definition CollectionResponse :: "'a list \<Rightarrow> string \<Rightarrow> query \<Rightarrow> int \<Rightarrow> int \<Rightarrow> int \<Rightarrow> 'a Collection" where
  "CollectionResponse collection path query count limit offset =
     (let q = query_set ''limit'' (itoa limit) query;
          q = query_set ''offset'' (itoa offset) q;
          first = page_link path q;
          q = query_set ''offset'' (itoa (wrap64 (offset + limit))) q;
          last = page_link path q;
          (q, previous) =
            (if limit < offset
             then (let q = query_set ''offset'' (itoa (wrap64 (offset - limit))) q in (q, page_link path q))
             else (q, []));
          next = (if wrap64 (offset + limit) < count
                  then page_link path (query_set ''offset'' (itoa (wrap64 (offset + limit))) q)
                  else [])
      in \<lparr>cl_data = collection, cl_meta = \<lparr>md_count = count, md_limit = limit, md_offset = offset\<rparr>,
          cl_links = \<lparr>lk_first = first, lk_previous = previous, lk_next = next, lk_last = last\<rparr>\<rparr>)"

section \<open>Escapes are undone\<close>

definition plus_blanks :: "string \<Rightarrow> string" where
  "plus_blanks s = map (\<lambda>c. if c = CHR '' '' then CHR ''+'' else c) s"

lemma hex_val_hex_char: "d < 16 \<Longrightarrow> hex_val (hex_char d) = Some d"
  by (auto simp: hex_val_def hex_char_def Let_def)

lemma path_unescape_escape_char:
  "path_unescape (escape_char c @ r) = map_option (\<lambda>s. (if c = CHR '' '' then CHR ''+'' else c) # s) (path_unescape r)"
proof -
  have n: "c \<noteq> CHR ''%''" "c \<noteq> CHR '' ''" if "unreserved c" using that by (auto simp: unreserved_def)
  have b: "(of_char c :: nat) < 256" by (rule nat_of_char_less_256)
  have c: "char_of (16 * (of_char c div 16) + of_char c mod 16 :: nat) = c" by simp
  have "hex_val (hex_char (of_char c div 16)) = Some (of_char c div 16)"
    "hex_val (hex_char (of_char c mod 16)) = Some (of_char c mod 16)"
    using b by (intro hex_val_hex_char; linarith)+
  with n c show ?thesis by (auto simp: escape_char_def)
qed

lemma path_unescape_append: "path_unescape (query_escape s @ r) = map_option (\<lambda>t. plus_blanks s @ t) (path_unescape r)"
  by (induction s)
    (simp_all add: query_escape_def plus_blanks_def path_unescape_escape_char option.map_comp o_def option.map_ident)

lemma path_unescape_join:
  "path_unescape (join ''&'' (map (\<lambda>(k, v). query_escape k @ ''='' @ query_escape v) kvs))
     = Some (join ''&'' (map (\<lambda>(k, v). plus_blanks k @ ''='' @ plus_blanks v) kvs))"
proof -
  have one: "path_unescape (query_escape v) = Some (plus_blanks v)" for v
    using path_unescape_append [of v "[]"] by simp
  show ?thesis
  proof (induction kvs rule: induct_list012)
    case (2 x)
    then show ?case by (cases x) (simp add: path_unescape_append one)
  next
    case (3 x y zs)
    then show ?case by (cases x; cases y) (simp add: path_unescape_append)
  qed simp
qed

section \<open>Following the links\<close>

definition page_query :: "query \<Rightarrow> int \<Rightarrow> int \<Rightarrow> query" where
  "page_query query limit offset = query_set ''offset'' (itoa offset) (query_set ''limit'' (itoa limit) query)"

lemma query_set_twice: "query_set k v (query_set k u q) = query_set k v q"
  by (simp add: query_set_def)

text \<open>The offset of the page the next link names.\<close>

definition next_offset :: "int \<Rightarrow> int \<Rightarrow> int \<Rightarrow> int option" where
  "next_offset count limit offset =
     (if wrap64 (offset + limit) < count then Some (wrap64 (offset + limit)) else None)"

lemma links_of_page:
  "cl_links (CollectionResponse c path q count limit offset) =
     \<lparr>lk_first = page_link path (page_query q limit offset),
      lk_previous = (if limit < offset then page_link path (page_query q limit (wrap64 (offset - limit))) else []),
      lk_next = (case next_offset count limit offset of Some o1 \<Rightarrow> page_link path (page_query q limit o1) | None \<Rightarrow> []),
      lk_last = page_link path (page_query q limit (wrap64 (offset + limit)))\<rparr>"
  by (simp add: CollectionResponse_def Let_def page_query_def query_set_twice next_offset_def)

text \<open>The offsets of the pages that \<open>count\<close> items fill.\<close>

definition page_offsets :: "int \<Rightarrow> int \<Rightarrow> int list" where
  "page_offsets count limit = map (\<lambda>k. int k * limit) [0..<nat ((count + limit - 1) div limit)]"

lemma page_count:
  assumes "0 < limit"
  shows "k < nat ((count + limit - 1) div limit) \<longleftrightarrow> int k * limit < count"
proof -
  have "k < nat ((count + limit - 1) div limit) \<longleftrightarrow> int k + 1 \<le> (count + limit - 1) div limit" by linarith
  also have "\<dots> \<longleftrightarrow> (int k + 1) * limit \<le> count + limit - 1"
  proof
    assume "int k + 1 \<le> (count + limit - 1) div limit"
    then have "(int k + 1) * limit \<le> (count + limit - 1) div limit * limit" using assms by (simp add: mult_right_mono)
    also have "\<dots> \<le> count + limit - 1" using pos_mod_sign [OF assms, of "count + limit - 1"] unfolding minus_mod_eq_div_mult [symmetric] by linarith
    finally show "(int k + 1) * limit \<le> count + limit - 1" .
  next
    assume "(int k + 1) * limit \<le> count + limit - 1"
    from zdiv_mono1 [OF this assms] assms show "int k + 1 \<le> (count + limit - 1) div limit" by simp
  qed
  also have "\<dots> \<longleftrightarrow> int k * limit < count" by (simp add: algebra_simps) linarith
  finally show ?thesis .
qed

section \<open>Properties\<close>

text \<open>A page's next link is there exactly when a later page exists and names it; its previous
  link names the page before, but is left out on the second page (offset equal to the limit); the last
  link always names the page after this one, also when there is none.\<close>

theorem CollectionResponse_links:
  "0 \<le> offset \<and> 0 < limit \<and> offset + limit \<le> int_max \<Longrightarrow>
   cl_links (CollectionResponse c path q count limit offset) =
     \<lparr>lk_first = page_link path (page_query q limit offset),
      lk_previous = (if offset \<le> limit then [] else page_link path (page_query q limit (offset - limit))),
      lk_next = (if offset + limit < count then page_link path (page_query q limit (offset + limit)) else []),
      lk_last = page_link path (page_query q limit (offset + limit))\<rparr>"
proof -
  assume a: "0 \<le> offset \<and> 0 < limit \<and> offset + limit \<le> int_max"
  then have "wrap64 (offset + limit) = offset + limit" "wrap64 (offset - limit) = offset - limit"
    by (auto intro!: wrap64_id simp: int_min_def int_max_def)
  then show ?thesis by (simp add: links_of_page next_offset_def)
qed

theorem CollectionResponse_links_witness:
  "lk_previous (cl_links (CollectionResponse [] ''/r'' [] 30 10 10)) = []
   \<and> lk_next (cl_links (CollectionResponse [] ''/r'' [] 30 10 10)) = ''/r?limit=10&offset=20''"
proof -
  have l: "page_link ''/r'' (page_query [] 10 20) = ''/r?limit=10&offset=20''" by code_simp
  show ?thesis
    by (subst (1 2) CollectionResponse_links) (simp_all add: l int_max_def)
qed

text \<open>C33: Following the next links of the pages from the first one ends and shows every item: the pages visited are those at the
  multiples of the limit, each page's next link names the following page and is the very link that this page gives as its own
  (\<open>first\<close>), the last page has no next link, and every one of the \<open>count\<close> items is on one of them.\<close>

theorem next_links_cover:
  assumes "0 < limit" "0 < count" "count + limit \<le> int_max"
  shows "let links = \<lambda>k. cl_links (CollectionResponse (rows k) path q count limit (page_offsets count limit ! k));
             n = length (page_offsets count limit)
         in 0 < n \<and> page_offsets count limit ! 0 = 0
          \<and> (\<forall>k < n - 1. lk_next (links k) = page_link path (page_query q limit (page_offsets count limit ! Suc k))
               \<and> lk_next (links k) = lk_first (links (Suc k)))
          \<and> lk_next (links (n - 1)) = []
          \<and> (\<forall>i. 0 \<le> i \<longrightarrow> i < count \<longrightarrow> (\<exists>o1 \<in> set (page_offsets count limit). o1 \<le> i \<and> i < o1 + limit))"
proof -
  let ?n = "nat ((count + limit - 1) div limit)"
  have n: "length (page_offsets count limit) = ?n" by (simp add: page_offsets_def)
  have at: "page_offsets count limit ! k = int k * limit" if "k < ?n" for k using that by (simp add: page_offsets_def)
  have pos: "0 < ?n" using page_count [OF assms(1), of 0 count] assms(2) by simp
  have next1: "next_offset count limit (int k * limit) = (if Suc k < ?n then Some (int (Suc k) * limit) else None)" if "k < ?n" for k
  proof -
    have b: "0 \<le> int k * limit" "int k * limit < count" using that page_count [OF assms(1), of k count] assms(1) by simp_all
    have "int_min \<le> 0" by (simp add: int_min_def)
    with b(1) assms(1) have "int_min \<le> int k * limit + limit" by linarith
    moreover have "int k * limit + limit \<le> int_max" using b(2) assms(3) by linarith
    ultimately have "wrap64 (int k * limit + limit) = int (Suc k) * limit" by (simp add: wrap64_id distrib_right)
    then show ?thesis using page_count [OF assms(1), of "Suc k" count] by (simp add: next_offset_def)
  qed
  have shown: "\<exists>o1 \<in> set (page_offsets count limit). o1 \<le> i \<and> i < o1 + limit" if i: "0 \<le> i" "i < count" for i
  proof -
    define k where "k = nat (i div limit)"
    have k: "int k = i div limit" using i(1) assms(1) by (simp add: k_def pos_imp_zdiv_nonneg_iff)
    have m: "i = i div limit * limit + i mod limit" "0 \<le> i mod limit" "i mod limit < limit" using assms(1) by simp_all
    then have b: "int k * limit \<le> i" "i < int k * limit + limit" unfolding k by linarith+
    with i(2) have "k < ?n" using page_count [OF assms(1), of k count] by simp
    with b show ?thesis unfolding page_offsets_def by (intro bexI [of _ "int k * limit"]) auto
  qed
  obtain m where m: "?n = Suc m" using pos gr0_implies_Suc by blast
  have "next_offset count limit (int m * limit) = None" using next1 [of m] m by simp
  then show ?thesis
    unfolding Let_def n m using shown next1 at by (auto simp: m links_of_page)
qed

lemma three_pages: "page_offsets 25 10 = [0, 10, 20]"
  by code_simp

theorem next_links_cover_witness:
  "lk_next (cl_links (CollectionResponse ([] :: nat list) ''/r'' [] 25 10 10)) = lk_first (cl_links (CollectionResponse ([] :: nat list) ''/r'' [] 25 10 20))
   \<and> lk_next (cl_links (CollectionResponse ([] :: nat list) ''/r'' [] 25 10 20)) = []"
proof -
  have "(0 :: int) < 10" "(0 :: int) < 25" "25 + 10 \<le> int_max" by (simp_all add: int_max_def)
  from next_links_cover [OF this, of "\<lambda>_. [] :: nat list" "''/r''" "[]"] show ?thesis
    by (simp add: Let_def three_pages All_less_Suc numeral_2_eq_2) metis
qed

text \<open>A link's query text is the page's parameters, sorted by name, joined by ampersands and
  not escaped: every byte of a name or value stands as it is, a blank as a plus sign.  A value that
  holds an ampersand or an equals sign therefore changes the parameters of the next request.\<close>

theorem page_link_text:
  "page_link path q = path @ ''?'' @
     join ''&'' (map (\<lambda>(k, v). plus_blanks k @ ''='' @ plus_blanks v) (sorted_query q))"
  unfolding page_link_def encode_query_def path_unescape_join by simp

end
