(* ===== verification/Rbac.thy ===== *)
theory Rbac
  imports Filters Json
begin

text \<open>
  Access control: \<open>internal/api/middleware/rbac.go\<close> asks the RBAC service for the user's permissions
  (\<open>request_user_access\<close>, page by page), \<open>aggregate_permissions\<close> folds them into a map from a resource
  type to resource names, and \<open>AddRBACFilter\<close> (\<open>internal/rbac/query_builder.go\<close>) turns the map into
  WHERE clauses.  \<open>policy_allows\<close> is the specification those clauses implement.

  The service is the parameter \<open>reply\<close>: what the \<open>n\<close>-th request of the session to a URL gets.  Printing
  a resource name that is neither a string, a bool nor null (\<open>fmt.Sprint\<close>) is the parameter \<open>sprint\<close>.
\<close>

section \<open>Permissions\<close>

record RbacData =
  ac_resourceDefinitions :: "json list"
  ac_permission :: string

text \<open>The \<open>Value\<close> of each resource definition's attribute filter is what the code looks at.\<close>

type_synonym perms = "(string \<times> string list) list"

fun sprint_value :: "(json \<Rightarrow> string) \<Rightarrow> json \<Rightarrow> string" where
  "sprint_value sprint (JStr s) = s"
| "sprint_value sprint (JBool b) = (if b then ''true'' else ''false'')"
| "sprint_value sprint JNull = ''<nil>''"
| "sprint_value sprint j = sprint j"

fun filter_resources :: "(json \<Rightarrow> string) \<Rightarrow> json \<Rightarrow> string list" where
  "filter_resources sprint (JArr vs) = map (sprint_value sprint) vs"
| "filter_resources sprint (JStr s) = [s]"
| "filter_resources sprint _ = []"

definition perm_list :: "string \<Rightarrow> perms \<Rightarrow> string list" where
  "perm_list k m = (case map_of m k of Some vs \<Rightarrow> vs | None \<Rightarrow> [])"

text \<open>One iteration of the loop of \<open>aggregate_permissions\<close>.\<close>

definition aggregate_one :: "(json \<Rightarrow> string) \<Rightarrow> RbacData \<Rightarrow> perms \<Rightarrow> perms" where
  "aggregate_one sprint acl permissions =
     (let parts = split_n 3 CHR '':'' (ac_permission acl)
      in if length parts < 2 then permissions
         else let resourceType = parts ! 1
         in if str_contains resourceType ''openshift'' then
              (if ac_resourceDefinitions acl = []
               then AList.update resourceType (perm_list resourceType permissions @ [''*'']) permissions
               else AList.update resourceType
                 (perm_list resourceType permissions @ concat (map (filter_resources sprint) (ac_resourceDefinitions acl)))
                 permissions)
            else if resourceType = ''*'' then AList.update ''*'' [] permissions
            else permissions)"

definition aggregate_permissions :: "(json \<Rightarrow> string) \<Rightarrow> RbacData list \<Rightarrow> perms" where
  "aggregate_permissions sprint acls = fold (aggregate_one sprint) acls []"

section \<open>Asking the service\<close>

datatype rbac_reply =
    RequestFailed
  | Transport
  | BadStatus int
  | BadBody
  | Page "RbacData list" string

text \<open>\<open>request_user_access\<close>: every failure returns what was collected; a next link is followed without a
  bound, so not returning is \<open>None\<close>.\<close>

partial_function (option) request_user_access ::
  "(nat \<Rightarrow> string \<Rightarrow> rbac_reply) \<Rightarrow> string \<Rightarrow> nat \<Rightarrow> string \<Rightarrow> RbacData list option" where
  "request_user_access reply base n url =
     (case reply n url of
        Page data next \<Rightarrow>
          (if next \<noteq> [] then
             Option.bind (request_user_access reply base (Suc n) (base @ next)) (\<lambda>rest. Some (data @ rest))
           else Some data)
      | _ \<Rightarrow> Some [])"

definition access_path :: string where
  "access_path = ''/api/rbac/v1/access/?application=cost-management&limit=100''"

text \<open>\<open>get_user_permissions_from_rbac\<close>: \<open>Some None\<close> is the nil map, \<open>None\<close> not returning.\<close>

definition get_user_permissions_from_rbac ::
  "(json \<Rightarrow> string) \<Rightarrow> (nat \<Rightarrow> string \<Rightarrow> rbac_reply) \<Rightarrow> string \<Rightarrow> perms option option" where
  "get_user_permissions_from_rbac sprint reply base =
     map_option (\<lambda>acls.
       if 0 < length acls then
         (let permissions = aggregate_permissions sprint acls
          in if 0 < length permissions then Some permissions else None)
       else None)
     (request_user_access reply base 0 (base @ access_path))"

datatype 'a middleware_result = Forbidden | Next 'a

text \<open>\<open>Rbac\<close>: the handler runs with the permissions, or the request is refused.\<close>

definition rbac_middleware ::
  "(json \<Rightarrow> string) \<Rightarrow> (nat \<Rightarrow> string \<Rightarrow> rbac_reply) \<Rightarrow> string \<Rightarrow> perms middleware_result option" where
  "rbac_middleware sprint reply base =
     map_option (\<lambda>p. case p of Some permissions \<Rightarrow> Next permissions | None \<Rightarrow> Forbidden)
       (get_user_permissions_from_rbac sprint reply base)"

text \<open>\<open>get_user_permissions\<close> of the handlers: an empty map when the middleware set none.\<close>

definition get_user_permissions :: "perms option \<Rightarrow> perms" where
  "get_user_permissions ctx = (case ctx of Some m \<Rightarrow> m | None \<Rightarrow> [])"

section \<open>The query filter\<close>

datatype ResourceType = ResourceContainer | ResourceProject | OtherResource string

definition StringInSlice :: "string \<Rightarrow> string list \<Rightarrow> bool" where
  "StringInSlice a ss = list_ex (\<lambda>b. b = a) ss"

definition cluster_filter :: "string list \<Rightarrow> clauses" where
  "cluster_filter clusterPerms = [(''clusters.cluster_uuid IN (?)'', QSlice clusterPerms)]"

definition project_filter :: "ResourceType \<Rightarrow> string list \<Rightarrow> clauses" where
  "project_filter rt projectPerms =
     (case rt of
        ResourceContainer \<Rightarrow> [(''workloads.namespace IN (?)'', QSlice projectPerms)]
      | ResourceProject \<Rightarrow> [(''namespace_recommendation_sets.namespace_name IN (?)'', QSlice projectPerms)]
      | OtherResource _ \<Rightarrow> [])"

text \<open>\<open>AddRBACFilter\<close>: the clauses added to the query, or the unsupported resource type.\<close>

definition AddRBACFilter :: "bool \<Rightarrow> perms \<Rightarrow> ResourceType \<Rightarrow> string + clauses" where
  "AddRBACFilter rbacEnabled userPermissions rt =
     (if \<not> rbacEnabled then Inr []
      else case rt of
        OtherResource n \<Rightarrow> Inl n
      | _ \<Rightarrow>
         (if map_of userPermissions ''*'' \<noteq> None then Inr []
          else let hasCluster = map_of userPermissions ''openshift.cluster'' \<noteq> None;
                   hasProject = map_of userPermissions ''openshift.project'' \<noteq> None;
                   clusterPerms = perm_list ''openshift.cluster'' userPermissions;
                   projectPerms = perm_list ''openshift.project'' userPermissions;
                   clusterAll = hasCluster \<and> StringInSlice ''*'' clusterPerms;
                   projectAll = hasProject \<and> StringInSlice ''*'' projectPerms
          in if hasCluster \<and> hasProject then
               (if clusterAll \<and> projectAll then Inr []
                else if clusterAll then Inr (project_filter rt projectPerms)
                else if projectAll then Inr (cluster_filter clusterPerms)
                else Inr (cluster_filter clusterPerms @ project_filter rt projectPerms))
             else if hasCluster \<and> \<not> hasProject then
               (if \<not> clusterAll then Inr (cluster_filter clusterPerms) else Inr [])
             else if hasProject \<and> \<not> hasCluster then
               (if \<not> projectAll then Inr (project_filter rt projectPerms) else Inr [])
             else Inr []))"

section \<open>Specification\<close>

text \<open>
  A row is visible to a user when some wildcard covers everything, or each of the two dimensions is
  unrestricted (no permission of that kind at all, or a wildcard) or names the row's value.
\<close>

definition dimension_allows :: "string \<Rightarrow> perms \<Rightarrow> string \<Rightarrow> bool" where
  "dimension_allows k m v = (case map_of m k of None \<Rightarrow> True | Some vs \<Rightarrow> ''*'' \<in> set vs \<or> v \<in> set vs)"

definition policy_allows :: "perms \<Rightarrow> string \<Rightarrow> string \<Rightarrow> bool" where
  "policy_allows m cluster project =
     (map_of m ''*'' \<noteq> None
      \<or> dimension_allows ''openshift.cluster'' m cluster \<and> dimension_allows ''openshift.project'' m project)"

text \<open>What the database does with the two clauses the filter writes.\<close>

definition in_clause_semantics ::
  "(string \<times> qarg \<Rightarrow> 'row \<Rightarrow> bool) \<Rightarrow> ('row \<Rightarrow> string) \<Rightarrow> ('row \<Rightarrow> string) \<Rightarrow> ResourceType \<Rightarrow> bool" where
  "in_clause_semantics sat cluster_of project_of rt =
     (\<forall>vs row. sat (''clusters.cluster_uuid IN (?)'', QSlice vs) row = (cluster_of row \<in> set vs)
       \<and> list_all (\<lambda>c. sat c row = (project_of row \<in> set vs)) (project_filter rt vs))"

lemma AddRBACFilter_spec:
  assumes "rt = ResourceContainer \<or> rt = ResourceProject" "in_clause_semantics sat cluster_of project_of rt"
  shows "\<exists>cs. AddRBACFilter True m rt = Inr cs
    \<and> (\<forall>row. list_all (\<lambda>c. sat c row) cs = policy_allows m (cluster_of row) (project_of row))"
proof -
  have c: "list_all (\<lambda>c. sat c row) (cluster_filter vs) = (cluster_of row \<in> set vs)" for vs row
    using assms(2) by (simp add: in_clause_semantics_def cluster_filter_def)
  have p: "list_all (\<lambda>c. sat c row) (project_filter rt vs) = (project_of row \<in> set vs)" for vs row
    using assms by (auto simp: in_clause_semantics_def project_filter_def)
  have s: "StringInSlice x vs = (x \<in> set vs)" for x vs
    by (auto simp: StringInSlice_def list_ex_iff)
  have e: "AddRBACFilter True m rt =
      (if map_of m ''*'' \<noteq> None then Inr []
       else Inr ((if map_of m ''openshift.cluster'' = None \<or> ''*'' \<in> set (perm_list ''openshift.cluster'' m) then []
                  else cluster_filter (perm_list ''openshift.cluster'' m))
              @ (if map_of m ''openshift.project'' = None \<or> ''*'' \<in> set (perm_list ''openshift.project'' m) then []
                  else project_filter rt (perm_list ''openshift.project'' m))))"
    using assms(1) by (auto simp: AddRBACFilter_def Let_def s)
  show ?thesis
    unfolding e
    by (cases "map_of m ''openshift.cluster''"; cases "map_of m ''openshift.project''")
      (auto simp: c p policy_allows_def dimension_allows_def perm_list_def)
qed

section \<open>What the aggregated map holds\<close>

definition acl_type :: "RbacData \<Rightarrow> string option" where
  "acl_type acl =
     (let parts = split_n 3 CHR '':'' (ac_permission acl) in if length parts < 2 then None else Some (parts ! 1))"

definition acl_resources :: "(json \<Rightarrow> string) \<Rightarrow> RbacData \<Rightarrow> string list" where
  "acl_resources sprint acl =
     (if ac_resourceDefinitions acl = [] then [''*''] else concat (map (filter_resources sprint) (ac_resourceDefinitions acl)))"

lemma star_not_openshift: "\<not> str_contains ''*'' ''openshift''"
  by (auto simp: str_contains_def dest!: set_mono_sublist)

lemma aggregate_step:
  "str_contains k ''openshift'' \<Longrightarrow> map_of (aggregate_one sprint acl m) k =
     (if acl_type acl = Some k then Some (perm_list k m @ acl_resources sprint acl) else map_of m k)"
  "map_of (aggregate_one sprint acl m) ''*'' =
     (if acl_type acl = Some ''*'' then Some [] else map_of m ''*'')"
  using star_not_openshift
  by (auto simp: aggregate_one_def acl_type_def acl_resources_def Let_def)

lemma aggregate_openshift:
  assumes "str_contains k ''openshift''"
  shows "map_of (fold (aggregate_one sprint) acls m) k =
    (if \<exists>a \<in> set acls. acl_type a = Some k
     then Some (perm_list k m @ concat (map (acl_resources sprint) (filter (\<lambda>a. acl_type a = Some k) acls)))
     else map_of m k)"
proof (induction acls arbitrary: m)
  case (Cons a acls)
  show ?case
    using assms Cons.IH [of "aggregate_one sprint a m"]
    by (auto simp: aggregate_step perm_list_def)
qed simp

lemma aggregate_star:
  "map_of (fold (aggregate_one sprint) acls m) ''*'' =
     (if \<exists>a \<in> set acls. acl_type a = Some ''*'' then Some [] else map_of m ''*'')"
  by (induction acls arbitrary: m) (auto simp: aggregate_step)

section \<open>Paging\<close>

text \<open>The URL of the \<open>k\<close>-th page of a session, as long as every page before has a next link.\<close>

fun page_url :: "(nat \<Rightarrow> string \<Rightarrow> rbac_reply) \<Rightarrow> string \<Rightarrow> nat \<Rightarrow> string \<Rightarrow> nat \<Rightarrow> string option" where
  "page_url reply base n url 0 = Some url"
| "page_url reply base n url (Suc k) =
     (case reply n url of
        Page _ next \<Rightarrow> if next \<noteq> [] then page_url reply base (Suc n) (base @ next) k else None
      | _ \<Rightarrow> None)"

fun pages_data :: "(nat \<Rightarrow> string \<Rightarrow> rbac_reply) \<Rightarrow> string \<Rightarrow> nat \<Rightarrow> string \<Rightarrow> nat \<Rightarrow> RbacData list" where
  "pages_data reply base n url 0 = (case reply n url of Page data _ \<Rightarrow> data | _ \<Rightarrow> [])"
| "pages_data reply base n url (Suc k) =
     (case reply n url of
        Page data next \<Rightarrow> data @ (if next \<noteq> [] then pages_data reply base (Suc n) (base @ next) k else [])
      | _ \<Rightarrow> [])"

lemma access_returns:
  "page_url reply base n url (Suc k) = None \<Longrightarrow>
     request_user_access reply base n url = Some (pages_data reply base n url k)"
proof (induction k arbitrary: n url)
  case 0
  then show ?case
    by (subst request_user_access.simps) (auto split: rbac_reply.split_asm if_split_asm)
next
  case (Suc k)
  show ?case
  proof (cases "reply n url")
    case (Page data next1)
    with Suc show ?thesis by (subst request_user_access.simps) (simp split: if_split_asm)
  qed (subst request_user_access.simps, simp)+
qed

lemma access_ends:
  "request_user_access reply base n url = Some acls \<Longrightarrow> \<exists>k. page_url reply base n url (Suc k) = None"
proof (induction reply base n url acls rule: request_user_access.raw_induct [rotated, consumes 1])
  case (1 access reply base n url acls)
  show ?case
  proof (cases "reply n url")
    case (Page data next1)
    show ?thesis
    proof (cases "next1 = []")
      case True
      then show ?thesis by (intro exI [of _ 0]) (simp add: Page)
    next
      case False
      with 1(2) Page obtain rest where "access reply base (Suc n) (base @ next1) = Some rest"
        by (auto simp: Option.bind_eq_Some_conv)
      from 1(1) [OF this] obtain k where "page_url reply base (Suc n) (base @ next1) (Suc k) = None" by blast
      then show ?thesis using False Page by (intro exI [of _ "Suc k"]) simp
    qed
  qed (intro exI [of _ 0], simp)+
qed

section \<open>Properties\<close>

text \<open>C11 (refinement): with RBAC on and a database that evaluates \<open>IN (?)\<close> as membership, the clauses added
  for containers or namespaces keep exactly the rows the policy allows to the permission map.\<close>

theorem AddRBACFilter_policy:
  assumes "rt = ResourceContainer \<or> rt = ResourceProject" "in_clause_semantics sat cluster_of project_of rt"
  shows "case AddRBACFilter True m rt of
      Inr cs \<Rightarrow> filter (\<lambda>row. list_all (\<lambda>c. sat c row) cs) rows
        = filter (\<lambda>row. policy_allows m (cluster_of row) (project_of row)) rows
    | Inl _ \<Rightarrow> False"
  using AddRBACFilter_spec [OF assms, of m] by auto

definition sample_sat :: "string \<times> qarg \<Rightarrow> string \<times> string \<Rightarrow> bool" where
  "sample_sat c row =
     (case snd c of
        QSlice vs \<Rightarrow> (if fst c = ''clusters.cluster_uuid IN (?)'' then fst row else snd row) \<in> set vs
      | _ \<Rightarrow> True)"

theorem AddRBACFilter_policy_witness:
  "case AddRBACFilter True [(''openshift.cluster'', [''c1'']), (''openshift.project'', [''*''])] ResourceContainer of
      Inr cs \<Rightarrow> filter (\<lambda>row. list_all (\<lambda>c. sample_sat c row) cs) [(''c1'', ''p''), (''c2'', ''p'')]
        = filter (\<lambda>row. policy_allows [(''openshift.cluster'', [''c1'']), (''openshift.project'', [''*''])] (fst row) (snd row))
            [(''c1'', ''p''), (''c2'', ''p'')]
    | Inl _ \<Rightarrow> False"
  by (rule AddRBACFilter_policy) (simp_all add: in_clause_semantics_def sample_sat_def project_filter_def)

text \<open>The permission map that \<open>aggregate_permissions\<close> builds has a wildcard entry exactly when some
  permission is for all resource types, an entry for a cluster or project type exactly when some
  permission names it, and that entry lists the resources of all its permissions in order.\<close>

theorem aggregate_permissions_spec:
  "(map_of (aggregate_permissions sprint acls) ''*'' \<noteq> None) = (\<exists>a \<in> set acls. acl_type a = Some ''*'')
   \<and> list_all (\<lambda>k. map_of (aggregate_permissions sprint acls) k =
        (if \<exists>a \<in> set acls. acl_type a = Some k
         then Some (concat (map (acl_resources sprint) (filter (\<lambda>a. acl_type a = Some k) acls))) else None))
      [''openshift.cluster'', ''openshift.project'', ''openshift.node'']"
proof -
  have "str_contains ''openshift.cluster'' ''openshift''" "str_contains ''openshift.project'' ''openshift''"
    "str_contains ''openshift.node'' ''openshift''"
    by code_simp+
  then show ?thesis
    by (simp add: aggregate_permissions_def aggregate_star aggregate_openshift perm_list_def)
qed

text \<open>A user whose only permissions are for nodes passes the middleware and is then shown every
  row of the organisation: the map is not empty, and no clause is added for it.\<close>

theorem node_permissions_unfiltered:
  assumes "acls \<noteq> []" "list_all (\<lambda>a. acl_type a = Some ''openshift.node'') acls"
    and "request_user_access reply base 0 (base @ access_path) = Some acls"
  shows "\<exists>m. rbac_middleware sprint reply base = Some (Next m)
    \<and> (rt = ResourceContainer \<or> rt = ResourceProject \<longrightarrow> AddRBACFilter True m rt = Inr [])"
proof -
  let ?m = "aggregate_permissions sprint acls"
  from assms(2) have t: "\<forall>a \<in> set acls. acl_type a = Some ''openshift.node''" by (simp add: list_all_iff)
  obtain a where a: "a \<in> set acls" using assms(1) by (cases acls) auto
  have k: "str_contains ''openshift.cluster'' ''openshift''" "str_contains ''openshift.project'' ''openshift''"
    "str_contains ''openshift.node'' ''openshift''"
    by code_simp+
  have "map_of ?m ''openshift.node'' \<noteq> None"
    using a t by (auto simp: aggregate_permissions_def aggregate_openshift [OF k(3)])
  then have "0 < length ?m" by (cases ?m) auto
  moreover have "map_of ?m ''*'' = None" "map_of ?m ''openshift.cluster'' = None" "map_of ?m ''openshift.project'' = None"
    using t by (auto simp: aggregate_permissions_def aggregate_star aggregate_openshift [OF k(1)] aggregate_openshift [OF k(2)])
  ultimately show ?thesis
    using assms(1,3)
    by (auto simp: rbac_middleware_def get_user_permissions_from_rbac_def AddRBACFilter_def Let_def)
qed

definition node_acl :: RbacData where
  "node_acl = \<lparr>ac_resourceDefinitions = [], ac_permission = ''cost-management:openshift.node:read''\<rparr>"

theorem node_permissions_unfiltered_witness:
  "\<exists>m. rbac_middleware (\<lambda>_. []) (\<lambda>_ _. Page [node_acl] []) ''http://rbac'' = Some (Next m)
    \<and> AddRBACFilter True m ResourceContainer = Inr []"
proof -
  have "list_all (\<lambda>a. acl_type a = Some ''openshift.node'') [node_acl]" unfolding node_acl_def by code_simp
  moreover have "request_user_access (\<lambda>_ _. Page [node_acl] []) ''http://rbac'' 0 (''http://rbac'' @ access_path) = Some [node_acl]"
    by (subst request_user_access.simps) simp
  ultimately show ?thesis
    using node_permissions_unfiltered [of "[node_acl]" "\<lambda>_ _. Page [node_acl] []" "''http://rbac''" "\<lambda>_. []" ResourceContainer]
    by simp
qed

text \<open>C32: Asking for a user's access returns exactly when the chain of next links ends, and then with
  the permissions of every page up to the last page or the first failure.\<close>

theorem request_user_access_terminates:
  "(request_user_access reply base n url \<noteq> None) = (\<exists>k. page_url reply base n url (Suc k) = None)
   \<and> (\<forall>k. page_url reply base n url (Suc k) = None \<longrightarrow>
        request_user_access reply base n url = Some (pages_data reply base n url k))"
  using access_returns access_ends by (metis option.exhaust option.distinct(1))

theorem request_user_access_terminates_witness:
  "request_user_access (\<lambda>n _. if n = 0 then Page [node_acl] ''/p2'' else BadStatus 500) ''http://rbac'' 0 ''/p1''
     = Some (pages_data (\<lambda>n _. if n = 0 then Page [node_acl] ''/p2'' else BadStatus 500) ''http://rbac'' 0 ''/p1'' 1)"
  by (rule request_user_access_terminates [THEN conjunct2, rule_format]) simp

end
