(* ===== verification/Query.thy ===== *)
theory Query
  imports Rbac
begin

text \<open>
  The read queries of \<open>internal/model\<close>: what \<open>getRecommendationQuery\<close>, \<open>GetRecommendationSets\<close>,
  \<open>GetRecommendationSetByID\<close> and their namespace twins hand to the database.  A \<open>gorm.DB\<close> that is being
  chained is a record of the clauses put on it; a condition is added to it in place, so a
  \<open>query.Where(..)\<close> whose result is dropped still counts.

  The database is the parameter \<open>sat\<close> (which rows satisfy a condition), and the rows are the joined
  rows of the query's tables.
\<close>

record sql_query =
  q_table :: string
  q_columns :: "string list"
  q_joins :: string
  q_where :: clauses
  q_order :: "string list"
  q_offset :: int
  q_limit :: int

definition add_where :: "string \<times> qarg \<Rightarrow> sql_query \<Rightarrow> sql_query" where
  "add_where c q = q\<lparr>q_where := q_where q @ [c]\<rparr>"

definition pct_columns :: "string list" where
  "pct_columns =
     [''cpu_variation_short_cost_pct'', ''cpu_variation_short_performance_pct'',
      ''cpu_variation_medium_cost_pct'', ''cpu_variation_medium_performance_pct'',
      ''cpu_variation_long_cost_pct'', ''cpu_variation_long_performance_pct'',
      ''memory_variation_short_cost_pct'', ''memory_variation_short_performance_pct'',
      ''memory_variation_medium_cost_pct'', ''memory_variation_medium_performance_pct'',
      ''memory_variation_long_cost_pct'', ''memory_variation_long_performance_pct'']"

text \<open>An unset offset and limit are gorm's -1.\<close>

definition getRecommendationQuery :: "string \<Rightarrow> sql_query" where
  "getRecommendationQuery orgID =
     \<lparr>q_table = ''recommendation_sets'',
      q_columns =
        [''recommendation_sets.id'', ''recommendation_sets.container_name AS container'',
         ''workloads.namespace AS project'', ''workloads.workload_name as workload'', ''workloads.workload_type'',
         ''clusters.source_id'', ''clusters.cluster_uuid'', ''clusters.cluster_alias'',
         ''clusters.last_reported_at AS last_reported'', ''recommendation_sets.recommendations'']
        @ map (\<lambda>c. ''recommendation_sets.'' @ c) pct_columns,
      q_joins = ''JOIN workloads ON recommendation_sets.workload_id = workloads.id '' @
        ''JOIN clusters ON workloads.cluster_id = clusters.id JOIN rh_accounts ON clusters.tenant_id = rh_accounts.id'',
      q_where = [(''rh_accounts.org_id = ?'', QStrings [orgID])],
      q_order = [], q_offset = - 1, q_limit = - 1\<rparr>"

definition getNamespaceRecommendationQuery :: "string \<Rightarrow> sql_query" where
  "getNamespaceRecommendationQuery orgID =
     \<lparr>q_table = ''namespace_recommendation_sets'',
      q_columns =
        [''namespace_recommendation_sets.id'', ''namespace_recommendation_sets.namespace_name AS project'',
         ''clusters.source_id'', ''clusters.cluster_uuid'', ''clusters.cluster_alias'',
         ''clusters.last_reported_at AS last_reported'', ''namespace_recommendation_sets.recommendations'']
        @ map (\<lambda>c. ''namespace_recommendation_sets.'' @ c) pct_columns,
      q_joins = ''JOIN workloads ON namespace_recommendation_sets.workload_id = workloads.id '' @
        ''JOIN clusters ON workloads.cluster_id = clusters.id'',
      q_where = [(''namespace_recommendation_sets.org_id = ?'', QStrings [orgID])],
      q_order = [], q_offset = - 1, q_limit = - 1\<rparr>"

text \<open>
  The list query: access control, the request's filters, the sort and the page.  The count is asked
  before sorting and paging, so a query comes with the one that is counted.  \<open>csvLimit\<close> is the
  configured \<open>RecordLimitCSV\<close>.
\<close>

definition list_query ::
  "sql_query \<Rightarrow> ResourceType \<Rightarrow> string \<Rightarrow> bool \<Rightarrow> int \<Rightarrow> ListOptions \<Rightarrow> clauses \<Rightarrow> perms
     \<Rightarrow> string + sql_query \<times> sql_query" where
  "list_query base rt idOrder rbacEnabled csvLimit opts queryParams user_permissions =
     (case AddRBACFilter rbacEnabled user_permissions rt of
        Inl e \<Rightarrow> Inl e
      | Inr cs \<Rightarrow>
          (let query = fold add_where queryParams (fold add_where cs base);
               limit = (if Format opts = ''csv'' then csvLimit else Limit opts)
           in Inr (query,
                query\<lparr>q_order := [SQLOrderByFragment (OrderBy opts) (OrderHow opts), idOrder],
                      q_offset := Offset opts, q_limit := limit\<rparr>)))"

definition GetRecommendationSets ::
  "bool \<Rightarrow> int \<Rightarrow> string \<Rightarrow> ListOptions \<Rightarrow> clauses \<Rightarrow> perms \<Rightarrow> string + sql_query \<times> sql_query" where
  "GetRecommendationSets rbacEnabled csvLimit orgID opts queryParams user_permissions =
     list_query (getRecommendationQuery orgID) ResourceContainer ''recommendation_sets.id ASC''
       rbacEnabled csvLimit opts queryParams user_permissions"

definition GetNamespaceRecommendationSets ::
  "bool \<Rightarrow> int \<Rightarrow> string \<Rightarrow> ListOptions \<Rightarrow> clauses \<Rightarrow> perms \<Rightarrow> string + sql_query \<times> sql_query" where
  "GetNamespaceRecommendationSets rbacEnabled csvLimit orgID opts queryParams user_permissions =
     list_query (getNamespaceRecommendationQuery orgID) ResourceProject ''namespace_recommendation_sets.id ASC''
       rbacEnabled csvLimit opts queryParams user_permissions"

definition by_id_query :: "sql_query \<Rightarrow> string \<Rightarrow> ResourceType \<Rightarrow> bool \<Rightarrow> string \<Rightarrow> perms \<Rightarrow> string + sql_query" where
  "by_id_query base idClause rt rbacEnabled recommendationID user_permissions =
     (let query = add_where (idClause, QStrings [recommendationID]) base
      in case AddRBACFilter rbacEnabled user_permissions rt of
           Inl e \<Rightarrow> Inl e
         | Inr cs \<Rightarrow> Inr (fold add_where cs query))"

definition GetRecommendationSetByID :: "bool \<Rightarrow> string \<Rightarrow> string \<Rightarrow> perms \<Rightarrow> string + sql_query" where
  "GetRecommendationSetByID rbacEnabled orgID recommendationID user_permissions =
     by_id_query (getRecommendationQuery orgID) ''recommendation_sets.id = ?'' ResourceContainer
       rbacEnabled recommendationID user_permissions"

definition GetNamespaceRecommendationSetByID :: "bool \<Rightarrow> string \<Rightarrow> string \<Rightarrow> perms \<Rightarrow> string + sql_query" where
  "GetNamespaceRecommendationSetByID rbacEnabled orgID recommendationID user_permissions =
     by_id_query (getNamespaceRecommendationQuery orgID) ''namespace_recommendation_sets.id = ?'' ResourceProject
       rbacEnabled recommendationID user_permissions"

section \<open>Which rows a query selects\<close>

definition selects :: "(string \<times> qarg \<Rightarrow> 'row \<Rightarrow> bool) \<Rightarrow> sql_query \<Rightarrow> 'row \<Rightarrow> bool" where
  "selects sat q row = list_all (\<lambda>c. sat c row) (q_where q)"

lemma q_where_fold: "q_where (fold add_where cs q) = q_where q @ cs"
  by (induction cs arbitrary: q) (simp_all add: add_where_def)

lemma selects_fold: "selects sat (fold add_where cs q) row = (selects sat q row \<and> list_all (\<lambda>c. sat c row) cs)"
  by (simp add: selects_def q_where_fold)

lemma fold_add_where_rest:
  "q_table (fold add_where cs q) = q_table q" "q_order (fold add_where cs q) = q_order q"
  by (induction cs arbitrary: q) (simp_all add: add_where_def)

definition org_clause :: "ResourceType \<Rightarrow> string" where
  "org_clause rt =
     (if rt = ResourceContainer then ''rh_accounts.org_id = ?'' else ''namespace_recommendation_sets.org_id = ?'')"

text \<open>A query that carries a condition, or no query at all.\<close>

definition query_scoped :: "string \<times> qarg \<Rightarrow> string + sql_query \<Rightarrow> bool" where
  "query_scoped c r = (case r of Inr q \<Rightarrow> List.member (q_where q) c | Inl _ \<Rightarrow> True)"

text \<open>What the database promises of the three conditions the code itself writes: equality of the
  organisation, equality of the identifier, and membership for the access clauses.\<close>

definition row_semantics ::
  "(string \<times> qarg \<Rightarrow> 'row \<Rightarrow> bool) \<Rightarrow> ('row \<Rightarrow> string) \<Rightarrow> ('row \<Rightarrow> string) \<Rightarrow> ('row \<Rightarrow> string) \<Rightarrow> ResourceType \<Rightarrow> bool" where
  "row_semantics sat org_of cluster_of project_of rt =
     (in_clause_semantics sat cluster_of project_of rt
      \<and> (\<forall>org row. sat (org_clause rt, QStrings [org]) row = (org_of row = org)))"

lemma list_query_selects:
  assumes rt: "rt = ResourceContainer \<or> rt = ResourceProject"
    and sem: "row_semantics sat org_of cluster_of project_of rt"
    and b: "q_where base = [(org_clause rt, QStrings [org])]"
  shows "\<exists>cq q. list_query base rt o1 True csvLimit opts params m = Inr (cq, q)
    \<and> (\<forall>row. selects sat q row = (org_of row = org \<and> policy_allows m (cluster_of row) (project_of row)
          \<and> list_all (\<lambda>c. sat c row) params))
    \<and> (\<forall>row. selects sat cq row = selects sat q row)"
proof -
  have "in_clause_semantics sat cluster_of project_of rt" using sem by (simp add: row_semantics_def)
  from AddRBACFilter_spec [OF rt this] obtain cs where
    cs: "AddRBACFilter True m rt = Inr cs"
      "\<forall>row. list_all (\<lambda>c. sat c row) cs = policy_allows m (cluster_of row) (project_of row)" by blast
  have s: "selects sat base row = (org_of row = org)" for row
    using sem by (simp add: selects_def b row_semantics_def)
  have u: "selects sat (q\<lparr>q_order := x, q_offset := y, q_limit := z\<rparr>) row = selects sat q row" for q x y z row
    by (simp add: selects_def)
  show ?thesis
    by (simp add: list_query_def cs(1) Let_def u selects_fold s) (simp add: cs(2))
qed

lemma q_where_add_where: "q_where (add_where c q) = q_where q @ [c]"
  by (simp add: add_where_def)

lemma list_query_keeps:
  "list_query base rt o1 rbac n opts params m = Inr (cq, q) \<Longrightarrow> c \<in> set (q_where base) \<Longrightarrow>
     c \<in> set (q_where cq) \<and> c \<in> set (q_where q)"
  by (auto simp: list_query_def Let_def q_where_fold split: sum.split_asm)

lemma by_id_query_keeps:
  "by_id_query base ic rt rbac rid m = Inr q \<Longrightarrow> c \<in> set (q_where base) \<Longrightarrow> c \<in> set (q_where q)"
  by (auto simp: by_id_query_def Let_def q_where_fold q_where_add_where split: sum.split_asm)

section \<open>Properties\<close>

text \<open>C5 (refinement): a container or namespace list query selects exactly the rows that belong to the caller's
  organisation, that the access policy allows and that satisfy every filter of the request, and the
  count is taken over the same rows.\<close>

theorem list_queries_select:
  assumes "row_semantics sat org_of cluster_of project_of ResourceContainer"
    and "row_semantics sat' org_of' cluster_of' project_of' ResourceProject"
  shows "(case GetRecommendationSets True n org opts params m of
      Inr (cq, q) \<Rightarrow> \<forall>row. selects sat q row = (org_of row = org \<and> policy_allows m (cluster_of row) (project_of row)
          \<and> list_all (\<lambda>c. sat c row) params) \<and> selects sat cq row = selects sat q row
    | Inl _ \<Rightarrow> False)
    \<and> (case GetNamespaceRecommendationSets True n org opts params m of
      Inr (cq, q) \<Rightarrow> \<forall>row. selects sat' q row = (org_of' row = org \<and> policy_allows m (cluster_of' row) (project_of' row)
          \<and> list_all (\<lambda>c. sat' c row) params) \<and> selects sat' cq row = selects sat' q row
    | Inl _ \<Rightarrow> False)"
proof -
  have b: "q_where (getRecommendationQuery org) = [(org_clause ResourceContainer, QStrings [org])]"
    "q_where (getNamespaceRecommendationQuery org) = [(org_clause ResourceProject, QStrings [org])]"
    by (simp_all add: getRecommendationQuery_def getNamespaceRecommendationQuery_def org_clause_def)
  from list_query_selects [OF disjI1 [OF refl] assms(1) b(1)] obtain cq q where
    1: "GetRecommendationSets True n org opts params m = Inr (cq, q)"
      "\<forall>row. selects sat q row = (org_of row = org \<and> policy_allows m (cluster_of row) (project_of row)
          \<and> list_all (\<lambda>c. sat c row) params)"
      "\<forall>row. selects sat cq row = selects sat q row"
    unfolding GetRecommendationSets_def by blast
  from list_query_selects [OF disjI2 [OF refl] assms(2) b(2)] obtain cq' q' where
    2: "GetNamespaceRecommendationSets True n org opts params m = Inr (cq', q')"
      "\<forall>row. selects sat' q' row = (org_of' row = org \<and> policy_allows m (cluster_of' row) (project_of' row)
          \<and> list_all (\<lambda>c. sat' c row) params)"
      "\<forall>row. selects sat' cq' row = selects sat' q' row"
    unfolding GetNamespaceRecommendationSets_def by blast
  show ?thesis unfolding 1(1) 2(1) sum.case prod.case using 1(2,3) 2(2,3) by blast
qed

definition triple_sat :: "string \<times> qarg \<Rightarrow> string \<times> string \<times> string \<Rightarrow> bool" where
  "triple_sat c row =
     (case snd c of
        QSlice vs \<Rightarrow> (if fst c = ''clusters.cluster_uuid IN (?)'' then fst (snd row) else snd (snd row)) \<in> set vs
      | QStrings vs \<Rightarrow> vs = [fst row]
      | QTime _ \<Rightarrow> True)"

theorem list_queries_select_witness:
  "case GetRecommendationSets True 10 ''org1''
      \<lparr>Limit = 10, Offset = 0, OrderBy = DefaultContainerRecsDBColumn, OrderHow = ''desc'', Format = ''json''\<rparr>
      [] [(''openshift.cluster'', [''c1''])] of
    Inr (_, q) \<Rightarrow> selects triple_sat q (''org1'', ''c1'', ''p'') \<and> \<not> selects triple_sat q (''org2'', ''c1'', ''p'')
      \<and> \<not> selects triple_sat q (''org1'', ''c2'', ''p'')
  | Inl _ \<Rightarrow> False"
proof -
  have s: "row_semantics triple_sat fst (\<lambda>r. fst (snd r)) (\<lambda>r. snd (snd r)) rt"
    if "rt = ResourceContainer \<or> rt = ResourceProject" for rt
    using that by (auto simp: row_semantics_def in_clause_semantics_def triple_sat_def project_filter_def org_clause_def)
  define m where "m = [(''openshift.cluster'', [''c1''])]"
  define R where "R = GetRecommendationSets True 10 ''org1''
      \<lparr>Limit = 10, Offset = 0, OrderBy = DefaultContainerRecsDBColumn, OrderHow = ''desc'', Format = ''json''\<rparr> [] m"
  have "case R of
      Inr (cq, q) \<Rightarrow> \<forall>row. selects triple_sat q row = (fst row = ''org1'' \<and> policy_allows m (fst (snd row)) (snd (snd row))
          \<and> list_all (\<lambda>c. triple_sat c row) []) \<and> selects triple_sat cq row = selects triple_sat q row
    | Inl _ \<Rightarrow> False"
    unfolding R_def
    by (rule list_queries_select [OF s [OF disjI1 [OF refl]] s [OF disjI2 [OF refl]], THEN conjunct1])
  then obtain cq q where "R = Inr (cq, q)"
    "selects triple_sat q row = (fst row = ''org1'' \<and> policy_allows m (fst (snd row)) (snd (snd row)))" for row
    by (cases R) auto
  moreover have "policy_allows m ''c1'' ''p''" "\<not> policy_allows m ''c2'' ''p''"
    by (simp_all add: m_def policy_allows_def dimension_allows_def)
  ultimately show ?thesis unfolding R_def [symmetric] m_def [symmetric] by simp
qed

text \<open>Whatever the configuration, the permissions and the request, every read query the handlers
  issue carries the condition on the caller's organisation.\<close>

theorem queries_are_tenant_scoped:
  "list_all (query_scoped (''rh_accounts.org_id = ?'', QStrings [org]))
     [map_sum id fst (GetRecommendationSets rbac n org opts params m),
      map_sum id snd (GetRecommendationSets rbac n org opts params m), GetRecommendationSetByID rbac org rid m]
   \<and> list_all (query_scoped (''namespace_recommendation_sets.org_id = ?'', QStrings [org]))
     [map_sum id fst (GetNamespaceRecommendationSets rbac n org opts params m),
      map_sum id snd (GetNamespaceRecommendationSets rbac n org opts params m),
      GetNamespaceRecommendationSetByID rbac org rid m]"
proof -
  have org: "(''rh_accounts.org_id = ?'', QStrings [org]) \<in> set (q_where (getRecommendationQuery org))"
    "(''namespace_recommendation_sets.org_id = ?'', QStrings [org]) \<in> set (q_where (getNamespaceRecommendationQuery org))"
    by (simp_all add: getRecommendationQuery_def getNamespaceRecommendationQuery_def)
  have l: "query_scoped c (map_sum id fst (list_query base rt o1 rbac n opts params m))
      \<and> query_scoped c (map_sum id snd (list_query base rt o1 rbac n opts params m))" if "c \<in> set (q_where base)" for c base rt o1
    using list_query_keeps [OF _ that]
    by (cases "list_query base rt o1 rbac n opts params m") (auto simp: query_scoped_def)
  have b: "query_scoped c (by_id_query base ic rt rbac rid m)" if "c \<in> set (q_where base)" for c base rt ic
    using by_id_query_keeps [OF _ that]
    by (cases "by_id_query base ic rt rbac rid m") (auto simp: query_scoped_def)
  show ?thesis
    unfolding GetRecommendationSets_def GetNamespaceRecommendationSets_def GetRecommendationSetByID_def
      GetNamespaceRecommendationSetByID_def
    using l [OF org(1)] l [OF org(2)] b [OF org(1)] b [OF org(2)] by simp
qed

end
