(* ===== verification/Payloads.thy ===== *)
theory Payloads
  imports KruizeTypes Dates FormatFloat
begin

text \<open>
  \<open>internal/types/kruizePayload\<close>: the payloads sent to Kruize.  A row of the report is what gota's
  \<open>Maps()\<close> returns, a map from a column name to a float, an int, a string or nil.  Grouping the rows by
  \<open>interval_end\<close> is gota's, so the groups are an argument.

  An unchecked type assertion that fails, or the first row of an empty group, makes the source panic:
  the functions return \<open>None\<close> then.  The metrics of a row are built by ranging over a Go map, whose order is
  unspecified; the model takes the order in which the source writes the map.
\<close>

datatype cell = CFloat f64 | CInt int | CStr string | CBool bool | CNil

type_synonym row = "(string \<times> cell) list"

definition cell_at :: "row \<Rightarrow> string \<Rightarrow> cell" where
  "cell_at r k = (case map_of r k of Some v \<Rightarrow> v | None \<Rightarrow> CNil)"

text \<open>\<open>r[k].(string)\<close>, unchecked.\<close>

definition str_cell :: "row \<Rightarrow> string \<Rightarrow> string option" where
  "str_cell r k = (case cell_at r k of CStr s \<Rightarrow> Some s | _ \<Rightarrow> None)"

fun AssertAndConvertToString :: "cell \<Rightarrow> string" where
  "AssertAndConvertToString (CFloat v) = format_float v"
| "AssertAndConvertToString (CInt i) = itoa i"
| "AssertAndConvertToString (CStr s) = s"
| "AssertAndConvertToString _ = []"

section \<open>Metrics\<close>

text \<open>The maps from a metric to its columns.  A missing aggregation is an empty string.\<close>

type_synonym metric_fields = "(string \<times> string) list"

definition container_metrics_map :: "(string \<times> metric_fields) list" where
  "container_metrics_map =
     [(''cpuRequest'', [(''sum'', ''cpu_request_container_sum_SUM''), (''avg'', ''cpu_request_container_avg_MEAN''), (''format'', ''cores'')]),
      (''cpuLimit'', [(''sum'', ''cpu_limit_container_sum_SUM''), (''avg'', ''cpu_limit_container_avg_MEAN''), (''format'', ''cores'')]),
      (''cpuUsage'', [(''sum'', ''cpu_usage_container_sum_SUM''), (''avg'', ''cpu_usage_container_avg_MEAN''),
         (''min'', ''cpu_usage_container_min_MIN''), (''max'', ''cpu_usage_container_max_MAX''), (''format'', ''cores'')]),
      (''cpuThrottle'', [(''sum'', ''cpu_throttle_container_sum_SUM''), (''avg'', ''cpu_throttle_container_avg_MEAN''),
         (''max'', ''cpu_throttle_container_max_MAX''), (''format'', ''cores'')]),
      (''memoryRequest'', [(''sum'', ''memory_request_container_sum_SUM''), (''avg'', ''memory_request_container_avg_MEAN''), (''format'', ''bytes'')]),
      (''memoryLimit'', [(''sum'', ''memory_limit_container_sum_SUM''), (''avg'', ''memory_limit_container_avg_MEAN''), (''format'', ''bytes'')]),
      (''memoryUsage'', [(''sum'', ''memory_usage_container_sum_SUM''), (''avg'', ''memory_usage_container_avg_MEAN''),
         (''min'', ''memory_usage_container_min_MIN''), (''max'', ''memory_usage_container_max_MAX''), (''format'', ''bytes'')]),
      (''memoryRSS'', [(''sum'', ''memory_rss_usage_container_sum_SUM''), (''avg'', ''memory_rss_usage_container_avg_MEAN''),
         (''min'', ''memory_rss_usage_container_min_MIN''), (''max'', ''memory_rss_usage_container_max_MAX''), (''format'', ''bytes'')])]"

definition namespace_metrics_map :: "(string \<times> metric_fields) list" where
  "namespace_metrics_map =
     [(''namespaceCpuRequest'', [(''sum'', ''cpu_request_namespace_sum_SUM''), (''format'', ''cores'')]),
      (''namespaceCpuLimit'', [(''sum'', ''cpu_limit_namespace_sum_SUM''), (''format'', ''cores'')]),
      (''namespaceCpuUsage'', [(''avg'', ''cpu_usage_namespace_avg_MEAN''), (''min'', ''cpu_usage_namespace_min_MIN''),
         (''max'', ''cpu_usage_namespace_max_MAX''), (''format'', ''cores'')]),
      (''namespaceCpuThrottle'', [(''avg'', ''cpu_throttle_namespace_avg_MEAN''), (''min'', ''cpu_throttle_namespace_min_MIN''),
         (''max'', ''cpu_throttle_namespace_max_MAX''), (''format'', ''cores'')]),
      (''namespaceMemoryRequest'', [(''sum'', ''memory_request_namespace_sum_SUM''), (''format'', ''bytes'')]),
      (''namespaceMemoryLimit'', [(''sum'', ''memory_limit_namespace_sum_SUM''), (''format'', ''bytes'')]),
      (''namespaceMemoryUsage'', [(''avg'', ''memory_usage_namespace_avg_MEAN''), (''min'', ''memory_usage_namespace_min_MIN''),
         (''max'', ''memory_usage_namespace_max_MAX''), (''format'', ''bytes'')]),
      (''namespaceMemoryRSS'', [(''avg'', ''memory_rss_usage_namespace_avg_MEAN''), (''min'', ''memory_rss_usage_namespace_min_MIN''),
         (''max'', ''memory_rss_usage_namespace_max_MAX''), (''format'', ''bytes'')]),
      (''namespaceTotalPods'', [(''avg'', ''namespace_total_pods_avg_MEAN''), (''max'', ''namespace_total_pods_max_MAX'')]),
      (''namespaceRunningPods'', [(''avg'', ''namespace_running_pods_avg_MEAN''), (''max'', ''namespace_running_pods_max_MAX'')])]"

definition field_value :: "row \<Rightarrow> metric_fields \<Rightarrow> string \<Rightarrow> string" where
  "field_value c mfs k =
     (case map_of mfs k of Some col \<Rightarrow> AssertAndConvertToString (cell_at c col) | None \<Rightarrow> [])"

definition metric_of :: "row \<Rightarrow> string \<times> metric_fields \<Rightarrow> Metric" where
  "metric_of c mf =
     \<lparr>mt_name = fst mf, mt_results =
        \<lparr>ad_min = field_value c (snd mf) ''min'', ad_max = field_value c (snd mf) ''max'',
         ad_sum = field_value c (snd mf) ''sum'', ad_avg = field_value c (snd mf) ''avg'',
         ad_format = (case map_of (snd mf) ''format'' of Some f \<Rightarrow> f | None \<Rightarrow> [])\<rparr>\<rparr>"

definition container_metrics :: "row \<Rightarrow> Metric list" where
  "container_metrics c =
     filter (\<lambda>m. ad_sum (mt_results m) \<noteq> [] \<and> ad_avg (mt_results m) \<noteq> []) (map (metric_of c) container_metrics_map)"

definition make_container_data :: "row \<Rightarrow> container option" where
  "make_container_data c =
     (case (str_cell c ''image_name'', str_cell c ''container_name'') of
        (Some img, Some name) \<Rightarrow>
          Some \<lparr>ct_image_name = img, ct_name = name, ct_metrics = container_metrics c,
                ct_recommendations = zero_recommendation\<rparr>
      | _ \<Rightarrow> None)"

definition makeNamespaceMetrics :: "row \<Rightarrow> Metric list" where
  "makeNamespaceMetrics c =
     filter (\<lambda>m. ad_sum (mt_results m) \<noteq> [] \<or> ad_avg (mt_results m) \<noteq> [] \<or> ad_min (mt_results m) \<noteq> [] \<or> ad_max (mt_results m) \<noteq> [])
       (map (metric_of c) namespace_metrics_map)"

section \<open>Creating experiments\<close>

record TrialSettings =
  ts_measurement_duration :: string

record RecommendationSettings =
  rs_threshold :: string

record createExperiment =
  ce_version :: string
  ce_experiment_name :: string
  ce_cluster_name :: string
  ce_performance_profile :: string
  ce_mode :: string
  ce_target_cluster :: string
  ce_kubernetes_objects :: "kubernetesObject list"
  ce_trial_settings :: TrialSettings
  ce_recommendation_settings :: RecommendationSettings

definition GetCreateExperimentPayload ::
  "string \<Rightarrow> string \<Rightarrow> (string \<times> string) list \<Rightarrow> string \<Rightarrow> string \<Rightarrow> string \<Rightarrow> createExperiment list" where
  "GetCreateExperimentPayload experiment_name cluster_identifier containers namespace k8s_object_type k8s_object_name =
     [\<lparr>ce_version = ''1.0'', ce_experiment_name = experiment_name, ce_cluster_name = cluster_identifier,
       ce_performance_profile = ''resource-optimization-openshift'', ce_mode = ''monitor'', ce_target_cluster = ''remote'',
       ce_kubernetes_objects =
         [\<lparr>ko_type = k8s_object_type, ko_name = k8s_object_name, ko_namespace = namespace,
           ko_containers = map (\<lambda>(name, img). \<lparr>ct_image_name = img, ct_name = name, ct_metrics = [],
             ct_recommendations = zero_recommendation\<rparr>) containers\<rparr>],
       ce_trial_settings = \<lparr>ts_measurement_duration = ''15min''\<rparr>,
       ce_recommendation_settings = \<lparr>rs_threshold = ''0.1''\<rparr>\<rparr>]"

record CreateNamespaceExperimentPayload =
  cn_version :: string
  cn_experiment_name :: string
  cn_cluster_name :: string
  cn_performance_profile :: string
  cn_mode :: string
  cn_target_cluster :: string
  cn_experiment_type :: string
  cn_kubernetes_objects :: "NamespaceKubernetesObject list"
  cn_trial_settings :: TrialSettings
  cn_recommendation_settings :: RecommendationSettings

definition GetCreateNamespaceExperimentPayload ::
  "string \<Rightarrow> string \<Rightarrow> string \<Rightarrow> string \<Rightarrow> CreateNamespaceExperimentPayload list" where
  "GetCreateNamespaceExperimentPayload profileVersion experiment_name cluster_identifier namespace =
     [\<lparr>cn_version = profileVersion, cn_experiment_name = experiment_name, cn_cluster_name = cluster_identifier,
       cn_performance_profile = ''resource-optimization-openshift'', cn_mode = ''monitor'', cn_target_cluster = ''remote'',
       cn_experiment_type = ''namespace'',
       cn_kubernetes_objects =
         [\<lparr>nk_namespace = [], nk_containers = [],
           nk_namespaces = \<lparr>no_namespace = namespace, no_recommendations = zero_recommendation\<rparr>\<rparr>],
       cn_trial_settings = \<lparr>ts_measurement_duration = ''15min''\<rparr>,
       cn_recommendation_settings = \<lparr>rs_threshold = ''0.1''\<rparr>\<rparr>]"

section \<open>Updating results\<close>

record UpdateResult =
  ur_version :: string
  ur_experiment_name :: string
  ur_interval_start_time :: string
  ur_interval_end_time :: string
  ur_kubernetes_objects :: "kubernetesObject list"

record NamespaceMetrics =
  nm_namespace :: string
  nm_metrics :: "Metric list"

record NamespaceK8SObjectUpdateResult =
  nr_namespaces :: NamespaceMetrics

record UpdateNamespaceResult =
  un_version :: string
  un_experiment_name :: string
  un_interval_start_time :: string
  un_interval_end_time :: string
  un_kubernetes_objects :: "NamespaceK8SObjectUpdateResult list"

record ErrorData =
  er_message :: string

record UpdateResponseData =
  ud_errors :: "ErrorData list"

record UpdateResultResponse =
  ur_message :: string
  ur_data :: "UpdateResponseData list"

text \<open>All containers of a group, or a panic.\<close>

fun containers_of :: "row list \<Rightarrow> container list option" where
  "containers_of [] = Some []"
| "containers_of (c # cs) =
     (case make_container_data c of
        None \<Rightarrow> None
      | Some d \<Rightarrow> map_option (\<lambda>ds. d # ds) (containers_of cs))"

text \<open>The ISO forms of a group's interval; \<open>Some None\<close> when one of them cannot be parsed (the group is
  skipped), \<open>None\<close> for a panic.\<close>

definition iso_cell :: "row \<Rightarrow> string \<Rightarrow> string option option" where
  "iso_cell r k =
     map_option (\<lambda>s. case ConvertDateToISO8601 s of Inr isoText \<Rightarrow> Some isoText | Inl _ \<Rightarrow> None) (str_cell r k)"

text \<open>One iteration of the loop of \<open>GetUpdateResultPayload\<close>.\<close>

definition update_result_of :: "string \<Rightarrow> row list \<Rightarrow> UpdateResult option option" where
  "update_result_of experiment_name k8s_object =
     (case k8s_object of
        [] \<Rightarrow> None
      | first # _ \<Rightarrow>
         (case (str_cell first ''k8s_object_type'', str_cell first ''k8s_object_name'') of
            (Some objType, Some objName) \<Rightarrow>
              (case iso_cell first ''interval_start'' of
                 None \<Rightarrow> None
               | Some None \<Rightarrow> Some None
               | Some (Some intervalStart) \<Rightarrow>
                   (case iso_cell first ''interval_end'' of
                      None \<Rightarrow> None
                    | Some None \<Rightarrow> Some None
                    | Some (Some intervalEnd) \<Rightarrow>
                        map_option (\<lambda>cs. Some
                          \<lparr>ur_version = ''1.0'', ur_experiment_name = experiment_name,
                           ur_interval_start_time = intervalStart, ur_interval_end_time = intervalEnd,
                           ur_kubernetes_objects =
                             [\<lparr>ko_type = objType, ko_name = objName,
                               ko_namespace = AssertAndConvertToString (cell_at first ''namespace''), ko_containers = cs\<rparr>]\<rparr>)
                          (containers_of k8s_object)))
          | _ \<Rightarrow> None))"

fun collect_results :: "('g \<Rightarrow> 'r option option) \<Rightarrow> 'g list \<Rightarrow> 'r list option" where
  "collect_results f [] = Some []"
| "collect_results f (g # gs) =
     (case f g of
        None \<Rightarrow> None
      | Some None \<Rightarrow> collect_results f gs
      | Some (Some r) \<Rightarrow> map_option (\<lambda>rs. r # rs) (collect_results f gs))"

text \<open>\<open>GetUpdateResultPayload\<close> on the groups of the rows by \<open>interval_end\<close>.\<close>

definition GetUpdateResultPayload :: "string \<Rightarrow> row list list \<Rightarrow> UpdateResult list option" where
  "GetUpdateResultPayload experiment_name groups = collect_results (update_result_of experiment_name) groups"

definition namespace_result_of :: "string \<Rightarrow> string \<Rightarrow> row list \<Rightarrow> UpdateNamespaceResult option option" where
  "namespace_result_of profileVersion experiment_name k8s_object =
     (case k8s_object of
        [] \<Rightarrow> None
      | r # _ \<Rightarrow>
         (case iso_cell r ''interval_start'' of
            None \<Rightarrow> None
          | Some None \<Rightarrow> Some None
          | Some (Some intervalStart) \<Rightarrow>
              (case iso_cell r ''interval_end'' of
                 None \<Rightarrow> None
               | Some None \<Rightarrow> Some None
               | Some (Some intervalEnd) \<Rightarrow>
                   Some (Some \<lparr>un_version = profileVersion, un_experiment_name = experiment_name,
                     un_interval_start_time = intervalStart, un_interval_end_time = intervalEnd,
                     un_kubernetes_objects =
                       [\<lparr>nr_namespaces =
                          \<lparr>nm_namespace = AssertAndConvertToString (cell_at r ''namespace''),
                           nm_metrics = makeNamespaceMetrics r\<rparr>\<rparr>]\<rparr>))))"

definition GetUpdateNamespaceResultPayload ::
  "string \<Rightarrow> string \<Rightarrow> row list list \<Rightarrow> UpdateNamespaceResult list option" where
  "GetUpdateNamespaceResultPayload profileVersion experiment_name groups =
     collect_results (namespace_result_of profileVersion experiment_name) groups"

section \<open>Names\<close>

definition GenerateExperimentName :: "string \<Rightarrow> string \<Rightarrow> string \<Rightarrow> string \<Rightarrow> string \<Rightarrow> string \<Rightarrow> string" where
  "GenerateExperimentName org_id source_id cluster_id namespace k8s_object_type k8s_object_name =
     join ''|'' [org_id, source_id, cluster_id, namespace, k8s_object_type, k8s_object_name]"

definition GenerateNamespaceExperimentName :: "string \<Rightarrow> string \<Rightarrow> string \<Rightarrow> string \<Rightarrow> string" where
  "GenerateNamespaceExperimentName org_id source_id cluster_id namespace =
     join ''|'' [org_id, source_id, cluster_id, ''namespace'', namespace]"

section \<open>Facts\<close>

text \<open>What a payload's entries hold: the two times can be read back, since they were written from dates.\<close>

lemma collect_results_Some:
  "collect_results f gs = Some rs \<Longrightarrow> r \<in> set rs \<Longrightarrow> \<exists>g \<in> set gs. f g = Some (Some r)"
  by (induction gs arbitrary: rs) (auto split: option.split_asm)

lemma iso_cell_read:
  assumes "iso_cell r k = Some (Some isoText)"
  shows "\<exists>s t u. str_cell r k = Some s \<and> ConvertStringToTime s = Inr t \<and> ConvertISO8601StringToTime isoText = Inr u
    \<and> t_ns u = wall_ns t - wall_ns t mod 1000000"
proof -
  from assms obtain s where s: "str_cell r k = Some s" "ConvertDateToISO8601 s = Inr isoText"
    by (auto simp: iso_cell_def map_option_case split: option.split_asm sum.split_asm)
  then obtain t where t: "parse_interval s = Some t" "isoText = fmt_iso t"
    by (auto simp: ConvertDateToISO8601_def split: option.split_asm)
  then have "ConvertStringToTime s = Inr t" by (simp add: ConvertStringToTime_def)
  with s iso_roundtrip [OF this] show ?thesis by auto
qed

lemma join_split_inj:
  assumes "CHR ''|'' \<notin> set a" "CHR ''|'' \<notin> set b" "a @ CHR ''|'' # r = b @ CHR ''|'' # s"
  shows "a = b \<and> r = s"
proof -
  have t: "takeWhile (\<lambda>x. x \<noteq> CHR ''|'') (c @ CHR ''|'' # u) = c" "dropWhile (\<lambda>x. x \<noteq> CHR ''|'') (c @ CHR ''|'' # u) = CHR ''|'' # u"
    if "CHR ''|'' \<notin> set c" for c u
    using that by (induction c) auto
  from t [OF assms(1), of r] t [OF assms(2), of s] assms(3) show ?thesis by simp
qed

lemma join_split_iff:
  "CHR ''|'' \<notin> set a \<Longrightarrow> CHR ''|'' \<notin> set b \<Longrightarrow>
    (a @ CHR ''|'' # r = b @ CHR ''|'' # s) = (a = b \<and> r = s)"
  using join_split_inj by blast

lemma no_split_eq: "CHR ''|'' \<notin> set b \<Longrightarrow> a @ CHR ''|'' # r \<noteq> b"
  by auto

lemma experiment_names:
  assumes "list_all (\<lambda>s. CHR ''|'' \<notin> set s) [org, src, cl, ns, ty, org', src', cl', ns', ty', nm']"
  shows "(GenerateExperimentName org src cl ns ty nm = GenerateExperimentName org' src' cl' ns' ty' nm') =
      ([org, src, cl, ns, ty, nm] = [org', src', cl', ns', ty', nm'])
    \<and> GenerateExperimentName org src cl ns ty nm \<noteq> GenerateNamespaceExperimentName org' src' cl' nm'"
proof -
  have n: "CHR ''|'' \<notin> set org" "CHR ''|'' \<notin> set src" "CHR ''|'' \<notin> set cl" "CHR ''|'' \<notin> set ns" "CHR ''|'' \<notin> set ty"
    "CHR ''|'' \<notin> set org'" "CHR ''|'' \<notin> set src'" "CHR ''|'' \<notin> set cl'" "CHR ''|'' \<notin> set ns'" "CHR ''|'' \<notin> set ty'"
    "CHR ''|'' \<notin> set nm'"
    using assms by simp_all
  define nsp where "nsp = ''namespace''"
  then have m: "CHR ''|'' \<notin> set nsp" by simp
  show ?thesis
    unfolding GenerateExperimentName_def GenerateNamespaceExperimentName_def join.simps nsp_def [symmetric]
    by (simp only: append.simps join_split_iff n m not_False_eq_True list.inject no_split_eq [OF n(11)] simp_thms)
qed

text \<open>Two workloads have the same experiment name only if they agree in all six parts, unless a part
  before the last holds the separator; a namespace's experiment is never a workload's.\<close>

theorem GenerateExperimentName_inj:
  assumes "list_all (\<lambda>s. CHR ''|'' \<notin> set s) [org, src, cl, ns, ty, org', src', cl', ns', ty', nm']"
  shows "(GenerateExperimentName org src cl ns ty nm = GenerateExperimentName org' src' cl' ns' ty' nm') =
      ([org, src, cl, ns, ty, nm] = [org', src', cl', ns', ty', nm'])
    \<and> GenerateExperimentName org src cl ns ty nm \<noteq> GenerateNamespaceExperimentName org' src' cl' nm'"
  using assms by (rule experiment_names)

theorem GenerateExperimentName_inj_witness:
  "(GenerateExperimentName ''3340851'' ''1'' ''c'' ''ns'' ''deployment'' ''web|1''
      = GenerateExperimentName ''3340851'' ''1'' ''c'' ''ns'' ''deployment'' ''web'') = False
   \<and> GenerateExperimentName ''3340851'' ''1'' ''c'' ''ns'' ''deployment'' ''web|1''
      \<noteq> GenerateNamespaceExperimentName ''3340851'' ''1'' ''c'' ''web''"
  using GenerateExperimentName_inj [of "''3340851''" "''1''" "''c''" "''ns''" "''deployment''"
      "''3340851''" "''1''" "''c''" "''ns''" "''deployment''" "''web''" "''web|1''"]
  by simp

text \<open>The columns the container payload asserts to be strings.\<close>

definition asserted_columns :: "string list" where
  "asserted_columns = [''image_name'', ''container_name'', ''k8s_object_type'', ''k8s_object_name'', ''interval_start'', ''interval_end'']"

definition string_row :: "row \<Rightarrow> bool" where
  "string_row r = list_all (\<lambda>k. str_cell r k \<noteq> None) asserted_columns"

lemma string_rowD: "string_row r \<Longrightarrow> k \<in> set asserted_columns \<Longrightarrow> \<exists>s. str_cell r k = Some s"
  by (auto simp: string_row_def list_all_iff)

text \<open>Whether both times of a group's first row can be parsed.\<close>

definition dated :: "row list \<Rightarrow> bool" where
  "dated g = list_all (\<lambda>k. case str_cell (hd g) k of
       Some s \<Rightarrow> (case ConvertStringToTime s of Inr _ \<Rightarrow> True | Inl _ \<Rightarrow> False) | None \<Rightarrow> False)
     [''interval_start'', ''interval_end'']"

lemma convert_iff: "(\<exists>x. ConvertDateToISO8601 s = Inr x) = (\<exists>t. ConvertStringToTime s = Inr t)"
  by (auto simp: ConvertDateToISO8601_def ConvertStringToTime_def split: option.splits)

lemma iso_cell_dated:
  assumes "str_cell r k = Some s"
  shows "iso_cell r k = (case ConvertDateToISO8601 s of Inr x \<Rightarrow> Some (Some x) | Inl _ \<Rightarrow> Some None)"
  using assms by (simp add: iso_cell_def split: sum.split)

lemma str_cell_text: "str_cell r k = Some s \<Longrightarrow> s = AssertAndConvertToString (cell_at r k)"
  by (auto simp: str_cell_def split: cell.split_asm)

definition complete_metrics :: "Metric list \<Rightarrow> bool" where
  "complete_metrics ms = list_all (\<lambda>m. ad_sum (mt_results m) \<noteq> [] \<and> ad_avg (mt_results m) \<noteq> []) ms"

text \<open>What the payload says of a group: each of its containers, with complete metrics only, and times that
  read back as the times of the first row, to the millisecond.\<close>

definition describes_group :: "row list \<Rightarrow> UpdateResult \<Rightarrow> bool" where
  "describes_group g r =
     (map ct_name (concat (map ko_containers (ur_kubernetes_objects r)))
        = map (\<lambda>c. AssertAndConvertToString (cell_at c ''container_name'')) g
      \<and> list_all (\<lambda>c. complete_metrics (ct_metrics c)) (concat (map ko_containers (ur_kubernetes_objects r)))
      \<and> list_all (\<lambda>(col, out). case (ConvertStringToTime (AssertAndConvertToString (cell_at (hd g) col)), ConvertISO8601StringToTime out) of
            (Inr t, Inr u) \<Rightarrow> t_ns u = wall_ns t - wall_ns t mod 1000000 | _ \<Rightarrow> False)
          [(''interval_start'', ur_interval_start_time r), (''interval_end'', ur_interval_end_time r)])"

lemma make_container_data_string:
  assumes "string_row c"
  shows "\<exists>d. make_container_data c = Some d \<and> ct_name d = AssertAndConvertToString (cell_at c ''container_name'')
    \<and> complete_metrics (ct_metrics d)"
proof -
  from string_rowD [OF assms] obtain i n where "str_cell c ''image_name'' = Some i" "str_cell c ''container_name'' = Some n"
    by (force simp: asserted_columns_def)
  moreover from this(2) have "n = AssertAndConvertToString (cell_at c ''container_name'')" by (rule str_cell_text)
  ultimately show ?thesis
    by (simp add: make_container_data_def container_metrics_def complete_metrics_def list_all_iff)
qed

lemma containers_of_string:
  "list_all string_row g \<Longrightarrow> \<exists>ds. containers_of g = Some ds
     \<and> map ct_name ds = map (\<lambda>c. AssertAndConvertToString (cell_at c ''container_name'')) g
     \<and> list_all (\<lambda>d. complete_metrics (ct_metrics d)) ds"
proof (induction g)
  case (Cons c g)
  with make_container_data_string [of c] show ?case by fastforce
qed simp

lemma iso_cell_string:
  assumes "string_row r" "k \<in> set asserted_columns"
  shows "\<exists>s. str_cell r k = Some s \<and> iso_cell r k = (case ConvertDateToISO8601 s of Inr x \<Rightarrow> Some (Some x) | Inl _ \<Rightarrow> Some None)"
  using string_rowD [OF assms] iso_cell_dated by blast

lemma update_result_of_string:
  assumes "g \<noteq> []" "list_all string_row g"
  shows "if dated g then \<exists>r. update_result_of n g = Some (Some r) \<and> describes_group g r \<and> ur_experiment_name r = n
    else update_result_of n g = Some None"
proof -
  from assms obtain c cs where g: "g = c # cs" "string_row c" by (cases g) auto
  have cols: "''k8s_object_type'' \<in> set asserted_columns" "''k8s_object_name'' \<in> set asserted_columns"
    "''interval_start'' \<in> set asserted_columns" "''interval_end'' \<in> set asserted_columns"
    by (simp_all add: asserted_columns_def)
  obtain ty nm where o: "str_cell c ''k8s_object_type'' = Some ty" "str_cell c ''k8s_object_name'' = Some nm"
    using string_rowD [OF g(2)] cols by blast
  obtain a b where ab: "str_cell c ''interval_start'' = Some a" "str_cell c ''interval_end'' = Some b"
    using string_rowD [OF g(2)] cols by blast
  note t = iso_cell_dated [OF ab(1)] iso_cell_dated [OF ab(2)]
  obtain ds where ds: "containers_of (c # cs) = Some ds"
    "map ct_name ds = map (\<lambda>c. AssertAndConvertToString (cell_at c ''container_name'')) (c # cs)"
    "list_all (\<lambda>d. complete_metrics (ct_metrics d)) ds"
    using containers_of_string [OF assms(2)] g(1) by blast
  have d: "dated g = ((\<exists>x. ConvertDateToISO8601 a = Inr x) \<and> (\<exists>y. ConvertDateToISO8601 b = Inr y))"
    by (auto simp: dated_def g ab convert_iff split: sum.splits)
  show ?thesis
  proof (cases "dated g")
    case False
    with d t o show ?thesis by (auto simp: update_result_of_def g(1) split: sum.splits)
  next
    case True
    with d obtain x y where xy: "ConvertDateToISO8601 a = Inr x" "ConvertDateToISO8601 b = Inr y" by blast
    with t have i: "iso_cell c ''interval_start'' = Some (Some x)" "iso_cell c ''interval_end'' = Some (Some y)" by simp_all
    from iso_cell_read [OF i(1)] iso_cell_read [OF i(2)] ab show ?thesis
      using True ds by (auto simp: update_result_of_def g(1) o i describes_group_def dest!: str_cell_text)
  qed
qed

lemma collect_results_string:
  assumes "list_all (\<lambda>g. g \<noteq> [] \<and> list_all string_row g) groups"
  shows "\<exists>rs. GetUpdateResultPayload n groups = Some rs \<and> map ur_experiment_name rs = map (\<lambda>_. n) rs
    \<and> list_all2 describes_group (filter dated groups) rs"
  using assms
proof (induction groups)
  case (Cons g gs)
  then obtain rs where rs: "GetUpdateResultPayload n gs = Some rs" "map ur_experiment_name rs = map (\<lambda>_. n) rs"
    "list_all2 describes_group (filter dated gs) rs" by auto
  from Cons.prems have "g \<noteq> []" "list_all string_row g" by auto
  note u = update_result_of_string [OF this, of n]
  show ?case
  proof (cases "dated g")
    case True
    with u obtain r where "update_result_of n g = Some (Some r)" "describes_group g r" "ur_experiment_name r = n" by auto
    with True rs show ?thesis by (simp add: GetUpdateResultPayload_def)
  next
    case False
    with u rs show ?thesis by (simp add: GetUpdateResultPayload_def)
  qed
qed (simp add: GetUpdateResultPayload_def)

text \<open>C25: If every row has its string columns, building the payload never panics; a group is left out exactly when
  a time of its first row cannot be parsed, and the others are described in order.\<close>

theorem GetUpdateResultPayload_describes:
  assumes "list_all (\<lambda>g. g \<noteq> [] \<and> list_all string_row g) groups"
  shows "\<exists>rs. GetUpdateResultPayload n groups = Some rs \<and> map ur_experiment_name rs = map (\<lambda>_. n) rs
    \<and> list_all2 describes_group (filter dated groups) rs"
  using assms by (rule collect_results_string)

definition sample_row :: "string \<Rightarrow> row" where
  "sample_row e = [(''image_name'', CStr ''quay.io/web''), (''container_name'', CStr ''web''), (''k8s_object_type'', CStr ''deployment''),
     (''k8s_object_name'', CStr ''web''), (''namespace'', CStr ''ns''),
     (''interval_start'', CStr ''2023-03-31 23:00:01 +0000 UTC''), (''interval_end'', CStr e),
     (''cpu_request_container_sum_SUM'', CFloat (Num 2))]"

theorem GetUpdateResultPayload_describes_witness:
  "list_all2 describes_group
     (filter dated [[sample_row ''2023-03-31 23:15:00 +0000 UTC''], [sample_row ''yesterday'']])
     (the (GetUpdateResultPayload ''exp'' [[sample_row ''2023-03-31 23:15:00 +0000 UTC''], [sample_row ''yesterday'']]))"
  using GetUpdateResultPayload_describes [of "[[sample_row ''2023-03-31 23:15:00 +0000 UTC''], [sample_row ''yesterday'']]" "''exp''"]
  by (auto simp: string_row_def asserted_columns_def str_cell_def cell_at_def sample_row_def)

end
