(* ===== verification/Store.thy ===== *)
theory Store
  imports Payloads ColumnValues
begin

text \<open>
  \<open>internal/model\<close>: the rows the services write and the conflict clause of each \<open>Create\<close>.  A table is the
  list of its rows; \<open>upsert\<close> is the documented behaviour of \<open>INSERT .. ON CONFLICT (columns) DO UPDATE SET\<close>
  (or \<open>DO NOTHING\<close>), with the conflict columns as the key.  Primary keys, which the database assigns, and the timestamps
  that no conflict clause updates (\<open>created_at\<close>, and those of the namespaces' history) are left out of the rows.  Stored JSON is
  kept as its text.

  The locale \<open>keyed_table\<close> is the contract of a conflict clause; every clause of the source is an instance, and
  from it follow the uniqueness of the keys, what a row is after an insert, and that repeating a batch changes
  nothing.  The redelivery of a Kafka message repeats a batch but for \<open>updated_at\<close>, which gorm takes from the clock each time.
\<close>

section \<open>Rows\<close>

record RHAccount =
  ac_account :: string
  ac_org_id :: string

record Cluster =
  cl_tenant_id :: nat
  cl_source_id :: string
  cl_uuid :: string
  cl_alias :: string
  cl_last_reported :: gotime

record Workload =
  wl_org_id :: string
  wl_cluster_id :: nat
  wl_experiment_name :: string
  wl_namespace :: string
  wl_type :: string
  wl_name :: string
  wl_containers :: "string list"
  wl_metrics_upload_at :: gotime

record WorkloadMetrics =
  wm_org_id :: string
  wm_workload_id :: nat
  wm_container_name :: string
  wm_namespace_name :: string
  wm_metric_type :: string
  wm_interval_start :: gotime
  wm_interval_end :: gotime
  wm_usage_metrics :: "Metric list"

record RecommendationSet =
  rset_workload_id :: nat
  rset_container :: string
  rset_columns :: RecommendationColumnValues
  rset_start :: gotime
  rset_end :: gotime
  rset_recommendations :: string
  rset_updated_at :: gotime

record HistoricalRecommendationSet =
  hist_org_id :: string
  hist_workload_id :: nat
  hist_container :: string
  hist_start :: gotime
  hist_end :: gotime
  hist_recommendations :: string
  hist_updated_at :: gotime

record NamespaceRecommendationSet =
  nset_org_id :: string
  nset_workload_id :: nat
  nset_namespace :: string
  nset_columns :: RecommendationColumnValues
  nset_start :: gotime
  nset_end :: gotime
  nset_recommendations :: string
  nset_updated_at :: gotime

record HistoricalNamespaceRecommendationSet =
  nhist_org_id :: string
  nhist_workload_id :: nat
  nhist_namespace :: string
  nhist_start :: gotime
  nhist_end :: gotime
  nhist_recommendations :: string

section \<open>Conflict clauses\<close>

fun upsert :: "('r \<Rightarrow> 'k) \<Rightarrow> ('r \<Rightarrow> 'r \<Rightarrow> 'r) \<Rightarrow> 'r \<Rightarrow> 'r list \<Rightarrow> 'r list" where
  "upsert key merge r [] = [r]"
| "upsert key merge r (x # xs) = (if key x = key r then merge x r # xs else x # upsert key merge r xs)"

definition insert_all :: "('r \<Rightarrow> 'k) \<Rightarrow> ('r \<Rightarrow> 'r \<Rightarrow> 'r) \<Rightarrow> 'r list \<Rightarrow> 'r list \<Rightarrow> 'r list" where
  "insert_all key merge rs t = fold (upsert key merge) rs t"

text \<open>\<open>DoUpdates\<close> assigns the listed columns of the stored row from the new one; \<open>DoNothing\<close> keeps the stored row.\<close>

definition set_key :: "RecommendationSet \<Rightarrow> nat \<times> string" where
  "set_key r = (rset_workload_id r, rset_container r)"

definition set_merge :: "RecommendationSet \<Rightarrow> RecommendationSet \<Rightarrow> RecommendationSet" where
  "set_merge x r = x\<lparr>rset_start := rset_start r, rset_end := rset_end r,
     rset_recommendations := rset_recommendations r, rset_updated_at := rset_updated_at r, rset_columns := rset_columns r\<rparr>"

definition nset_key :: "NamespaceRecommendationSet \<Rightarrow> nat" where
  "nset_key r = nset_workload_id r"

definition nset_merge :: "NamespaceRecommendationSet \<Rightarrow> NamespaceRecommendationSet \<Rightarrow> NamespaceRecommendationSet" where
  "nset_merge x r = x\<lparr>nset_start := nset_start r, nset_end := nset_end r,
     nset_recommendations := nset_recommendations r, nset_updated_at := nset_updated_at r, nset_columns := nset_columns r\<rparr>"

definition hist_key :: "HistoricalRecommendationSet \<Rightarrow> string \<times> nat \<times> string \<times> int" where
  "hist_key r = (hist_org_id r, hist_workload_id r, hist_container r, t_ns (hist_end r))"

definition hist_merge :: "HistoricalRecommendationSet \<Rightarrow> HistoricalRecommendationSet \<Rightarrow> HistoricalRecommendationSet" where
  "hist_merge x r = x\<lparr>hist_start := hist_start r, hist_end := hist_end r, hist_recommendations := hist_recommendations r,
     hist_updated_at := hist_updated_at r\<rparr>"

definition nhist_key :: "HistoricalNamespaceRecommendationSet \<Rightarrow> string \<times> nat \<times> int" where
  "nhist_key r = (nhist_org_id r, nhist_workload_id r, t_ns (nhist_end r))"

definition nhist_merge ::
  "HistoricalNamespaceRecommendationSet \<Rightarrow> HistoricalNamespaceRecommendationSet \<Rightarrow> HistoricalNamespaceRecommendationSet" where
  "nhist_merge x r = x"

definition workload_key :: "Workload \<Rightarrow> string \<times> nat \<times> string" where
  "workload_key r = (wl_org_id r, wl_cluster_id r, wl_experiment_name r)"

definition workload_merge :: "Workload \<Rightarrow> Workload \<Rightarrow> Workload" where
  "workload_merge x r = x\<lparr>wl_containers := wl_containers r, wl_metrics_upload_at := wl_metrics_upload_at r\<rparr>"

definition cluster_key :: "Cluster \<Rightarrow> nat \<times> string \<times> string \<times> string" where
  "cluster_key r = (cl_tenant_id r, cl_source_id r, cl_uuid r, cl_alias r)"

definition cluster_merge :: "Cluster \<Rightarrow> Cluster \<Rightarrow> Cluster" where
  "cluster_merge x r = x\<lparr>cl_last_reported := cl_last_reported r\<rparr>"

definition metrics_key :: "WorkloadMetrics \<Rightarrow> string \<times> nat \<times> string \<times> int \<times> int" where
  "metrics_key r = (wm_org_id r, wm_workload_id r, wm_container_name r, t_ns (wm_interval_start r), t_ns (wm_interval_end r))"

definition metrics_merge :: "WorkloadMetrics \<Rightarrow> WorkloadMetrics \<Rightarrow> WorkloadMetrics" where
  "metrics_merge x r = x"

section \<open>The contract of a conflict clause\<close>

locale keyed_table =
  fixes key :: "'r \<Rightarrow> 'k" and merge :: "'r \<Rightarrow> 'r \<Rightarrow> 'r"
  assumes merge_key: "key x = key r \<Longrightarrow> key (merge x r) = key x"
    and merge_last: "key x = key r \<Longrightarrow> key r = key s \<Longrightarrow> merge (merge x r) s = merge x s"
    and merge_self: "merge r r = r"
begin

lemma keys_upsert: "key ` set (upsert key merge r t) = insert (key r) (key ` set t)"
  by (induction t) (auto simp: merge_key)

lemma distinct_upsert: "distinct (map key t) \<Longrightarrow> distinct (map key (upsert key merge r t))"
proof (induction t)
  case (Cons x t)
  have "key ` set (upsert key merge r t) = insert (key r) (key ` set t)" by (rule keys_upsert)
  with Cons show ?case by (auto simp: merge_key)
qed simp

lemma upsert_find:
  "find (\<lambda>x. key x = k) (upsert key merge r t) =
     (if k = key r then Some (case find (\<lambda>x. key x = k) t of Some x \<Rightarrow> merge x r | None \<Rightarrow> r)
      else find (\<lambda>x. key x = k) t)"
  by (induction t) (auto simp: merge_key)

lemma distinct_insert_all: "distinct (map key t) \<Longrightarrow> distinct (map key (insert_all key merge rs t))"
  by (induction rs arbitrary: t) (simp_all add: insert_all_def distinct_upsert)

lemma insert_all_snoc: "insert_all key merge (rs @ [r]) t = upsert key merge r (insert_all key merge rs t)"
  by (simp add: insert_all_def)

lemma keys_insert_all: "key ` set (insert_all key merge rs t) = key ` set rs \<union> key ` set t"
  by (induction rs arbitrary: t) (auto simp: insert_all_def keys_upsert)

text \<open>The row under a key after a batch is decided by the batch's last row for that key.\<close>

definition last_for :: "'k \<Rightarrow> 'r list \<Rightarrow> 'r option" where
  "last_for k rs = find (\<lambda>x. key x = k) (rev rs)"

lemma last_for_snoc: "last_for k (rs @ [r]) = (if key r = k then Some r else last_for k rs)"
  by (simp add: last_for_def)

lemma last_for_key: "last_for k rs = Some r \<Longrightarrow> key r = k"
  by (auto simp: last_for_def find_Some_iff)

lemma insert_all_settled:
  assumes "distinct (map key t)"
  shows "x \<in> set (insert_all key merge rs t) \<Longrightarrow> last_for (key x) rs = Some r \<Longrightarrow> merge x r = x"
proof (induction rs arbitrary: x r rule: rev_induct)
  case (snoc s rs)
  let ?T = "insert_all key merge rs t"
  have d: "distinct (map key ?T)" using assms by (rule distinct_insert_all)
  have mem: "x \<in> set (upsert key merge s T) \<Longrightarrow> distinct (map key T) \<Longrightarrow>
      (key x = key s \<and> (x = s \<or> (\<exists>y \<in> set T. key y = key s \<and> x = merge y s))) \<or> (key x \<noteq> key s \<and> x \<in> set T)" for T
    by (induction T) (auto simp: merge_key image_iff split: if_splits)
  from mem [OF _ d] snoc.prems(1) consider
      "key x = key s" "x = s" | y where "key x = key s" "key y = key s" "x = merge y s"
    | "key x \<noteq> key s" "x \<in> set ?T"
    by (auto simp: insert_all_snoc)
  then show ?case
  proof cases
    case 1
    with snoc.prems(2) show ?thesis by (simp add: last_for_snoc merge_self)
  next
    case 2
    with snoc.prems(2) show ?thesis by (simp add: last_for_snoc merge_last)
  next
    case 3
    with snoc.prems(2) have "last_for (key x) rs = Some r" by (auto simp: last_for_snoc)
    with 3 snoc.IH show ?thesis by simp
  qed
qed (simp add: last_for_def)

lemma upsert_present:
  "distinct (map key t) \<Longrightarrow> key r \<in> key ` set t \<Longrightarrow>
    upsert key merge r t = map (\<lambda>x. if key x = key r then merge x r else x) t"
proof (induction t)
  case (Cons x t)
  then show ?case by (cases "key x = key r") (auto intro!: map_idI [symmetric] simp: image_iff)
qed simp

lemma insert_all_present:
  "distinct (map key t) \<Longrightarrow> key ` set rs \<subseteq> key ` set t \<Longrightarrow>
    insert_all key merge rs t = map (\<lambda>x. case last_for (key x) rs of Some r \<Rightarrow> merge x r | None \<Rightarrow> x) t"
proof (induction rs rule: rev_induct)
  case (snoc s rs)
  then have IH: "insert_all key merge rs t = map (\<lambda>x. case last_for (key x) rs of Some r \<Rightarrow> merge x r | None \<Rightarrow> x) t" by auto
  have keys: "key (case last_for (key x) rs of Some r \<Rightarrow> merge x r | None \<Rightarrow> x) = key x" for x
    by (auto split: option.split dest: last_for_key simp: merge_key)
  have "key s \<in> key ` set (insert_all key merge rs t)" using snoc.prems by (auto simp: keys_insert_all)
  with snoc.prems(1) have "insert_all key merge (rs @ [s]) t =
      map (\<lambda>x. if key x = key s then merge x s else x) (insert_all key merge rs t)"
    by (simp add: insert_all_snoc upsert_present distinct_insert_all)
  also have "\<dots> = map (\<lambda>x. case last_for (key x) (rs @ [s]) of Some r \<Rightarrow> merge x r | None \<Rightarrow> x) t"
    unfolding IH by (auto simp: keys last_for_snoc merge_last merge_key dest: last_for_key split: option.split)
  finally show ?case .
qed (simp add: insert_all_def last_for_def)

text \<open>Where every column is a key or updated, the rows under a key are the last row of the batch for it, or the rows there were.\<close>

lemma insert_all_filter:
  assumes "distinct (map key t)" "\<And>x r. key x = key r \<Longrightarrow> merge x r = r"
  shows "filter (\<lambda>x. key x = k) (insert_all key merge rs t) =
    (case last_for k rs of Some r \<Rightarrow> [r] | None \<Rightarrow> filter (\<lambda>x. key x = k) t)"
proof (induction rs rule: rev_induct)
  case (snoc s rs)
  let ?T = "insert_all key merge rs t"
  have up: "distinct (map key T) \<Longrightarrow> filter (\<lambda>x. key x = k) (upsert key merge s T) = (if key s = k then [s] else filter (\<lambda>x. key x = k) T)" for T
    by (induction T) (auto simp: assms(2) filter_empty_conv merge_key, metis image_eqI)
  from up [OF distinct_insert_all [OF assms(1)], of rs] snoc show ?case
    by (simp add: insert_all_snoc last_for_snoc)
qed (simp add: insert_all_def last_for_def)

text \<open>An operation on rows that keeps the key and goes through the merge goes through the insertion of a batch.\<close>

lemma insert_all_map:
  assumes "\<And>x. key (f x) = key x" "\<And>x r. f (merge x r) = merge (f x) (f r)"
  shows "map f (insert_all key merge rs t) = insert_all key merge (map f rs) (map f t)"
proof (induction rs rule: rev_induct)
  case (snoc s rs)
  have "map f (upsert key merge s T) = upsert key merge (f s) (map f T)" for T
    by (induction T) (simp_all add: assms)
  with snoc show ?case by (simp add: insert_all_snoc)
qed (simp add: insert_all_def)

text \<open>Writing a batch a second time changes nothing.\<close>

lemma insert_all_again:
  assumes "distinct (map key t)"
  shows "insert_all key merge rs (insert_all key merge rs t) = insert_all key merge rs t"
proof -
  let ?T = "insert_all key merge rs t"
  have "insert_all key merge rs ?T = map (\<lambda>x. case last_for (key x) rs of Some r \<Rightarrow> merge x r | None \<Rightarrow> x) ?T"
    using assms by (intro insert_all_present distinct_insert_all) (auto simp: keys_insert_all)
  also have "\<dots> = ?T"
    by (rule map_idI) (auto simp: insert_all_settled [OF assms] split: option.split)
  finally show ?thesis .
qed

end

interpretation sets: keyed_table set_key set_merge
  by unfold_locales (auto simp: set_key_def set_merge_def)

interpretation nsets: keyed_table nset_key nset_merge
  by unfold_locales (auto simp: nset_key_def nset_merge_def)

interpretation hists: keyed_table hist_key hist_merge
  by unfold_locales (auto simp: hist_key_def hist_merge_def)

interpretation nhists: keyed_table nhist_key nhist_merge
  by unfold_locales (auto simp: nhist_key_def nhist_merge_def)

interpretation workloads: keyed_table workload_key workload_merge
  by unfold_locales (auto simp: workload_key_def workload_merge_def)

interpretation clusters: keyed_table cluster_key cluster_merge
  by unfold_locales (auto simp: cluster_key_def cluster_merge_def)

interpretation usage: keyed_table metrics_key metrics_merge
  by unfold_locales (auto simp: metrics_key_def metrics_merge_def)

end
