(* ===== verification/Effects.thy ===== *)
theory Effects
  imports Store
begin

text \<open>
  What the services do to the outside, as a sequence of events.  An event holds a request and the reply it got, so
  the list of events alone tells what happened.  A program maps the events so far to its result and the
  events it adds; the replies come from a \<open>world\<close>, whose fields are arbitrary functions of the events so far:
  every theorem holds for every behaviour of the database, of Kafka, of Kruize and of the clock.

  A result is a value, or the process has crashed (a panic, or \<open>os.Exit\<close>), or the fuel of a recursion without a
  bound in the source has run out.  Logging is left out; Prometheus counters are \<open>Inc\<close> events.
\<close>

section \<open>Messages and configuration\<close>

record RecommendationMetadata =
  md_org_id :: string
  md_workload_id :: nat
  md_experiment_name :: string
  md_max_endtime_report :: gotime
  md_experiment_type :: string

record RecommendationKafkaMsg =
  km_request_id :: string
  km_metadata :: RecommendationMetadata

text \<open>The upload message, with the metadata struct's fields inlined.\<close>

record KafkaMsg =
  rp_request_id :: string
  rp_b64_identity :: string
  rp_account :: string
  rp_org_id :: string
  rp_source_id :: string
  rp_cluster_uuid :: string
  rp_cluster_alias :: string
  rp_files :: "string list"

record SourcesEvent =
  se_id :: int
  se_source_id :: int
  se_application_type_id :: int
  se_tenant :: string

record config =
  ServiceName :: string
  LogFormater :: string
  LogLevel :: string
  RecommendationPollIntervalHours :: int
  DataRetentionPeriod :: int
  ReadHeaderTimeout :: int
  RecordLimitCSV :: int
  CSVStreamInterval :: int
  MaxCountPerQueryParam :: int
  KafkaBootstrapServers :: string
  KafkaConsumerGroupId :: string
  KafkaAutoCommit :: bool
  UploadTopic :: string
  RecommendationTopic :: string
  SourcesEventTopic :: string
  KafkaUsername :: string
  KafkaPassword :: string
  KafkaSASLMechanism :: string
  KafkaSecurityProtocol :: string
  KafkaCA :: string
  GlobalHTTPClientTimeoutSecs :: int
  KruizeUrl :: string
  KruizeWaitTime :: string
  KruizeMaxBulkChunkSize :: int
  KruizePerformanceProfileVersion :: string
  DBName :: string
  DBUser :: string
  DBPassword :: string
  DBHost :: string
  DBPort :: string
  DBssl :: string
  DBCACert :: string
  RBACHost :: string
  RBACPort :: string
  RBACProtocol :: string
  RBACEnabled :: bool
  API_PORT :: string
  CwLogGroup :: string
  CwRegion :: string
  CwAccessKey :: string
  CwSecretKey :: string
  CwLogStream :: string
  PrometheusPort :: string
  SourceApiBaseUrl :: string
  SourceApiPrefix :: string
  DisableNamespaceRecommendation :: bool
  UnleashClientAccessToken :: string
  UnleashHostname :: string
  UnleashPort :: int
  UnleashScheme :: string
  UnleashFullURL :: string

section \<open>Events\<close>

datatype http_body =
    NoBody
  | CreateBody "createExperiment list"
  | CreateNamespaceBody "CreateNamespaceExperimentPayload list"
  | ResultsBody "UpdateResult list"
  | NamespaceResultsBody "UpdateNamespaceResult list"
  | ProfileBody string
  | DeleteBody string

text \<open>A reply's body is the JSON value it parses to, \<open>None\<close> when it is not JSON.\<close>

record http_reply =
  hr_status :: int
  hr_body :: "json option"

datatype db_reply = DbOk | DbErr string | DbPanic string

datatype 'a lookup = Found 'a | NotFound | LookupErr string

text \<open>What became of a produced message: refused, answered by something else than a message, not delivered, or delivered.\<close>

datatype produce_reply = Delivered | ProduceFailed string | UnexpectedEvent string | DeliveryFailed string

text \<open>A downloaded file: its status, and its CSV records or the reader's error.\<close>

record csv_reply =
  cr_status :: int
  cr_records :: "string + string list list"

datatype event =
    Http string string "(string \<times> string) list" http_body "string + http_reply"
  | Sleep nat
  | BeginTx "string option"
  | SaveSet RecommendationSet db_reply
  | SaveHistory HistoricalRecommendationSet db_reply
  | SaveNamespaceSet NamespaceRecommendationSet db_reply
  | SaveNamespaceHistory HistoricalNamespaceRecommendationSet db_reply
  | CommitTx "string option"
  | RollbackTx
  | FirstSet nat "RecommendationSet lookup"
  | FirstNamespaceSet nat "NamespaceRecommendationSet lookup"
  | FirstWorkload nat "unit lookup"
  | SaveAccount RHAccount "string + (nat \<times> bool)"
  | SaveCluster Cluster "string + nat"
  | SaveWorkload Workload "string + nat"
  | SaveMetrics "WorkloadMetrics list" "string option"
  | FirstCluster string "(nat \<times> string) lookup"
  | FindWorkloads nat "string + Workload list"
  | DeleteCluster string "string option"
  | DropPartition string "string option"
  | Produce string string string produce_reply
  | Download string "string + csv_reply"
  | Clock gotime
  | CommitMessage "string option"
  | NewProducer bool
  | Inc string

type_synonym history = "event list"

record world =
  w_cfg :: config
  w_http :: "history \<Rightarrow> string + http_reply"
  w_exec :: "history \<Rightarrow> string option"
  w_save :: "history \<Rightarrow> db_reply"
  w_first_set :: "history \<Rightarrow> RecommendationSet lookup"
  w_first_nset :: "history \<Rightarrow> NamespaceRecommendationSet lookup"
  w_first_workload :: "history \<Rightarrow> unit lookup"
  w_account :: "history \<Rightarrow> string + (nat \<times> bool)"
  w_produce :: "history \<Rightarrow> produce_reply"
  w_new_producer :: "history \<Rightarrow> bool"
  w_download :: "history \<Rightarrow> string + csv_reply"
  w_insert :: "history \<Rightarrow> string + nat"
  w_first_cluster :: "history \<Rightarrow> (nat \<times> string) lookup"
  w_workloads :: "history \<Rightarrow> string + Workload list"
  w_now :: "history \<Rightarrow> gotime"
  w_profile_file :: "string option"
  w_flag :: "string \<Rightarrow> bool"
  w_decode_recommendations :: "json \<Rightarrow> string + ListRecommendations list"
  w_decode_namespaces :: "json \<Rightarrow> string + NamespaceExperiment list"
  w_decode_results :: "json \<Rightarrow> string + UpdateResultResponse"
  w_bad_url :: "string \<Rightarrow> string option"
  w_decode_request :: "json \<Rightarrow> string + RecommendationKafkaMsg"
  w_valid_request :: "RecommendationKafkaMsg \<Rightarrow> string option"
  w_decode_report :: "json \<Rightarrow> string + KafkaMsg"
  w_valid_report :: "KafkaMsg \<Rightarrow> string option"
  w_decode_sources :: "json \<Rightarrow> string + SourcesEvent"
  w_encode_data :: "RecommendationData \<Rightarrow> string + string"
  w_encode_message :: "RecommendationKafkaMsg \<Rightarrow> string + string"

section \<open>Programs\<close>

datatype crash = GoPanic string | OsExit

datatype 'a result = Done 'a | Crashed crash | OutOfFuel

type_synonym 'a prog = "history \<Rightarrow> 'a result \<times> event list"

definition ret :: "'a \<Rightarrow> 'a prog" where
  "ret a h = (Done a, [])"

definition stop :: "crash \<Rightarrow> 'a prog" where
  "stop c h = (Crashed c, [])"

definition no_fuel :: "'a prog" where
  "no_fuel h = (OutOfFuel, [])"

definition andthen :: "'a prog \<Rightarrow> ('a \<Rightarrow> 'b prog) \<Rightarrow> 'b prog" where
  "andthen p f h =
     (case p h of
        (Done a, es) \<Rightarrow> (case f a (h @ es) of (r, es') \<Rightarrow> (r, es @ es'))
      | (Crashed c, es) \<Rightarrow> (Crashed c, es)
      | (OutOfFuel, es) \<Rightarrow> (OutOfFuel, es))"

text \<open>A request that gets the reply \<open>f\<close> gives after the events so far.\<close>

definition ask :: "('a \<Rightarrow> event) \<Rightarrow> (history \<Rightarrow> 'a) \<Rightarrow> 'a prog" where
  "ask e f h = (Done (f h), [e (f h)])"

definition emit :: "event \<Rightarrow> unit prog" where
  "emit e h = (Done (), [e])"

text \<open>A statement, and the rest.\<close>

definition seq :: "unit prog \<Rightarrow> 'b prog \<Rightarrow> 'b prog" where
  "seq p q = andthen p (\<lambda>_. q)"

definition unless :: "bool \<Rightarrow> unit prog \<Rightarrow> unit prog" where
  "unless b p = (if b then ret () else p)"

text \<open>A deferred \<open>recover\<close> that runs \<open>cleanup\<close> and makes the function return \<open>zero\<close>, its result's zero value.\<close>

definition recovering :: "unit prog \<Rightarrow> 'a \<Rightarrow> 'a prog \<Rightarrow> 'a prog" where
  "recovering cleanup zero p h =
     (case p h of
        (Crashed (GoPanic m), es) \<Rightarrow> (case andthen cleanup (\<lambda>_. ret zero) (h @ es) of (r, es') \<Rightarrow> (r, es @ es'))
      | other \<Rightarrow> other)"

fun each :: "'a list \<Rightarrow> ('a \<Rightarrow> unit prog) \<Rightarrow> unit prog" where
  "each [] f = ret ()"
| "each (x # xs) f = seq (f x) (each xs f)"

fun gather :: "'a list \<Rightarrow> ('a \<Rightarrow> 'b list prog) \<Rightarrow> 'b list prog" where
  "gather [] f = ret []"
| "gather (x # xs) f = andthen (f x) (\<lambda>ys. andthen (gather xs f) (\<lambda>zs. ret (ys @ zs)))"

lemma andthen_ret_left: "andthen (ret x) f = f x"
  by (rule ext) (simp add: andthen_def ret_def split: prod.split)

lemma andthen_ret: "andthen p ret = p"
  by (rule ext) (simp add: andthen_def ret_def split: prod.split result.split)

section \<open>Reasoning about the events a program adds\<close>

text \<open>\<open>sat p h P\<close>: the result and the events of \<open>p\<close> after \<open>h\<close> satisfy \<open>P\<close>.\<close>

definition sat :: "'a prog \<Rightarrow> history \<Rightarrow> ('a result \<Rightarrow> event list \<Rightarrow> bool) \<Rightarrow> bool" where
  "sat p h P = (case p h of (r, es) \<Rightarrow> P r es)"

named_theorems sat_rules "the weakest precondition of each way to build a program"

lemma sat_ret [sat_rules]: "sat (ret a) h P = P (Done a) []"
  by (simp add: sat_def ret_def)

lemma sat_stop [sat_rules]: "sat (stop c) h P = P (Crashed c) []"
  by (simp add: sat_def stop_def)

lemma sat_no_fuel [sat_rules]: "sat no_fuel h P = P OutOfFuel []"
  by (simp add: sat_def no_fuel_def)

lemma sat_ask [sat_rules]: "sat (ask e f) h P = P (Done (f h)) [e (f h)]"
  by (simp add: sat_def ask_def)

lemma sat_emit [sat_rules]: "sat (emit e) h P = P (Done ()) [e]"
  by (simp add: sat_def emit_def)

lemma sat_andthen [sat_rules]:
  "sat (andthen p f) h P = sat p h (\<lambda>r es. case r of
      Done a \<Rightarrow> sat (f a) (h @ es) (\<lambda>r' es'. P r' (es @ es'))
    | Crashed c \<Rightarrow> P (Crashed c) es
    | OutOfFuel \<Rightarrow> P OutOfFuel es)"
  by (auto simp: sat_def andthen_def split: prod.split result.split)

lemma sat_seq [sat_rules]:
  "sat (seq p q) h P = sat p h (\<lambda>r es. case r of
      Done _ \<Rightarrow> sat q (h @ es) (\<lambda>r' es'. P r' (es @ es'))
    | Crashed c \<Rightarrow> P (Crashed c) es
    | OutOfFuel \<Rightarrow> P OutOfFuel es)"
  by (simp add: seq_def sat_andthen)

lemma sat_unless [sat_rules]: "sat (unless b p) h P = (if b then P (Done ()) [] else sat p h P)"
  by (simp add: unless_def sat_ret)

lemma sat_recovering [sat_rules]:
  "sat (recovering cl z p) h P = sat p h (\<lambda>r es. case r of
      Crashed (GoPanic m) \<Rightarrow> sat (andthen cl (\<lambda>_. ret z)) (h @ es) (\<lambda>r' es'. P r' (es @ es'))
    | _ \<Rightarrow> P r es)"
  by (auto simp: sat_def recovering_def split: prod.split result.split crash.split)

lemma sat_mono: "sat p h P \<Longrightarrow> (\<And>r es. P r es \<Longrightarrow> Q r es) \<Longrightarrow> sat p h Q"
  by (auto simp: sat_def split: prod.split)

lemma sat_conj: "sat p h P \<Longrightarrow> sat p h Q \<Longrightarrow> sat p h (\<lambda>r es. P r es \<and> Q r es)"
  by (auto simp: sat_def split: prod.split)

lemma sat_run: "sat p h (\<lambda>r es. p h = (r, es))"
  by (auto simp: sat_def split: prod.split)

lemma satD: "sat p h P \<Longrightarrow> p h = (r, es) \<Longrightarrow> P r es"
  by (simp add: sat_def)

text \<open>\<open>only Q p\<close>: every event \<open>p\<close> adds, whatever happened before, satisfies \<open>Q\<close>.\<close>

definition only :: "(event \<Rightarrow> bool) \<Rightarrow> 'a prog \<Rightarrow> bool" where
  "only Q p = (\<forall>h. list_all Q (snd (p h)))"

named_theorems only_rules "how events of parts bound the events of the whole"

lemma only_sat: "only Q p \<Longrightarrow> sat p h (\<lambda>r es. list_all Q es)"
  by (simp add: only_def sat_def split_def)

lemma onlyI: "(\<And>h. sat p h (\<lambda>r es. list_all Q es)) \<Longrightarrow> only Q p"
  by (simp add: only_def sat_def split_def)

lemma only_ret [only_rules]: "only Q (ret a)"
  by (simp add: only_def ret_def)

lemma only_stop [only_rules]: "only Q (stop c)"
  by (simp add: only_def stop_def)

lemma only_no_fuel [only_rules]: "only Q no_fuel"
  by (simp add: only_def no_fuel_def)

lemma only_ask [only_rules]: "(\<And>a. Q (e a)) \<Longrightarrow> only Q (ask e f)"
  by (simp add: only_def ask_def)

lemma only_emit [only_rules]: "Q e \<Longrightarrow> only Q (emit e)"
  by (simp add: only_def emit_def)

lemma only_andthen [only_rules]: "only Q p \<Longrightarrow> (\<And>a. only Q (f a)) \<Longrightarrow> only Q (andthen p f)"
  by (rule onlyI) (auto simp: sat_andthen split: result.split intro!: sat_mono [OF only_sat] dest: only_sat elim: sat_mono)

lemma only_seq [only_rules]: "only Q p \<Longrightarrow> only Q q \<Longrightarrow> only Q (seq p q)"
  by (simp add: seq_def only_andthen)

lemma only_unless [only_rules]: "only Q p \<Longrightarrow> only Q (unless b p)"
  by (simp add: unless_def only_ret)

lemma only_recovering [only_rules]: "only Q p \<Longrightarrow> only Q cl \<Longrightarrow> only Q (recovering cl z p)"
proof (rule onlyI)
  fix h assume p: "only Q p" and cl: "only Q cl"
  from cl have c: "only Q (andthen cl (\<lambda>_. ret z))" by (intro only_rules)
  show "sat (recovering cl z p) h (\<lambda>r. list_all Q)"
    unfolding sat_recovering
    by (rule sat_mono [OF only_sat [OF p]]) (auto split: result.split crash.split intro!: sat_mono [OF only_sat [OF c]])
qed

lemma only_each [only_rules]: "(\<And>x. only Q (f x)) \<Longrightarrow> only Q (each xs f)"
  by (induction xs) (simp_all add: only_ret only_seq)

lemma only_gather [only_rules]: "(\<And>x. only Q (f x)) \<Longrightarrow> only Q (gather xs f)"
  by (induction xs) (simp_all add: only_ret only_andthen)

lemma only_if [only_rules]: "only Q p \<Longrightarrow> only Q q \<Longrightarrow> only Q (if b then p else q)"
  by simp

lemma only_weaken: "only Q p \<Longrightarrow> (\<And>e. Q e \<Longrightarrow> R e) \<Longrightarrow> only R p"
  by (auto simp: only_def list_all_iff)

section \<open>Kinds of events\<close>

definition is_commit :: "event \<Rightarrow> bool" where
  "is_commit e = (case e of CommitMessage _ \<Rightarrow> True | _ \<Rightarrow> False)"

text \<open>A request to Kruize or to the database that did not get its answer: it came back with an error or a panic, or Kruize refused it
  (status 400, how the source tells a refusal of a recommendation).\<close>

definition failed :: "event \<Rightarrow> bool" where
  "failed e =
     (case e of
        Http _ _ _ _ (Inl _) \<Rightarrow> True
      | Http _ _ _ _ (Inr reply) \<Rightarrow> hr_status reply = 400
      | BeginTx (Some _) \<Rightarrow> True
      | SaveSet _ q \<Rightarrow> q \<noteq> DbOk
      | SaveHistory _ q \<Rightarrow> q \<noteq> DbOk
      | SaveNamespaceSet _ q \<Rightarrow> q \<noteq> DbOk
      | SaveNamespaceHistory _ q \<Rightarrow> q \<noteq> DbOk
      | CommitTx (Some _) \<Rightarrow> True
      | FirstSet _ (LookupErr _) \<Rightarrow> True
      | FirstNamespaceSet _ (LookupErr _) \<Rightarrow> True
      | FirstWorkload _ (LookupErr _) \<Rightarrow> True
      | _ \<Rightarrow> False)"

text \<open>The two kinds of failures after which the source goes on as if nothing had happened: a panic in a save, which is recovered
  without an error, and an error while a workload is looked up, which is taken for its absence.\<close>

definition swallowed :: "event \<Rightarrow> bool" where
  "swallowed e =
     (case e of
        SaveSet _ (DbPanic _) \<Rightarrow> True
      | SaveHistory _ (DbPanic _) \<Rightarrow> True
      | SaveNamespaceSet _ (DbPanic _) \<Rightarrow> True
      | SaveNamespaceHistory _ (DbPanic _) \<Rightarrow> True
      | FirstWorkload _ (LookupErr _) \<Rightarrow> True
      | _ \<Rightarrow> False)"

definition fine :: "event \<Rightarrow> bool" where
  "fine e = (\<not> is_commit e \<and> (failed e \<longrightarrow> swallowed e))"

text \<open>Not a commit of a message, and no failure at all.\<close>

definition clean :: "event \<Rightarrow> bool" where
  "clean e = (\<not> is_commit e \<and> \<not> failed e)"

lemma clean_fine: "list_all clean es \<Longrightarrow> list_all fine es"
  by (auto simp: list_all_iff clean_def fine_def)

text \<open>An event of a transaction.\<close>

definition tx_event :: "event \<Rightarrow> bool" where
  "tx_event e =
     (case e of BeginTx _ \<Rightarrow> True | CommitTx _ \<Rightarrow> True | RollbackTx \<Rightarrow> True
      | SaveSet _ _ \<Rightarrow> True | SaveHistory _ _ \<Rightarrow> True | SaveNamespaceSet _ _ \<Rightarrow> True | SaveNamespaceHistory _ _ \<Rightarrow> True
      | _ \<Rightarrow> False)"

lemma event_kinds [simp]:
  "is_commit (CommitMessage x)" "\<not> is_commit (Http m u q b r)" "\<not> is_commit (Inc c)" "\<not> is_commit (BeginTx o1)"
  "\<not> is_commit (CommitTx o1)" "\<not> is_commit RollbackTx" "\<not> is_commit (SaveSet s d)" "\<not> is_commit (SaveHistory hs d)"
  "\<not> is_commit (SaveNamespaceSet ns d)" "\<not> is_commit (SaveNamespaceHistory nh d)" "\<not> is_commit (FirstSet k fs)"
  "\<not> is_commit (FirstNamespaceSet k fn)" "\<not> is_commit (FirstWorkload k fw)" "\<not> is_commit (Clock t)"
  "fine (Inc c)" "fine (Clock t)" "fine RollbackTx" "fine (FirstWorkload k fw)" "\<not> fine (CommitMessage x)"
  "fine (Http m u q b (Inr y)) = (hr_status y \<noteq> 400)" "fine (BeginTx None)" "fine (CommitTx None)"
  "fine (SaveSet s DbOk)" "fine (SaveHistory hs DbOk)" "fine (SaveNamespaceSet ns DbOk)" "fine (SaveNamespaceHistory nh DbOk)"
  "fine (SaveSet s (DbPanic x2))" "fine (SaveHistory hs (DbPanic x2))" "fine (SaveNamespaceSet ns (DbPanic x2))"
  "fine (SaveNamespaceHistory nh (DbPanic x2))" "fine (FirstSet k NotFound)" "fine (FirstSet k (Found s))"
  "fine (FirstNamespaceSet k NotFound)" "fine (FirstNamespaceSet k (Found ns))"
  "clean (Inc c)" "clean (Clock t)" "clean (FirstWorkload k (Found z))" "clean (FirstWorkload k NotFound)"
  "clean (Http m u q b (Inr y)) = (hr_status y \<noteq> 400)" "clean (BeginTx None)" "clean (CommitTx None)" "clean (SaveSet s DbOk)"
  "clean (SaveHistory hs DbOk)" "clean (SaveNamespaceSet ns DbOk)" "clean (SaveNamespaceHistory nh DbOk)" "clean (FirstSet k NotFound)"
  "clean (FirstSet k (Found s))" "clean (FirstNamespaceSet k NotFound)" "clean (FirstNamespaceSet k (Found ns))"
  "\<not> tx_event (Inc c)" "\<not> tx_event (Http m u q b r)" "\<not> tx_event (Clock t)" "\<not> tx_event (CommitMessage x)"
  "\<not> tx_event (FirstSet k fs)" "\<not> tx_event (FirstNamespaceSet k fn)" "\<not> tx_event (FirstWorkload k fw)"
  by (simp_all add: is_commit_def fine_def clean_def failed_def swallowed_def tx_event_def split: lookup.split)

section \<open>Conversions\<close>

text \<open>\<open>t.UTC()\<close>\<close>

definition to_utc :: "gotime \<Rightarrow> gotime" where
  "to_utc t = t\<lparr>t_off := 0, t_zone := ''UTC''\<rparr>"

section \<open>A world to run programs in\<close>

text \<open>Everything answers without an error; examples override the replies they are about.\<close>

definition example_config :: config where
  "example_config = \<lparr>ServiceName = [], LogFormater = [], LogLevel = [], RecommendationPollIntervalHours = 24,
     DataRetentionPeriod = 15, ReadHeaderTimeout = 0, RecordLimitCSV = 1000, CSVStreamInterval = 100,
     MaxCountPerQueryParam = 5, KafkaBootstrapServers = [], KafkaConsumerGroupId = [], KafkaAutoCommit = True,
     UploadTopic = [], RecommendationTopic = ''recommendations'', SourcesEventTopic = [], KafkaUsername = [],
     KafkaPassword = [], KafkaSASLMechanism = [], KafkaSecurityProtocol = [], KafkaCA = [],
     GlobalHTTPClientTimeoutSecs = 0, KruizeUrl = ''http://kruize'', KruizeWaitTime = [], KruizeMaxBulkChunkSize = 100,
     KruizePerformanceProfileVersion = ''v1'', DBName = [], DBUser = [], DBPassword = [], DBHost = [], DBPort = [],
     DBssl = [], DBCACert = [], RBACHost = [], RBACPort = [], RBACProtocol = [], RBACEnabled = True, API_PORT = [],
     CwLogGroup = [], CwRegion = [], CwAccessKey = [], CwSecretKey = [], CwLogStream = [], PrometheusPort = [],
     SourceApiBaseUrl = ''http://sources'', SourceApiPrefix = ''/api'', DisableNamespaceRecommendation = False,
     UnleashClientAccessToken = [], UnleashHostname = [], UnleashPort = 0, UnleashScheme = [], UnleashFullURL = []\<rparr>"

definition example_world :: world where
  "example_world = \<lparr>w_cfg = example_config,
     w_http = (\<lambda>_. Inr \<lparr>hr_status = 201, hr_body = Some (JObj [])\<rparr>),
     w_exec = (\<lambda>_. None), w_save = (\<lambda>_. DbOk), w_first_set = (\<lambda>_. NotFound), w_first_nset = (\<lambda>_. NotFound),
     w_first_workload = (\<lambda>_. Found ()), w_account = (\<lambda>_. Inr (1, True)), w_produce = (\<lambda>_. Delivered),
     w_new_producer = (\<lambda>_. True), w_download = (\<lambda>_. Inr \<lparr>cr_status = 200, cr_records = Inr []\<rparr>), w_insert = (\<lambda>_. Inr 1), w_first_cluster = (\<lambda>_. NotFound), w_workloads = (\<lambda>_. Inr []),
     w_now = (\<lambda>_. go_zero_time), w_profile_file = Some ''{}'', w_flag = (\<lambda>_. True),
     w_decode_recommendations = (\<lambda>_. Inr []), w_decode_namespaces = (\<lambda>_. Inr []),
     w_decode_results = (\<lambda>_. Inr \<lparr>ur_message = [], ur_data = []\<rparr>), w_bad_url = (\<lambda>_. None),
     w_decode_request = (\<lambda>_. Inl ''not a request''), w_valid_request = (\<lambda>_. None),
     w_decode_report = (\<lambda>_. Inl ''not a report''), w_valid_report = (\<lambda>_. None),
     w_decode_sources = (\<lambda>_. Inl ''not an event''),
     w_encode_data = (\<lambda>_. Inr ''{}''), w_encode_message = (\<lambda>_. Inr ''{}'')\<rparr>"

end
