(* ===== verification/Kruize.thy ===== *)
theory Kruize
  imports Effects
begin

text \<open>
  \<open>internal/utils/kruize/kruize_api.go\<close> and \<open>Setup_kruize_performance_profile\<close> of \<open>internal/utils/utils.go\<close>: the
  requests to Kruize, their retries, and what each reply means.  An error is its message.

  The package variable \<open>experimentCreateAttempt\<close> is true except inside the one repeated call, so it is an argument
  of the two functions that create experiments.  \<open>Update_results\<close> calls itself for as long as Kruize answers that
  the performance profile is null; the recursion has no bound in the source, so it takes fuel.
\<close>

section \<open>Replies\<close>

text \<open>\<open>json.Unmarshal\<close> into a \<open>map[string]interface{}\<close>: null leaves the map empty.\<close>

fun object_of :: "json option \<Rightarrow> obj option" where
  "object_of (Some (JObj m)) = Some m"
| "object_of (Some JNull) = Some []"
| "object_of _ = None"

definition decode_body :: "(json \<Rightarrow> string + 'a) \<Rightarrow> json option \<Rightarrow> string + 'a" where
  "decode_body f b = (case b of None \<Rightarrow> Inl ''invalid JSON'' | Some j \<Rightarrow> f j)"

definition post :: "world \<Rightarrow> string \<Rightarrow> http_body \<Rightarrow> (string + http_reply) prog" where
  "post w path body = ask (Http ''POST'' (KruizeUrl (w_cfg w) @ path) [] body) (w_http w)"

section \<open>The performance profile\<close>

text \<open>A failed request leaves a nil response whose status the source then reads.\<close>

fun profile_attempts :: "world \<Rightarrow> nat \<Rightarrow> unit prog" where
  "profile_attempts w 0 = ret ()"
| "profile_attempts w (Suc n) =
     andthen (ask (Http ''GET'' (KruizeUrl (w_cfg w) @ ''/listPerformanceProfiles'') [] NoBody) (w_http w)) (\<lambda>response.
       case response of
         Inl err \<Rightarrow> seq (emit (Sleep 10)) (profile_attempts w n)
       | Inr _ \<Rightarrow>
           (case w_profile_file w of
              None \<Rightarrow> stop OsExit
            | Some postBody \<Rightarrow>
                andthen (post w ''/createPerformanceProfile'' (ProfileBody postBody)) (\<lambda>res.
                  case res of
                    Inl e \<Rightarrow> stop (GoPanic ''nil pointer dereference'')
                  | Inr r \<Rightarrow>
                      if hr_status r = 201 then ret ()
                      else if hr_status r = 409 then ret ()
                      else (case object_of (hr_body r) of
                              None \<Rightarrow> stop OsExit
                            | Some _ \<Rightarrow> seq (emit (Sleep 10)) (profile_attempts w n)))))"

definition Setup_kruize_performance_profile :: "world \<Rightarrow> unit prog" where
  "Setup_kruize_performance_profile w = profile_attempts w 5"

section \<open>Creating experiments\<close>

fun StringInSlice :: "string \<Rightarrow> string list \<Rightarrow> bool" where
  "StringInSlice a [] = False"
| "StringInSlice a (b # bs) = (if b = a then True else StringInSlice a bs)"

text \<open>Each container once, in the order of the rows, with the image of its first row; \<open>None\<close> for a panic.\<close>

fun distinct_containers :: "string list \<Rightarrow> row list \<Rightarrow> (string \<times> string) list option" where
  "distinct_containers unique [] = Some []"
| "distinct_containers unique (r # rows) =
     (case str_cell r ''container_name'' of
        None \<Rightarrow> None
      | Some container \<Rightarrow>
          if \<not> StringInSlice container unique then
            (case str_cell r ''image_name'' of
               None \<Rightarrow> None
             | Some img \<Rightarrow> map_option (\<lambda>cs. (container, img) # cs) (distinct_containers (unique @ [container]) rows))
          else distinct_containers unique rows)"

definition profile_missing :: string where
  "profile_missing = ''Performance Profile doesn't exist''"

definition already_exists :: string where
  "already_exists = ''Experiment name already exists''"

text \<open>What a reply other than 201 to \<open>/createExperiment\<close> leads to: an error, a panic, a repetition, or success.\<close>

datatype create_verdict = CreateFails string | CreatePanics | CreateAgain | CreateOk

definition create_verdict_of :: "bool \<Rightarrow> http_reply \<Rightarrow> create_verdict" where
  "create_verdict_of experimentCreateAttempt res =
     (if hr_status res \<noteq> 201 then
        (case object_of (hr_body res) of
           None \<Rightarrow> CreateFails ''can not unmarshal response data''
         | Some resdata \<Rightarrow>
             (case str_at ''message'' resdata of
                None \<Rightarrow> CreatePanics
              | Some message \<Rightarrow>
                  if str_contains message profile_missing \<and> experimentCreateAttempt then CreateAgain
                  else if str_contains message already_exists then CreateOk
                  else CreateFails message))
      else CreateOk)"

text \<open>The request, and \<open>again\<close> for the repeated call.\<close>

definition create_request ::
  "world \<Rightarrow> string \<Rightarrow> string \<Rightarrow> http_body \<Rightarrow> bool \<Rightarrow> (string + 'a) prog \<Rightarrow> 'a \<Rightarrow> (string + 'a) prog" where
  "create_request w counter failure body attempt again names =
     andthen (post w ''/createExperiment'' body) (\<lambda>reply.
       case reply of
         Inl err \<Rightarrow> seq (emit (Inc ''kruizeAPIException/createExperiment'')) (ret (Inl (failure @ err)))
       | Inr res \<Rightarrow>
           seq (emit (Inc counter))
             (case create_verdict_of attempt res of
                CreateFails e \<Rightarrow> ret (Inl e)
              | CreatePanics \<Rightarrow> stop (GoPanic ''interface conversion'')
              | CreateAgain \<Rightarrow> seq (Setup_kruize_performance_profile w) again
              | CreateOk \<Rightarrow> ret (Inr names)))"

definition create_containers ::
  "world \<Rightarrow> bool \<Rightarrow> (string + string list) prog \<Rightarrow> string \<Rightarrow> string \<Rightarrow> row list \<Rightarrow> (string + string list) prog" where
  "create_containers w attempt again experiment_name cluster_identifier k8s_object =
     (case k8s_object of
        [] \<Rightarrow> stop (GoPanic ''index out of range'')
      | first # _ \<Rightarrow>
          (case (str_cell first ''k8s_object_type'', str_cell first ''k8s_object_name'', distinct_containers [] k8s_object) of
             (Some objType, Some objName, Some containers) \<Rightarrow>
               create_request w ''createExperimentRequest'' ''error Occured while creating experiment: ''
                 (CreateBody (GetCreateExperimentPayload experiment_name cluster_identifier containers
                    (AssertAndConvertToString (cell_at first ''namespace'')) objType objName))
                 attempt again (map fst containers)
           | _ \<Rightarrow> stop (GoPanic ''interface conversion'')))"

text \<open>The repeated call runs with \<open>experimentCreateAttempt\<close> false, so it never repeats itself.\<close>

definition Create_kruize_experiments :: "world \<Rightarrow> string \<Rightarrow> string \<Rightarrow> row list \<Rightarrow> (string + string list) prog" where
  "Create_kruize_experiments w experiment_name cluster_identifier k8s_object =
     create_containers w True
       (create_containers w False no_fuel experiment_name cluster_identifier k8s_object)
       experiment_name cluster_identifier k8s_object"

definition create_namespace :: "world \<Rightarrow> bool \<Rightarrow> (string + unit) prog \<Rightarrow> string \<Rightarrow> string \<Rightarrow> string \<Rightarrow> (string + unit) prog" where
  "create_namespace w attempt again experiment_name cluster_identifier namespace =
     create_request w ''createNamespaceExperimentRequest'' ''error occured while creating namespace experiment: ''
       (CreateNamespaceBody (GetCreateNamespaceExperimentPayload (KruizePerformanceProfileVersion (w_cfg w))
          experiment_name cluster_identifier namespace))
       attempt again ()"

definition CreateNamespaceExperiment :: "world \<Rightarrow> string \<Rightarrow> string \<Rightarrow> string \<Rightarrow> (string + unit) prog" where
  "CreateNamespaceExperiment w experiment_name cluster_identifier namespace =
     create_namespace w True (create_namespace w False no_fuel experiment_name cluster_identifier namespace)
       experiment_name cluster_identifier namespace"

section \<open>Sending results\<close>

definition null_profile :: string where
  "null_profile = ''because \"performanceProfile\" is null''"

text \<open>What a reply to \<open>/updateResults\<close> leads to.  The container version reads the first error of every entry
  (\<open>unguarded\<close>); the namespace version looks whether there is one.\<close>

datatype results_verdict = ResultsFail string | ResultsAgain | ResultsPanic | ResultsSent

definition results_verdict_of :: "world \<Rightarrow> bool \<Rightarrow> http_reply \<Rightarrow> results_verdict" where
  "results_verdict_of w unguarded res =
     (if hr_status res \<noteq> 201 then
        (case decode_body (w_decode_results w) (hr_body res) of
           Inl err \<Rightarrow> ResultsFail (''can not unmarshal response data: '' @ err)
         | Inr resdata \<Rightarrow>
             if str_contains (ur_message resdata) null_profile then ResultsAgain
             else if unguarded \<and> \<not> list_all (\<lambda>d. ud_errors d \<noteq> []) (ur_data resdata) then ResultsPanic
             else ResultsSent)
      else ResultsSent)"

fun send_results :: "world \<Rightarrow> bool \<Rightarrow> string \<Rightarrow> string \<Rightarrow> http_body \<Rightarrow> nat \<Rightarrow> 'a \<Rightarrow> (string + 'a) prog" where
  "send_results w unguarded counter failure body 0 payload_data = no_fuel"
| "send_results w unguarded counter failure body (Suc fuel) payload_data =
     andthen (post w ''/updateResults'' body) (\<lambda>reply.
       case reply of
         Inl err \<Rightarrow> seq (emit (Inc ''kruizeAPIException/updateResults'')) (ret (Inl (failure @ err)))
       | Inr res \<Rightarrow>
           seq (emit (Inc counter))
             (case results_verdict_of w unguarded res of
                ResultsFail e \<Rightarrow> ret (Inl e)
              | ResultsAgain \<Rightarrow>
                  seq (Setup_kruize_performance_profile w) (send_results w unguarded counter failure body fuel payload_data)
              | ResultsPanic \<Rightarrow> stop (GoPanic ''index out of range'')
              | ResultsSent \<Rightarrow> ret (Inr payload_data)))"

definition Update_results :: "world \<Rightarrow> nat \<Rightarrow> UpdateResult list \<Rightarrow> (string + UpdateResult list) prog" where
  "Update_results w fuel payload_data =
     send_results w True ''updateResultRequest'' ''an Error Occured while sending metrics: '' (ResultsBody payload_data) fuel payload_data"

definition UpdateNamespaceResults ::
  "world \<Rightarrow> nat \<Rightarrow> UpdateNamespaceResult list \<Rightarrow> (string + UpdateNamespaceResult list) prog" where
  "UpdateNamespaceResults w fuel payload_data =
     send_results w False ''updateNamespaceResultRequest'' ''an Error Occured while sending namespace metrics: ''
       (NamespaceResultsBody payload_data) fuel payload_data"

section \<open>Recommendations\<close>

datatype recommendations = ContainerResponse "ListRecommendations list" | NamespaceResponse "NamespaceExperiment list"

definition Update_recommendations :: "world \<Rightarrow> string \<Rightarrow> gotime \<Rightarrow> string \<Rightarrow> (string + recommendations) prog" where
  "Update_recommendations w experiment_name interval_end_time experimentType =
     (let url = KruizeUrl (w_cfg w) @ ''/updateRecommendations'' in
      case w_bad_url w url of
        Some err \<Rightarrow> ret (Inl (''an Error Occured '' @ err))
      | None \<Rightarrow>
          (case ConvertDateToISO8601 (fmt_string interval_end_time) of
             Inl _ \<Rightarrow> ret (Inl ''unable to format interval_end_time for /updateRecommendations'')
           | Inr endTimeISO \<Rightarrow>
               andthen (ask (Http ''POST'' url [(''experiment_name'', experiment_name), (''interval_end_time'', endTimeISO)] NoBody)
                   (w_http w)) (\<lambda>reply.
                 case reply of
                   Inl err \<Rightarrow> seq (emit (Inc ''kruizeAPIException/updateRecommendations''))
                     (ret (Inl (''error Occured while calling /updateRecommendations API '' @ err)))
                 | Inr res \<Rightarrow>
                     if hr_status res = 400 then
                       (case object_of (hr_body res) of
                          None \<Rightarrow> ret (Inl ''unable to unmarshal response of /updateRecommendations API'')
                        | Some d \<Rightarrow> (case str_at ''message'' d of
                                      None \<Rightarrow> stop (GoPanic ''interface conversion'')
                                    | Some message \<Rightarrow> ret (Inl message)))
                     else if experimentType = ''namespace'' then
                       (case decode_body (w_decode_namespaces w) (hr_body res) of
                          Inl err \<Rightarrow> ret (Inl (''unable to unmarshal response of /updateRecommendations API '' @ err))
                        | Inr namespaceResponse \<Rightarrow> ret (Inr (NamespaceResponse namespaceResponse)))
                     else
                       (case decode_body (w_decode_recommendations w) (hr_body res) of
                          Inl err \<Rightarrow> ret (Inl (''unable to unmarshal response of /updateRecommendations API '' @ err))
                        | Inr containerResponse \<Rightarrow> ret (Inr (ContainerResponse containerResponse))))))"

definition IsValidRecommendation :: "Recommendation \<Rightarrow> gotime \<Rightarrow> string \<Rightarrow> bool prog" where
  "IsValidRecommendation recommendation maxEndTime experimentType =
     (case map_of (rm_notifications recommendation) ''111000'' of
        Some _ \<Rightarrow>
          (case map_of (rm_data recommendation) (fmt_iso (to_utc maxEndTime)) of
             None \<Rightarrow>
               seq (if experimentType = ''namespace'' then emit (Inc ''invalidNamespaceRecommendation'')
                    else if experimentType = ''container'' then emit (Inc ''invalidRecommendation'')
                    else ret ())
                 (ret False)
           | Some _ \<Rightarrow> ret True)
      | None \<Rightarrow> ret False)"

section \<open>Deleting\<close>

definition DeleteExperimentFromKruize :: "world \<Rightarrow> string \<Rightarrow> unit prog" where
  "DeleteExperimentFromKruize w experiment_name =
     (let url = KruizeUrl (w_cfg w) @ ''/createExperiment'';
          deletion_err_log = emit (Inc ''kruizeAPIException/deleteExperiment'')
      in case w_bad_url w url of
           Some err \<Rightarrow> deletion_err_log
         | None \<Rightarrow>
             andthen (ask (Http ''DELETE'' url [] (DeleteBody experiment_name)) (w_http w)) (\<lambda>reply.
               case reply of
                 Inl err \<Rightarrow> deletion_err_log
               | Inr res \<Rightarrow> if hr_status res = 201 then ret () else deletion_err_log))"

section \<open>Times in UTC\<close>

text \<open>\<open>ConvertDateToISO8601(t.String())\<close> gives a UTC time's own ISO form.\<close>

lemma digits_val_zeros: "digits_val (u @ replicate k CHR ''0'') = digits_val u * 10 ^ k"
proof (induction k)
  case (Suc k)
  have "u @ replicate (Suc k) CHR ''0'' = (u @ replicate k CHR ''0'') @ [CHR ''0'']"
    by (simp add: replicate_append_same)
  then have "digits_val (u @ replicate (Suc k) CHR ''0'') = 10 * digits_val (u @ replicate k CHR ''0'') + digit_val CHR ''0''"
    by (simp only: digits_val_snoc)
  with Suc show ?case by (simp add: digit_val_def)
qed simp

lemma digits_val_append: "digits_val (a @ b) = digits_val a * 10 ^ length b + digits_val b"
proof (induction b rule: rev_induct)
  case (snoc c b)
  have "digits_val ((a @ b) @ [c]) = 10 * digits_val (a @ b) + digit_val c" by (rule digits_val_snoc)
  with snoc show ?case by (simp add: algebra_simps)
qed simp

lemma nine_digits:
  assumes "0 \<le> n" "n < sec_ns"
  defines "ds \<equiv> pad3 (nat (n div 1000000)) @ pad3 (nat (n div 1000 mod 1000)) @ pad3 (nat (n mod 1000))"
  shows "length ds = 9" "list_all is_digit ds" "int (digits_val ds) = n"
proof -
  define a b c where abc: "a = nat (n div 1000000)" "b = nat (n div 1000 mod 1000)" "c = nat (n mod 1000)"
  have l: "a < 1000" "b < 1000" "c < 1000"
    using assms(1,2) by (simp_all add: abc sec_ns_def nat_less_iff)
  note p = digits_val_pad(2) [OF l(1)] digits_val_pad(2) [OF l(2)] digits_val_pad(2) [OF l(3)]
  have d: "ds = pad3 a @ pad3 b @ pad3 c" by (simp add: ds_def abc)
  show "length ds = 9" "list_all is_digit ds" using p by (simp_all add: d)
  have "digits_val ds = a * 1000000 + b * 1000 + c"
    using p by (simp add: d digits_val_append)
  moreover have "int a * 1000000 + int b * 1000 + int c = n"
  proof -
    have "n = n div 1000 * 1000 + n mod 1000" "n div 1000 = n div 1000 div 1000 * 1000 + n div 1000 mod 1000"
      by (simp_all only: div_mult_mod_eq)
    moreover have "n div 1000 div 1000 = n div 1000000" by (simp add: zdiv_zmult2_eq [symmetric])
    moreover have "int a = n div 1000000" "int b = n div 1000 mod 1000" "int c = n mod 1000"
      using assms(1) by (simp_all add: abc pos_imp_zdiv_nonneg_iff)
    ultimately show ?thesis by linarith
  qed
  ultimately show "int (digits_val ds) = n" by simp
qed

lemma opt_fraction_fmt:
  assumes "0 \<le> n" "n < sec_ns"
  shows "opt_fraction (fmt_fraction n @ CHR '' '' # r) = (n, CHR '' '' # r)"
proof (cases "n = 0")
  case True
  then show ?thesis by (simp add: fmt_fraction_def opt_fraction_def)
next
  case False
  define ds where "ds = pad3 (nat (n div 1000000)) @ pad3 (nat (n div 1000 mod 1000)) @ pad3 (nat (n mod 1000))"
  note nd = nine_digits [OF assms, folded ds_def]
  define u where "u = rev (dropWhile (\<lambda>c. c = CHR ''0'') (rev ds))"
  define k where "k = length (takeWhile (\<lambda>c. c = CHR ''0'') (rev ds))"
  have "takeWhile (\<lambda>c. c = CHR ''0'') (rev ds) = replicate k CHR ''0''"
    unfolding k_def by (rule replicate_length_same [symmetric]) (auto dest: set_takeWhileD)
  moreover have "ds = u @ rev (takeWhile (\<lambda>c. c = CHR ''0'') (rev ds))"
    by (metis u_def rev_append rev_rev_ident takeWhile_dropWhile_id)
  ultimately have ds: "ds = u @ replicate k CHR ''0''" by simp
  then have l: "length u + k = 9" "list_all is_digit u" using nd by (auto simp: list_all_append)
  have v: "int (digits_val u) * 10 ^ k = n" using nd(3) by (simp add: ds digits_val_zeros)
  with False have "u \<noteq> []" by auto
  moreover have "takeWhile is_digit (u @ CHR '' '' # r) = u" "dropWhile is_digit (u @ CHR '' '' # r) = CHR '' '' # r"
    using l(2) by (auto simp: list_all_iff takeWhile_append dropWhile_append is_digit_def)
  moreover have "9 - length u = k" "length u \<le> 9" using l(1) by simp_all
  moreover have "fmt_fraction n = CHR ''.'' # u"
    using False by (simp only: fmt_fraction_def if_False ds_def [symmetric] u_def)
  ultimately show ?thesis
    using v by (simp add: opt_fraction_def frac_ns_def Let_def)
qed

lemma no_blank_hms: "dropWhile (\<lambda>c. c = CHR '' '') (fmt_hms tod @ r) = fmt_hms tod @ r"
proof -
  have "digit_char (k mod 10) \<noteq> CHR '' ''" for k
  proof -
    have "is_digit (digit_char (k mod 10))" by (simp add: is_digit_digit_char)
    moreover have "\<not> is_digit CHR '' ''" by code_simp
    ultimately show ?thesis by metis
  qed
  then show ?thesis by (simp add: fmt_hms_def Let_def pad2_def)
qed

lemma parse_zone_utc: "parse_zone ('' +0000 UTC'') = Some (0, ''UTC'')"
  by code_simp

lemma utc_text:
  assumes "t_off t = 0" "t_zone t = ''UTC''" "case t_date t of (y, m, d) \<Rightarrow> 0 \<le> y \<and> y \<le> 9999"
  shows "parse_interval (fmt_string t) = Some t"
proof -
  obtain y m d where ymd: "t_date t = (y, m, d)" by (cases "t_date t")
  with assms(3) have y: "0 \<le> y" "y \<le> 9999" by simp_all
  have v: "valid_civil y m d" by (rule t_date_valid [OF ymd])
  note b = t_tod_bounds [of t]
  have f: "0 \<le> t_tod t mod sec_ns" "t_tod t mod sec_ns < sec_ns" by (simp_all add: sec_ns_def)
  have o: "fmt_offset False 0 = ''+0000''" by code_simp
  have "fmt_string t = fmt_ymd (y, m, d) @ CHR '' '' # fmt_hms (t_tod t) @ fmt_fraction (t_tod t mod sec_ns) @ '' +0000 UTC''"
    by (simp add: fmt_string_def ymd assms(1,2) o)
  then have "parse_wall (fmt_string t) =
      Some (((y, m, d), t_tod t div sec_ns * sec_ns + t_tod t mod sec_ns), '' +0000 UTC'')"
    by (simp add: parse_wall_def parse_ymd_fmt [OF v y] skip_blank_def no_blank_hms parse_hms_fmt [OF b] opt_fraction_fmt [OF f])
  then have "parse_interval (fmt_string t) = date_at (y, m, d) (t_tod t) 0 ''UTC''"
    by (simp add: parse_interval_def parse_zone_utc)
  also have "\<dots> = Some t" using v go_date_of_fields [OF ymd] assms(1,2) by (simp add: date_at_def)
  finally show ?thesis .
qed

lemma utc_iso:
  assumes "t_off t = 0" "t_zone t = ''UTC''" "case t_date t of (y, m, d) \<Rightarrow> 0 \<le> y \<and> y \<le> 9999"
  shows "ConvertDateToISO8601 (fmt_string t) = Inr (fmt_iso t)"
  using utc_text [OF assms] by (simp add: ConvertDateToISO8601_def)

section \<open>What the requests promise\<close>

definition sent :: "string \<Rightarrow> string \<Rightarrow> event \<Rightarrow> bool" where
  "sent method url e = (case e of Http m u _ _ _ \<Rightarrow> m = method \<and> u = url | _ \<Rightarrow> False)"

definition slept :: "event \<Rightarrow> bool" where
  "slept e = (case e of Sleep _ \<Rightarrow> True | _ \<Rightarrow> False)"

definition profile_event :: "world \<Rightarrow> event \<Rightarrow> bool" where
  "profile_event w e =
     (slept e \<or> sent ''GET'' (KruizeUrl (w_cfg w) @ ''/listPerformanceProfiles'') e
      \<or> sent ''POST'' (KruizeUrl (w_cfg w) @ ''/createPerformanceProfile'') e)"

lemma sent_simps [simp]:
  "sent m u (Http m' u' q b r) = (m' = m \<and> u' = u)" "\<not> sent m u (Sleep n)" "\<not> sent m u (Inc c)"
  "slept (Sleep n)" "\<not> slept (Http m' u' q b r)" "\<not> slept (Inc c)"
  by (simp_all add: sent_def slept_def)

text \<open>Setting the profile up asks for the list at most five times and sleeps at most five times.\<close>

lemma profile_attempts_bounded:
  "sat (profile_attempts w n) h (\<lambda>r es. r \<noteq> OutOfFuel \<and> length (filter slept es) \<le> n
     \<and> length (filter (sent ''GET'' (KruizeUrl (w_cfg w) @ ''/listPerformanceProfiles'')) es) \<le> n
     \<and> list_all (profile_event w) es)"
proof (induction n arbitrary: h)
  case 0
  show ?case by (simp add: sat_rules)
next
  case (Suc n)
  have P: "KruizeUrl (w_cfg w) @ ''/createPerformanceProfile'' \<noteq> KruizeUrl (w_cfg w) @ ''/listPerformanceProfiles''" by simp
  show ?case
    unfolding profile_attempts.simps post_def
    by (auto simp: sat_rules profile_event_def P split: sum.split option.split intro!: sat_mono [OF Suc.IH])
qed

text \<open>Setting the performance profile up ends after at most five attempts and five waits, and sends nothing but requests for
  the list of profiles and creations of one.\<close>

theorem Setup_kruize_performance_profile_bounded:
  "case Setup_kruize_performance_profile w h of (r, es) \<Rightarrow>
     r \<noteq> OutOfFuel \<and> length (filter slept es) \<le> 5
     \<and> length (filter (sent ''GET'' (KruizeUrl (w_cfg w) @ ''/listPerformanceProfiles'')) es) \<le> 5
     \<and> list_all (profile_event w) es"
  using profile_attempts_bounded [of w 5 h] by (simp add: Setup_kruize_performance_profile_def sat_def)

lemma setup_never_starves: "sat (Setup_kruize_performance_profile w) h (\<lambda>r es. r \<noteq> OutOfFuel \<and> list_all (profile_event w) es)"
  unfolding Setup_kruize_performance_profile_def by (rule sat_mono [OF profile_attempts_bounded]) simp

lemma only_profile: "only (profile_event w) (Setup_kruize_performance_profile w)"
  by (rule onlyI, rule sat_mono [OF setup_never_starves]) simp

text \<open>The last reply to a request decides.\<close>

definition reply_to :: "string \<Rightarrow> string \<Rightarrow> event \<Rightarrow> (string + http_reply) option" where
  "reply_to method url e = (case e of Http m u _ _ r \<Rightarrow> if m = method \<and> u = url then Some r else None | _ \<Rightarrow> None)"

definition replies :: "string \<Rightarrow> string \<Rightarrow> event list \<Rightarrow> (string + http_reply) list" where
  "replies method url es = List.map_filter (reply_to method url) es"

lemma replies_simps [simp]:
  "replies m u [] = []"
  "replies m u (e # es) = (case reply_to m u e of Some r \<Rightarrow> r # replies m u es | None \<Rightarrow> replies m u es)"
  "replies m u (es @ es') = replies m u es @ replies m u es'"
  by (simp_all add: replies_def List.map_filter_def split: option.split)

lemma reply_to_simps [simp]:
  "reply_to m u (Http m' u' q b r) = (if m' = m \<and> u' = u then Some r else None)"
  "reply_to m u (Inc c) = None" "reply_to m u (Sleep n) = None"
  by (simp_all add: reply_to_def)

lemma reply_to_profile:
  assumes "profile_event w e" "p \<noteq> ''/listPerformanceProfiles''" "p \<noteq> ''/createPerformanceProfile''"
  shows "reply_to m (KruizeUrl (w_cfg w) @ p) e = None"
  using assms by (cases e) (auto simp: profile_event_def sent_def slept_def reply_to_def simp del: sent_simps)

lemma replies_profile:
  "p \<noteq> ''/listPerformanceProfiles'' \<Longrightarrow> p \<noteq> ''/createPerformanceProfile'' \<Longrightarrow>
    list_all (profile_event w) es \<Longrightarrow> replies m (KruizeUrl (w_cfg w) @ p) es = []"
  by (induction es) (simp_all add: reply_to_profile)

definition accepted :: "string + http_reply \<Rightarrow> bool" where
  "accepted reply =
     (case reply of
        Inl _ \<Rightarrow> False
      | Inr res \<Rightarrow> hr_status res = 201
          \<or> (case object_of (hr_body res) of
               Some m \<Rightarrow> (case str_at ''message'' m of Some t \<Rightarrow> str_contains t already_exists | None \<Rightarrow> False)
             | None \<Rightarrow> False))"

text \<open>At most \<open>n\<close> requests, and a success only on a reply that says the experiment exists.\<close>

definition creates :: "world \<Rightarrow> nat \<Rightarrow> 'a \<Rightarrow> (string + 'a) result \<Rightarrow> event list \<Rightarrow> bool" where
  "creates w n names r es =
     (r \<noteq> OutOfFuel
      \<and> length (replies ''POST'' (KruizeUrl (w_cfg w) @ ''/createExperiment'') es) \<le> n
      \<and> (case r of Done (Inr x) \<Rightarrow> x = names
             \<and> replies ''POST'' (KruizeUrl (w_cfg w) @ ''/createExperiment'') es \<noteq> []
             \<and> accepted (last (replies ''POST'' (KruizeUrl (w_cfg w) @ ''/createExperiment'') es))
         | _ \<Rightarrow> True))"

lemma verdict_ok: "create_verdict_of b res = CreateOk \<Longrightarrow> accepted (Inr res)"
  by (auto simp: create_verdict_of_def accepted_def split: if_splits option.split_asm)

lemma verdict_again: "create_verdict_of b res = CreateAgain \<Longrightarrow> b"
  by (auto simp: create_verdict_of_def split: if_splits option.split_asm)

lemma create_request_creates:
  assumes again: "attempt \<Longrightarrow> (\<And>h. sat again h (creates w n names))"
  shows "sat (create_request w counter failure body attempt again names) h (creates w (if attempt then Suc n else 1) names)"
proof -
  let ?u = "KruizeUrl (w_cfg w) @ ''/createExperiment''"
  have rest: "sat (seq (Setup_kruize_performance_profile w) again) h'
      (\<lambda>r es. creates w (Suc n) names r (Http ''POST'' ?u [] body q # Inc counter # es))" if attempt for h' q
    unfolding sat_seq
    by (rule sat_mono [OF setup_never_starves])
      (auto simp: creates_def replies_profile split: result.split sum.split
        intro!: sat_mono [OF again [OF that]])
  show ?thesis
  proof (cases "w_http w h")
    case (Inl e)
    then show ?thesis
      by (simp add: create_request_def post_def sat_rules) (simp add: creates_def)
  next
    case (Inr res)
    then have s: "sat (create_request w counter failure body attempt again names) h P =
        sat (case create_verdict_of attempt res of
                CreateFails e \<Rightarrow> ret (Inl e)
              | CreatePanics \<Rightarrow> stop (GoPanic ''interface conversion'')
              | CreateAgain \<Rightarrow> seq (Setup_kruize_performance_profile w) again
              | CreateOk \<Rightarrow> ret (Inr names)) (h @ [Http ''POST'' ?u [] body (Inr res), Inc counter])
          (\<lambda>r es. P r (Http ''POST'' ?u [] body (Inr res) # Inc counter # es))" for P
      by (simp add: create_request_def post_def sat_andthen sat_ask sat_seq [of "emit e" for e] sat_emit)
    show ?thesis
    proof (cases "create_verdict_of attempt res")
      case CreateAgain
      then have "attempt" by (rule verdict_again)
      then show ?thesis
        unfolding s CreateAgain create_verdict.case using rest by simp
    next
      case CreateOk
      with verdict_ok show ?thesis by (simp add: s sat_ret) (simp add: creates_def)
    qed (simp_all add: s sat_ret sat_stop creates_def)
  qed
qed

lemma creates_panic: "creates w n x (Crashed c) []"
  by (simp add: creates_def)

lemma StringInSlice_iff: "StringInSlice a bs = (a \<in> set bs)"
  by (induction bs) auto

lemma distinct_containers_names:
  "distinct_containers u rows = Some cs \<Longrightarrow>
    distinct (map fst cs) \<and> set (map fst cs) = set (map (\<lambda>r. AssertAndConvertToString (cell_at r ''container_name'')) rows) - set u"
proof (induction u rows arbitrary: cs rule: distinct_containers.induct)
  case (2 u r rows)
  from "2.prems" obtain c where c: "str_cell r ''container_name'' = Some c" by (auto split: option.split_asm)
  then have t: "AssertAndConvertToString (cell_at r ''container_name'') = c" by (rule str_cell_text [symmetric])
  show ?case
  proof (cases "StringInSlice c u")
    case True
    with "2.prems" c have "distinct_containers u rows = Some cs" by simp
    with "2.IH"(2) [OF c] True t show ?thesis by (auto simp: StringInSlice_iff)
  next
    case False
    with "2.prems" c obtain i cs' where cs: "str_cell r ''image_name'' = Some i"
      "distinct_containers (u @ [c]) rows = Some cs'" "cs = (c, i) # cs'"
      by (auto split: option.split_asm)
    from "2.IH"(1) [OF c False cs(1,2)] cs(3) False t show ?thesis by (auto simp: StringInSlice_iff)
  qed
qed simp

text \<open>The names a creation returns, if it returns any.\<close>

definition created_names :: "row list \<Rightarrow> string list" where
  "created_names rows = (case distinct_containers [] rows of Some cs \<Rightarrow> map fst cs | None \<Rightarrow> [])"

lemma create_containers_creates:
  assumes "attempt \<Longrightarrow> (\<And>h. sat again h (creates w n (created_names rows)))"
  shows "sat (create_containers w attempt again en cl rows) h (creates w (if attempt then Suc n else 1) (created_names rows))"
proof (cases "distinct_containers [] rows")
  case None
  then show ?thesis by (auto simp: create_containers_def sat_stop creates_panic split: list.split option.split)
next
  case (Some cs)
  then have "created_names rows = map fst cs" by (simp add: created_names_def)
  then show ?thesis
    using create_request_creates [where attempt = attempt and again = again and w = w and n = n
        and names = "created_names rows" and h = h, OF assms] Some
    by (auto simp: create_containers_def sat_stop creates_panic split: list.split option.split simp del: distinct_containers.simps)
qed

lemma created_names_containers:
  "distinct_containers [] rows \<noteq> None \<Longrightarrow> distinct (created_names rows)
     \<and> set (created_names rows) = set (map (\<lambda>r. AssertAndConvertToString (cell_at r ''container_name'')) rows)"
  using distinct_containers_names [of "[]" rows] by (auto simp: created_names_def simp del: set_map)

lemma Create_kruize_experiments_creates:
  "sat (Create_kruize_experiments w en cl rows) h (creates w 2 (created_names rows))"
  using create_containers_creates [of True "create_containers w False no_fuel en cl rows" w 1 rows en cl h]
    create_containers_creates [of False no_fuel w 0 rows en cl]
  by (simp add: Create_kruize_experiments_def numeral_2_eq_2)

lemma CreateNamespaceExperiment_creates: "sat (CreateNamespaceExperiment w en cl ns) h (creates w 2 ())"
  using create_request_creates [of True "create_namespace w False no_fuel en cl ns" w 1 "()"]
    create_request_creates [of False no_fuel w 0 "()"]
  unfolding CreateNamespaceExperiment_def create_namespace_def by (simp add: numeral_2_eq_2)

text \<open>C30: Creating a workload's experiment makes at most two requests.  It succeeds only on a reply saying that the
  experiment was created or exists, and then names each container of the rows once.\<close>

theorem Create_kruize_experiments_outcome:
  "case Create_kruize_experiments w en cl rows h of (r, es) \<Rightarrow>
     r \<noteq> OutOfFuel
     \<and> length (replies ''POST'' (KruizeUrl (w_cfg w) @ ''/createExperiment'') es) \<le> 2
     \<and> (case r of
          Done (Inr names) \<Rightarrow>
            distinct names
            \<and> set names = set (map (\<lambda>r. AssertAndConvertToString (cell_at r ''container_name'')) rows)
            \<and> accepted (last (replies ''POST'' (KruizeUrl (w_cfg w) @ ''/createExperiment'') es))
        | _ \<Rightarrow> True)"
proof -
  obtain r es where run: "Create_kruize_experiments w en cl rows h = (r, es)" by (cases "Create_kruize_experiments w en cl rows h")
  from satD [OF Create_kruize_experiments_creates run] have c: "creates w 2 (created_names rows) r es" .
  have n: "created_names rows = x \<Longrightarrow> r = Done (Inr x) \<Longrightarrow> distinct_containers [] rows \<noteq> None" for x
    using run by (auto simp: Create_kruize_experiments_def create_containers_def stop_def split: list.split_asm option.split_asm)
  from c n created_names_containers [of rows] show ?thesis
    by (cases r) (auto simp: run creates_def simp del: set_map split: sum.split sum.split_asm)
qed

section \<open>Sending results\<close>

text \<open>A reply after which \<open>Update_results\<close> calls itself again.\<close>

definition asks_again :: "world \<Rightarrow> string + http_reply \<Rightarrow> bool" where
  "asks_again w reply =
     (case reply of
        Inl _ \<Rightarrow> False
      | Inr res \<Rightarrow> hr_status res \<noteq> 201
          \<and> (case decode_body (w_decode_results w) (hr_body res) of
               Inl _ \<Rightarrow> False | Inr d \<Rightarrow> str_contains (ur_message d) null_profile))"

lemma verdict_asks_again: "(results_verdict_of w b res = ResultsAgain) = asks_again w (Inr res)"
  by (simp add: results_verdict_of_def asks_again_def split: sum.split)

text \<open>Every reply but the last one asked for a repetition; the last one too if the fuel ran out, and then there were
  as many requests as there was fuel.\<close>

definition sends :: "world \<Rightarrow> nat \<Rightarrow> 'a \<Rightarrow> (string + 'a) result \<Rightarrow> event list \<Rightarrow> bool" where
  "sends w n x r es =
     (let rs = replies ''POST'' (KruizeUrl (w_cfg w) @ ''/updateResults'') es in
      case r of
        Done (Inr y) \<Rightarrow> y = x \<and> rs \<noteq> [] \<and> length rs \<le> n \<and> list_all (asks_again w) (butlast rs) \<and> \<not> asks_again w (last rs)
      | Done (Inl _) \<Rightarrow> rs \<noteq> [] \<and> length rs \<le> n \<and> list_all (asks_again w) (butlast rs) \<and> \<not> asks_again w (last rs)
      | Crashed _ \<Rightarrow> length rs \<le> n
      | OutOfFuel \<Rightarrow> length rs = n \<and> list_all (asks_again w) rs)"

lemma sends_again:
  assumes "asks_again w q" "list_all (profile_event w) es" "sends w n x r es'"
  shows "sends w (Suc n) x r (Http ''POST'' (KruizeUrl (w_cfg w) @ ''/updateResults'') [] body q # Inc c # es @ es')"
  using assms(1,3) by (auto simp: sends_def Let_def replies_profile [OF _ _ assms(2)] split: result.split sum.split_asm result.split_asm)

lemma sends_crashed:
  "list_all (profile_event w) es \<Longrightarrow>
    sends w (Suc n) x (Crashed k) (Http ''POST'' (KruizeUrl (w_cfg w) @ ''/updateResults'') [] body q # Inc c # es)"
  by (simp add: sends_def Let_def replies_profile)

lemma send_results_sends: "sat (send_results w u counter failure body n x) h (sends w n x)"
proof (induction n arbitrary: h)
  case 0
  show ?case by (simp add: sat_no_fuel sends_def Let_def)
next
  case (Suc n)
  let ?u = "KruizeUrl (w_cfg w) @ ''/updateResults''"
  show ?case
  proof (cases "w_http w h")
    case (Inl e)
    then show ?thesis by (simp add: post_def sat_rules) (simp add: sends_def Let_def asks_again_def)
  next
    case (Inr res)
    let ?e = "Http ''POST'' ?u [] body (Inr res)"
    have s: "sat (send_results w u counter failure body (Suc n) x) h P =
        sat (case results_verdict_of w u res of
                ResultsFail e \<Rightarrow> ret (Inl e)
              | ResultsAgain \<Rightarrow> seq (Setup_kruize_performance_profile w) (send_results w u counter failure body n x)
              | ResultsPanic \<Rightarrow> stop (GoPanic ''index out of range'')
              | ResultsSent \<Rightarrow> ret (Inr x)) (h @ [?e, Inc counter]) (\<lambda>r es. P r (?e # Inc counter # es))" for P
      using Inr by (simp add: post_def sat_andthen sat_ask sat_seq [of "emit e" for e] sat_emit)
    have again: "results_verdict_of w u res \<noteq> ResultsAgain \<Longrightarrow> \<not> asks_again w (Inr res)"
      by (simp add: verdict_asks_again)
    show ?thesis
    proof (cases "results_verdict_of w u res")
      case ResultsAgain
      then have a: "asks_again w (Inr res)" by (simp only: verdict_asks_again)
      show ?thesis
        unfolding s ResultsAgain results_verdict.case sat_seq
        by (rule sat_mono [OF setup_never_starves])
          (auto split: result.split intro!: sat_mono [OF Suc.IH] sends_crashed elim!: sends_again [OF a])
    qed (use again in \<open>unfold s, simp_all add: sat_ret sat_stop sends_def\<close>)
  qed
qed

text \<open>C29: Sending results returns the payload it was given.  It repeats the request exactly while Kruize answers that
  the performance profile is null, so more fuel is needed only if every reply so far said so.\<close>

theorem Update_results_repeats:
  "case Update_results w fuel payload h of (r, es) \<Rightarrow>
     (let rs = replies ''POST'' (KruizeUrl (w_cfg w) @ ''/updateResults'') es in
      case r of
        Done (Inr y) \<Rightarrow> y = payload \<and> rs \<noteq> [] \<and> list_all (asks_again w) (butlast rs) \<and> \<not> asks_again w (last rs)
      | Done (Inl _) \<Rightarrow> rs \<noteq> [] \<and> list_all (asks_again w) (butlast rs) \<and> \<not> asks_again w (last rs)
      | Crashed _ \<Rightarrow> length rs \<le> fuel
      | OutOfFuel \<Rightarrow> length rs = fuel \<and> list_all (asks_again w) rs)"
  using send_results_sends [of w True "''updateResultRequest''" "''an Error Occured while sending metrics: ''"
      "ResultsBody payload" fuel payload h]
  unfolding Update_results_def sat_def sends_def Let_def
  by (auto split: prod.split result.split sum.split result.split_asm sum.split_asm)

text \<open>Kruize answering forever that the profile is null, while creating it neither succeeds nor conflicts.\<close>

definition null_profile_world :: world where
  "null_profile_world = example_world
     \<lparr>w_http := (\<lambda>_. Inr \<lparr>hr_status = 400, hr_body = Some (JObj [])\<rparr>),
      w_decode_results := (\<lambda>_. Inr \<lparr>ur_message = null_profile, ur_data = []\<rparr>)\<rparr>"

lemma null_profile_attempts: "sat (profile_attempts null_profile_world n) h (\<lambda>r es. r = Done ())"
  by (induction n arbitrary: h)
    (simp_all add: sat_rules post_def null_profile_world_def example_world_def)

lemma null_profile_verdict: "results_verdict_of null_profile_world u \<lparr>hr_status = 400, hr_body = Some (JObj [])\<rparr> = ResultsAgain"
  by (simp add: results_verdict_of_def decode_body_def null_profile_world_def str_contains_def sublist_order.order_refl)

lemma send_results_starves: "sat (send_results null_profile_world u counter failure body n x) h (\<lambda>r es. r = OutOfFuel)"
proof (induction n arbitrary: h)
  case (Suc n)
  have w: "w_http null_profile_world h = Inr \<lparr>hr_status = 400, hr_body = Some (JObj [])\<rparr>" for h
    by (simp add: null_profile_world_def)
  show ?case
    by (auto simp: post_def sat_andthen sat_ask sat_seq sat_emit w null_profile_verdict
        Setup_kruize_performance_profile_def Suc.IH intro!: sat_mono [OF null_profile_attempts])
qed (simp add: sat_no_fuel)

text \<open>The recursion of \<open>Update_results\<close> has no bound: against such a Kruize it never returns.\<close>

theorem Update_results_unbounded: "fst (Update_results null_profile_world fuel payload h) = OutOfFuel"
  using send_results_starves [of True "''updateResultRequest''" "''an Error Occured while sending metrics: ''"
      "ResultsBody payload" fuel payload h]
  by (simp add: Update_results_def sat_def split_def)

section \<open>Asking for recommendations\<close>

text \<open>The requests to Kruize among events.\<close>

definition asked_for :: "event list \<Rightarrow> (string \<times> string \<times> (string \<times> string) list \<times> http_body) list" where
  "asked_for es = List.map_filter (\<lambda>e. case e of Http m u q b _ \<Rightarrow> Some (m, u, q, b) | _ \<Rightarrow> None) es"

lemma Update_recommendations_asks:
  assumes "w_bad_url w (KruizeUrl (w_cfg w) @ ''/updateRecommendations'') = None"
    and "t_off t = 0" "t_zone t = ''UTC''" "case t_date t of (y, m, d) \<Rightarrow> 0 \<le> y \<and> y \<le> 9999"
  shows "sat (Update_recommendations w en t ty) h (\<lambda>r es.
      asked_for es = [(''POST'', KruizeUrl (w_cfg w) @ ''/updateRecommendations'',
             [(''experiment_name'', en), (''interval_end_time'', fmt_iso (to_utc t))], NoBody)])"
proof -
  have "to_utc t = t" using assms(2,3) by (simp add: to_utc_def)
  then show ?thesis
    by (simp add: Update_recommendations_def Let_def assms(1) utc_iso [OF assms(2-4)] sat_rules asked_for_def List.map_filter_def
        split: sum.split option.split)
qed

text \<open>C31: For a UTC time the interval that Kruize is asked for is the very key under which the reply's data is looked up: the one
  request carries an interval \<open>k\<close>, and a recommendation counts as valid exactly if Kruize marks it and its data has an entry for
  \<open>k\<close>.  (\<open>Update_recommendations\<close> formats \<open>t.String()\<close>'s reading, \<open>IsValidRecommendation\<close> formats \<open>t.UTC()\<close>.)\<close>

theorem Update_recommendations_interval:
  assumes "w_bad_url w (KruizeUrl (w_cfg w) @ ''/updateRecommendations'') = None"
    and "t_off t = 0" "t_zone t = ''UTC''" "case t_date t of (y, m, d) \<Rightarrow> 0 \<le> y \<and> y \<le> 9999"
  shows "\<exists>k. asked_for (snd (Update_recommendations w en t ty h))
        = [(''POST'', KruizeUrl (w_cfg w) @ ''/updateRecommendations'', [(''experiment_name'', en), (''interval_end_time'', k)], NoBody)]
     \<and> (\<forall>rec h'. fst (IsValidRecommendation rec t ty h')
          = Done (map_of (rm_notifications rec) ''111000'' \<noteq> None \<and> map_of (rm_data rec) k \<noteq> None))"
proof (intro exI [of _ "fmt_iso (to_utc t)"] conjI allI)
  show "asked_for (snd (Update_recommendations w en t ty h))
      = [(''POST'', KruizeUrl (w_cfg w) @ ''/updateRecommendations'',
          [(''experiment_name'', en), (''interval_end_time'', fmt_iso (to_utc t))], NoBody)]"
    using Update_recommendations_asks [OF assms, of en ty h] by (simp add: sat_def split_def)
  show "fst (IsValidRecommendation rec t ty h')
      = Done (map_of (rm_notifications rec) ''111000'' \<noteq> None \<and> map_of (rm_data rec) (fmt_iso (to_utc t)) \<noteq> None)" for rec h'
    by (auto simp: IsValidRecommendation_def ret_def emit_def seq_def andthen_def split: option.split)
qed

text \<open>A reply whose only data is for the time asked for.\<close>

definition april :: gotime where
  "april = go_date 2023 4 1 0 0 ''UTC''"

definition april_recommendation :: Recommendation where
  "april_recommendation = \<lparr>rm_version = [], rm_data = [(''2023-04-01T00:00:00.000Z'', zero_data)],
     rm_notifications = [(''111000'', \<lparr>nt_type = [], nt_message = [], nt_code = 111000\<rparr>)]\<rparr>"

lemma april_valid: "fst (IsValidRecommendation april_recommendation april ''container'' []) = Done True"
  by code_simp

theorem Update_recommendations_interval_witness:
  "asked_for (snd (Update_recommendations example_world ''e'' april ''container'' []))
     = [(''POST'', ''http://kruize/updateRecommendations'',
         [(''experiment_name'', ''e''), (''interval_end_time'', ''2023-04-01T00:00:00.000Z'')], NoBody)]"
proof -
  have u: "w_bad_url example_world (KruizeUrl (w_cfg example_world) @ ''/updateRecommendations'') = None"
    by (simp add: example_world_def)
  have t: "t_off april = 0" "t_zone april = ''UTC''" "case t_date april of (y, m, d) \<Rightarrow> 0 \<le> y \<and> y \<le> 9999"
    using go_date_valid [of 2023 4 1 0 0 "''UTC''"]
    by (simp_all add: april_def valid_civil_def days_in_def day_ns_def sec_ns_def)
  from Update_recommendations_interval [OF u t, of "''e''" "''container''" "[]"] obtain k where
    k: "asked_for (snd (Update_recommendations example_world ''e'' april ''container'' []))
      = [(''POST'', KruizeUrl (w_cfg example_world) @ ''/updateRecommendations'',
          [(''experiment_name'', ''e''), (''interval_end_time'', k)], NoBody)]"
    and v: "\<forall>rec h'. fst (IsValidRecommendation rec april ''container'' h')
      = Done (map_of (rm_notifications rec) ''111000'' \<noteq> None \<and> map_of (rm_data rec) k \<noteq> None)" by (elim exE conjE)
  from v [rule_format, of april_recommendation "[]"] have "k = ''2023-04-01T00:00:00.000Z''"
    by (auto simp: april_valid) (simp add: april_recommendation_def split: if_splits)
  with k show ?thesis by (simp add: example_world_def example_config_def)
qed

text \<open>A recommendation is valid when Kruize says it has one and it has data for the requested time.\<close>

theorem IsValidRecommendation_iff:
  "case IsValidRecommendation rec t ty h of (r, es) \<Rightarrow>
     r = Done (map_of (rm_notifications rec) ''111000'' \<noteq> None \<and> map_of (rm_data rec) (fmt_iso (to_utc t)) \<noteq> None)
     \<and> list_all (\<lambda>e. e = Inc ''invalidNamespaceRecommendation'' \<or> e = Inc ''invalidRecommendation'') es"
  by (auto simp: IsValidRecommendation_def ret_def emit_def seq_def andthen_def split: option.split)

end
