(* ===== verification/Producer.thy ===== *)
theory Producer
  imports Effects
begin

text \<open>
  \<open>internal/kafka/producer.go\<close>: a message is sent at most three times, one and two seconds apart.  The package
  variable \<open>p\<close> is non-nil once a producer has been created, so whether it is set is read off the events.  The
  settings the producer is created with are left out.
\<close>

definition producer_started :: "history \<Rightarrow> bool" where
  "producer_started h = list_ex (\<lambda>e. e = NewProducer True) h"

text \<open>\<open>startProducer\<close>, called when \<open>p\<close> is nil; the result says whether \<open>p\<close> is set afterwards.\<close>

definition startProducer :: "world \<Rightarrow> bool prog" where
  "startProducer w h = (if producer_started h then ret True h else ask NewProducer (w_new_producer w) h)"

definition sendMessageOnce :: "world \<Rightarrow> string \<Rightarrow> string \<Rightarrow> string \<Rightarrow> string option prog" where
  "sendMessageOnce w msg topic key =
     andthen (ask (Produce topic key msg) (w_produce w)) (\<lambda>reply.
       ret (case reply of
              ProduceFailed err \<Rightarrow> Some (''produce failed: '' @ err)
            | UnexpectedEvent ty \<Rightarrow> Some (''unexpected delivery event type: '' @ ty)
            | DeliveryFailed err \<Rightarrow> Some (''delivery failed: '' @ err)
            | Delivered \<Rightarrow> None))"

definition sendMessageMaxRetries :: nat where
  "sendMessageMaxRetries = 3"

text \<open>The loop, with \<open>n\<close> attempts left from number \<open>attempt\<close>.\<close>

fun send_loop :: "world \<Rightarrow> string \<Rightarrow> string \<Rightarrow> string \<Rightarrow> nat \<Rightarrow> nat \<Rightarrow> string option \<Rightarrow> string option prog" where
  "send_loop w msg topic key attempt 0 lastErr = ret lastErr"
| "send_loop w msg topic key attempt (Suc n) lastErr =
     andthen (sendMessageOnce w msg topic key) (\<lambda>err.
       case err of
         None \<Rightarrow> ret None
       | Some e \<Rightarrow>
           seq (if attempt < sendMessageMaxRetries - 1 then emit (Sleep (2 ^ attempt)) else ret ())
             (send_loop w msg topic key (attempt + 1) n (Some e)))"

definition SendMessage :: "world \<Rightarrow> string \<Rightarrow> string \<Rightarrow> string \<Rightarrow> string option prog" where
  "SendMessage w msg topic key =
     andthen (startProducer w) (\<lambda>ok.
       if \<not> ok then ret (Some (''kafka producer failed to initialize; cannot send message to topic '' @ topic))
       else send_loop w msg topic key 0 sendMessageMaxRetries None)"

section \<open>What sending promises\<close>

definition produced :: "event list \<Rightarrow> (string \<times> string \<times> string \<times> produce_reply) list" where
  "produced es = List.map_filter (\<lambda>e. case e of Produce t k m r \<Rightarrow> Some (t, k, m, r) | _ \<Rightarrow> None) es"

lemma produced_simps [simp]:
  "produced [] = []" "produced (Produce t k m r # es) = (t, k, m, r) # produced es"
  "produced (Sleep n # es) = produced es" "produced (NewProducer b # es) = produced es"
  by (simp_all add: produced_def List.map_filter_def)

text \<open>Every attempt carries the message; all but the last fail, and the last one decides.\<close>

definition delivers :: "(string \<times> string \<times> string) \<Rightarrow> nat \<Rightarrow> string option result \<Rightarrow> event list \<Rightarrow> bool" where
  "delivers m n r es =
     (let ps = produced es in
      ps \<noteq> [] \<and> length ps \<le> n
      \<and> list_all (\<lambda>(t, k, b, q). (t, k, b) = m) ps
      \<and> list_all (\<lambda>(t, k, b, q). q \<noteq> Delivered) (butlast ps)
      \<and> (case r of Done None \<Rightarrow> snd (snd (snd (last ps))) = Delivered
           | Done (Some _) \<Rightarrow> length ps = n \<and> snd (snd (snd (last ps))) \<noteq> Delivered
           | _ \<Rightarrow> False))"

lemma sendMessageOnce_sat:
  "sat (sendMessageOnce w msg topic key) h P =
     P (Done (case w_produce w h of ProduceFailed err \<Rightarrow> Some (''produce failed: '' @ err)
            | UnexpectedEvent ty \<Rightarrow> Some (''unexpected delivery event type: '' @ ty)
            | DeliveryFailed err \<Rightarrow> Some (''delivery failed: '' @ err)
            | Delivered \<Rightarrow> None)) [Produce topic key msg (w_produce w h)]"
  by (simp add: sendMessageOnce_def sat_rules)

lemma delivers_cons:
  assumes "delivers (t, k, m) n r es" "q \<noteq> Delivered"
  shows "delivers (t, k, m) (Suc n) r (Produce t k m q # es)" "delivers (t, k, m) (Suc n) r (Produce t k m q # Sleep s # es)"
  using assms by (simp_all add: delivers_def Let_def split: result.split_asm option.split_asm)

lemma send_loop_delivers: "sat (send_loop w msg topic key a (Suc n) e) h (delivers (topic, key, msg) (Suc n))"
proof (induction n arbitrary: a e h)
  case 0
  show ?case
    unfolding send_loop.simps
    by (cases "w_produce w h") (simp_all add: sat_andthen sat_seq sat_ret sat_emit sendMessageOnce_sat delivers_def Let_def)
next
  case (Suc n)
  note IH = sat_mono [OF Suc.IH delivers_cons(1)] sat_mono [OF Suc.IH delivers_cons(2)]
  show ?case
    unfolding send_loop.simps(2) [of w msg topic key a "Suc n"] sat_andthen sendMessageOnce_sat
    by (cases "w_produce w h")
      (auto simp: sat_seq sat_ret sat_emit delivers_def [of _ _ "Done None"] simp del: send_loop.simps intro!: IH)
qed

lemma SendMessage_delivers:
  "sat (SendMessage w msg topic key) h (\<lambda>r es.
     if producer_started h \<or> w_new_producer w h then delivers (topic, key, msg) 3 r es
     else (\<exists>e. r = Done (Some e)) \<and> produced es = [])"
proof -
  have d: "sat (send_loop w msg topic key 0 3 None) h' (delivers (topic, key, msg) 3)" for h'
    using send_loop_delivers [of w msg topic key 0 2 None h'] by (simp add: eval_nat_numeral)
  have skip: "delivers (topic, key, msg) 3 r es \<Longrightarrow> delivers (topic, key, msg) 3 r (NewProducer True # es)" for r es
    by (simp add: delivers_def)
  show ?thesis
    by (auto simp: SendMessage_def sat_andthen startProducer_def sat_def [of "startProducer w"] ret_def [of True] ask_def
        sat_ret sendMessageMaxRetries_def intro!: d sat_mono [OF d] skip)
qed

text \<open>A message is produced between one and three times, always with its own topic, key and bytes, and no further
  once it has been delivered; the error is nil exactly when the last attempt was delivered.  Nothing is produced
  without a producer.\<close>

theorem SendMessage_attempts:
  "case SendMessage w msg topic key h of (r, es) \<Rightarrow>
     if producer_started h \<or> w_new_producer w h then delivers (topic, key, msg) 3 r es
     else (\<exists>e. r = Done (Some e)) \<and> produced es = []"
  using SendMessage_delivers [of w msg topic key h] by (simp add: sat_def split_def)

end
