(* ===== verification/Transactions.thy ===== *)
theory Transactions
  imports Effects
begin

text \<open>
  Saving recommendations: \<open>CreateRecommendationSet\<close> and its three siblings of \<open>internal/model\<close>, and the two transactions of
  \<open>recommendation_poller.go\<close>, which the source writes out twice.  The locale \<open>saving\<close> is what both rely on of the
  operations they call; it gives the refinement: a transaction is the atomic insertion of its two batches into the
  tables the events stand for, or nothing.

  A panic inside a transaction is recovered, rolls back, and makes the function return its zero value, a nil error.
\<close>

section \<open>Saving a row\<close>

text \<open>gorm gives an \<open>UpdatedAt\<close> that is not set the time of its clock when it creates a row.\<close>

definition fill_time :: "gotime \<Rightarrow> gotime \<Rightarrow> gotime" where
  "fill_time now t = (if is_zero_time t then now else t)"

definition stamp_set :: "gotime \<Rightarrow> RecommendationSet \<Rightarrow> RecommendationSet" where
  "stamp_set now r = r\<lparr>rset_updated_at := fill_time now (rset_updated_at r)\<rparr>"

definition stamp_hist :: "gotime \<Rightarrow> HistoricalRecommendationSet \<Rightarrow> HistoricalRecommendationSet" where
  "stamp_hist now r = r\<lparr>hist_updated_at := fill_time now (hist_updated_at r)\<rparr>"

definition CreateRecommendationSet :: "world \<Rightarrow> RecommendationSet \<Rightarrow> string option prog" where
  "CreateRecommendationSet w r =
     andthen (ask Clock (w_now w)) (\<lambda>now.
     andthen (ask (SaveSet (stamp_set now r)) (w_save w)) (\<lambda>reply.
       case reply of
         DbOk \<Rightarrow> ret None
       | DbErr err \<Rightarrow> seq (emit (Inc ''dbError'')) (ret (Some err))
       | DbPanic m \<Rightarrow> stop (GoPanic m)))"

definition CreateHistoricalRecommendationSet :: "world \<Rightarrow> HistoricalRecommendationSet \<Rightarrow> string option prog" where
  "CreateHistoricalRecommendationSet w r =
     andthen (ask Clock (w_now w)) (\<lambda>now.
     andthen (ask (SaveHistory (stamp_hist now r)) (w_save w)) (\<lambda>reply.
       case reply of
         DbOk \<Rightarrow> ret None
       | DbErr err \<Rightarrow>
           if str_contains err ''no partition'' then
             seq (emit (Inc ''partitionMissing/historical_recommendation_set''))
               (seq (emit (Inc ''dbError''))
                 (ret (Some (''partition not found for resource historical_recommendation_set with org_id '' @ hist_org_id r
                    @ '' and end_time '' @ fmt_string (hist_end r)))))
           else seq (emit (Inc ''dbError'')) (ret (Some err))
       | DbPanic m \<Rightarrow> stop (GoPanic m)))"

definition CreateNamespaceRecommendationSet :: "world \<Rightarrow> NamespaceRecommendationSet \<Rightarrow> string option prog" where
  "CreateNamespaceRecommendationSet w r =
     andthen (ask (SaveNamespaceSet r) (w_save w)) (\<lambda>reply.
       case reply of
         DbOk \<Rightarrow> ret None
       | DbErr err \<Rightarrow> seq (emit (Inc ''dbError'')) (ret (Some err))
       | DbPanic m \<Rightarrow> stop (GoPanic m))"

definition CreateHistoricalNamespaceRecommendationSet :: "world \<Rightarrow> HistoricalNamespaceRecommendationSet \<Rightarrow> string option prog" where
  "CreateHistoricalNamespaceRecommendationSet w r =
     andthen (ask (SaveNamespaceHistory r) (w_save w)) (\<lambda>reply.
       case reply of
         DbOk \<Rightarrow> ret None
       | DbErr err \<Rightarrow> seq (emit (Inc ''dbError'')) (ret (Some err))
       | DbPanic m \<Rightarrow> stop (GoPanic m))"

section \<open>The transactions\<close>

text \<open>A loop of saves: the first error rolls back and is returned.\<close>

fun save_each :: "('r \<Rightarrow> string option prog) \<Rightarrow> 'r list \<Rightarrow> string option prog" where
  "save_each save [] = ret None"
| "save_each save (r # rs) =
     andthen (save r) (\<lambda>err.
       case err of
         Some e \<Rightarrow> seq (emit RollbackTx) (ret (Some e))
       | None \<Rightarrow> save_each save rs)"

definition transactionForContainerRecommendation ::
  "world \<Rightarrow> RecommendationSet list \<Rightarrow> HistoricalRecommendationSet list \<Rightarrow> string option prog" where
  "transactionForContainerRecommendation w recommendationSetList histRecommendationSetList =
     andthen (ask BeginTx (w_exec w)) (\<lambda>txError.
       recovering (emit RollbackTx) None
         (case txError of
            Some err \<Rightarrow> ret (Some err)
          | None \<Rightarrow>
              andthen (save_each (CreateRecommendationSet w) recommendationSetList) (\<lambda>e1.
                case e1 of
                  Some err \<Rightarrow> ret (Some err)
                | None \<Rightarrow>
                    andthen (save_each (CreateHistoricalRecommendationSet w) histRecommendationSetList) (\<lambda>e2.
                      case e2 of
                        Some err \<Rightarrow> ret (Some err)
                      | None \<Rightarrow> ask CommitTx (w_exec w)))))"

definition transactionForNamespaceRecommendation ::
  "world \<Rightarrow> NamespaceRecommendationSet list \<Rightarrow> HistoricalNamespaceRecommendationSet list \<Rightarrow> string option prog" where
  "transactionForNamespaceRecommendation w recommendationSetList histRecommendationSetList =
     andthen (ask BeginTx (w_exec w)) (\<lambda>txError.
       recovering (emit RollbackTx) None
         (case txError of
            Some err \<Rightarrow> ret (Some err)
          | None \<Rightarrow>
              andthen (save_each (CreateNamespaceRecommendationSet w) recommendationSetList) (\<lambda>e1.
                case e1 of
                  Some err \<Rightarrow> ret (Some err)
                | None \<Rightarrow>
                    andthen (save_each (CreateHistoricalNamespaceRecommendationSet w) histRecommendationSetList) (\<lambda>e2.
                      case e2 of
                        Some err \<Rightarrow> ret (Some err)
                      | None \<Rightarrow> ask CommitTx (w_exec w)))))"

section \<open>The tables that events stand for\<close>

record tables =
  tb_sets :: "RecommendationSet list"
  tb_hists :: "HistoricalRecommendationSet list"
  tb_nsets :: "NamespaceRecommendationSet list"
  tb_nhists :: "HistoricalNamespaceRecommendationSet list"

definition put_set :: "RecommendationSet \<Rightarrow> tables \<Rightarrow> tables" where
  "put_set r t = t\<lparr>tb_sets := upsert set_key set_merge r (tb_sets t)\<rparr>"

definition put_hist :: "HistoricalRecommendationSet \<Rightarrow> tables \<Rightarrow> tables" where
  "put_hist r t = t\<lparr>tb_hists := upsert hist_key hist_merge r (tb_hists t)\<rparr>"

definition put_nset :: "NamespaceRecommendationSet \<Rightarrow> tables \<Rightarrow> tables" where
  "put_nset r t = t\<lparr>tb_nsets := upsert nset_key nset_merge r (tb_nsets t)\<rparr>"

definition put_nhist :: "HistoricalNamespaceRecommendationSet \<Rightarrow> tables \<Rightarrow> tables" where
  "put_nhist r t = t\<lparr>tb_nhists := upsert nhist_key nhist_merge r (tb_nhists t)\<rparr>"

text \<open>The committed tables, and the tables as an open transaction sees them.\<close>

type_synonym database = "tables \<times> tables option"

fun db_step :: "event \<Rightarrow> database \<Rightarrow> database" where
  "db_step (BeginTx None) (t, p) = (t, Some t)"
| "db_step (SaveSet r DbOk) (t, p) = (t, map_option (put_set r) p)"
| "db_step (SaveHistory r DbOk) (t, p) = (t, map_option (put_hist r) p)"
| "db_step (SaveNamespaceSet r DbOk) (t, p) = (t, map_option (put_nset r) p)"
| "db_step (SaveNamespaceHistory r DbOk) (t, p) = (t, map_option (put_nhist r) p)"
| "db_step (CommitTx None) (t, p) = (case p of Some t' \<Rightarrow> (t', None) | None \<Rightarrow> (t, None))"
| "db_step (CommitTx (Some e)) (t, p) = (t, None)"
| "db_step RollbackTx (t, p) = (t, None)"
| "db_step e d = d"

definition db_after :: "event list \<Rightarrow> database \<Rightarrow> database" where
  "db_after es d = fold db_step es d"

lemma db_after_simps [simp]:
  "db_after [] d = d" "db_after (e # es) d = db_after es (db_step e d)" "db_after (es @ es') d = db_after es' (db_after es d)"
  by (simp_all add: db_after_def)

definition committed :: "event list \<Rightarrow> bool" where
  "committed es = list_ex (\<lambda>e. e = CommitTx None) es"

definition save_panicked :: "event list \<Rightarrow> bool" where
  "save_panicked es = list_ex (\<lambda>e. case e of
      SaveSet _ (DbPanic _) \<Rightarrow> True | SaveHistory _ (DbPanic _) \<Rightarrow> True
    | SaveNamespaceSet _ (DbPanic _) \<Rightarrow> True | SaveNamespaceHistory _ (DbPanic _) \<Rightarrow> True | _ \<Rightarrow> False) es"

lemma event_facts [simp]:
  "\<not> committed []" "\<not> save_panicked []"
  "committed (es @ es') = (committed es \<or> committed es')" "save_panicked (es @ es') = (save_panicked es \<or> save_panicked es')"
  "committed (e # es) = (e = CommitTx None \<or> committed es)"
  "save_panicked (BeginTx b # es) = save_panicked es" "save_panicked (CommitTx b # es) = save_panicked es"
  "save_panicked (Clock now # es) = save_panicked es" "save_panicked (RollbackTx # es) = save_panicked es" "save_panicked (Inc c # es) = save_panicked es"
  "save_panicked (SaveSet r q # es) = ((\<exists>m. q = DbPanic m) \<or> save_panicked es)"
  "save_panicked (SaveHistory r' q # es) = ((\<exists>m. q = DbPanic m) \<or> save_panicked es)"
  "save_panicked (SaveNamespaceSet r'' q # es) = ((\<exists>m. q = DbPanic m) \<or> save_panicked es)"
  "save_panicked (SaveNamespaceHistory r3 q # es) = ((\<exists>m. q = DbPanic m) \<or> save_panicked es)"
  by (auto simp: committed_def save_panicked_def split: db_reply.split)

section \<open>What a transaction relies on\<close>

text \<open>A save either succeeds and puts its row, completed as \<open>stamps\<close> says, into the open transaction, or fails or panics and leaves
  it alone.\<close>

locale saving =
  fixes save :: "'r \<Rightarrow> string option prog" and puts :: "'r \<Rightarrow> tables \<Rightarrow> tables"
    and stamps :: "event list \<Rightarrow> 'r \<Rightarrow> 'r \<Rightarrow> bool"
  assumes stamps_more: "stamps es r r' \<Longrightarrow> set es \<subseteq> set es' \<Longrightarrow> stamps es' r r'"
    and save_sat: "sat (save r) h (\<lambda>res es. \<not> committed es \<and>
    (case res of
       Done None \<Rightarrow> (\<exists>r'. stamps es r r' \<and> db_after es (t, Some p) = (t, Some (puts r' p))) \<and> \<not> save_panicked es
     | Done (Some _) \<Rightarrow> db_after es (t, Some p) = (t, Some p) \<and> \<not> save_panicked es
     | Crashed (GoPanic _) \<Rightarrow> db_after es (t, Some p) = (t, Some p) \<and> save_panicked es
     | _ \<Rightarrow> False))"
    and save_fine: "sat (save r) h (\<lambda>res es. list_all (\<lambda>e. \<not> is_commit e) es
      \<and> (case res of Done None \<Rightarrow> list_all clean es | Done (Some _) \<Rightarrow> True | _ \<Rightarrow> list_all fine es))"
begin

lemma all_stamps_more: "list_all2 (stamps es) rs rs' \<Longrightarrow> set es \<subseteq> set es' \<Longrightarrow> list_all2 (stamps es') rs rs'"
  by (erule list_all2_mono) (rule stamps_more)

lemma save_each_fine: "sat (save_each save rs) h (\<lambda>res es. list_all (\<lambda>e. \<not> is_commit e) es
    \<and> (case res of Done None \<Rightarrow> list_all clean es | Done (Some _) \<Rightarrow> True | _ \<Rightarrow> list_all fine es))"
proof (induction rs arbitrary: h)
  case (Cons r rs)
  show ?case
    unfolding save_each.simps sat_andthen
    by (rule sat_mono [OF save_fine [of r h]])
      (auto split: result.split_asm result.split option.split_asm option.split
        simp: sat_seq sat_emit sat_ret clean_fine intro!: sat_mono [OF Cons.IH])
qed (simp add: sat_ret)

lemma save_each_sat: "sat (save_each save rs) h (\<lambda>res es. \<not> committed es \<and>
    (case res of
       Done None \<Rightarrow> (\<exists>rs'. list_all2 (stamps es) rs rs' \<and> db_after es (t, Some p) = (t, Some (fold puts rs' p))) \<and> \<not> save_panicked es
     | Done (Some _) \<Rightarrow> db_after es (t, Some p) = (t, None) \<and> \<not> save_panicked es
     | Crashed (GoPanic _) \<Rightarrow> (\<exists>p'. db_after es (t, Some p) = (t, Some p')) \<and> save_panicked es
     | _ \<Rightarrow> False))"
proof (induction rs arbitrary: h p)
  case (Cons r rs)
  have more: "\<exists>rs''. list_all2 (stamps (es @ es')) (r # rs) rs'' \<and> fold puts rs' (puts r' p) = fold puts rs'' p"
    if "stamps es r r'" "list_all2 (stamps es') rs rs'" for r' rs' es es'
    using stamps_more [OF that(1), of "es @ es'"] all_stamps_more [OF that(2), of "es @ es'"] by (intro exI [of _ "r' # rs'"]) simp
  have step: "sat (save_each save rs) h' (\<lambda>res es'. \<not> committed (es @ es') \<and>
    (case res of
       Done None \<Rightarrow> (\<exists>rs'. list_all2 (stamps (es @ es')) (r # rs) rs' \<and> db_after (es @ es') (t, Some p) = (t, Some (fold puts rs' p)))
         \<and> \<not> save_panicked (es @ es')
     | Done (Some _) \<Rightarrow> db_after (es @ es') (t, Some p) = (t, None) \<and> \<not> save_panicked (es @ es')
     | Crashed (GoPanic _) \<Rightarrow> (\<exists>p'. db_after (es @ es') (t, Some p) = (t, Some p')) \<and> save_panicked (es @ es')
     | _ \<Rightarrow> False))"
    if "\<not> committed es" "\<not> save_panicked es" "stamps es r r'" "db_after es (t, Some p) = (t, Some (puts r' p))" for es r' h'
    by (rule sat_mono [OF Cons.IH [of h' "puts r' p"]])
      (use that more [OF that(3)] in \<open>auto split: result.split_asm result.split option.split_asm option.split crash.split_asm crash.split\<close>)
  show ?case
    unfolding save_each.simps sat_andthen
  proof (rule sat_mono [OF save_sat [of r h t p]], goal_cases)
    case (1 res es)
    show ?case
    proof (cases "res = Done None")
      case True
      with 1 obtain r' where "stamps es r r'" "db_after es (t, Some p) = (t, Some (puts r' p))" by auto
      with 1 True show ?thesis unfolding True result.case option.case by (intro step) auto
    next
      case False
      with 1 show ?thesis
        by (auto split: result.split_asm result.split option.split_asm option.split crash.split_asm crash.split
            simp: sat_seq sat_emit sat_ret)
    qed
  qed
qed (simp add: sat_ret)

end

locale transaction = sets: saving save puts stamps + hists: saving keep keeps dates
  for save :: "'r \<Rightarrow> string option prog" and puts and stamps and keep :: "'h \<Rightarrow> string option prog" and keeps and dates +
  fixes w :: world and tx :: "'r list \<Rightarrow> 'h list \<Rightarrow> string option prog"
  assumes tx_eq: "tx rs hs =
     andthen (ask BeginTx (w_exec w)) (\<lambda>txError.
       recovering (emit RollbackTx) None
         (case txError of
            Some err \<Rightarrow> ret (Some err)
          | None \<Rightarrow>
              andthen (save_each save rs) (\<lambda>e1. case e1 of Some err \<Rightarrow> ret (Some err)
                | None \<Rightarrow> andthen (save_each keep hs) (\<lambda>e2. case e2 of Some err \<Rightarrow> ret (Some err)
                    | None \<Rightarrow> ask CommitTx (w_exec w)))))"
begin

lemma body_sat: "sat (andthen (save_each save rs) (\<lambda>e1. case e1 of Some err \<Rightarrow> ret (Some err)
     | None \<Rightarrow> andthen (save_each keep hs) (\<lambda>e2. case e2 of Some err \<Rightarrow> ret (Some err)
         | None \<Rightarrow> ask CommitTx (w_exec w)))) h
   (\<lambda>res es. case res of
       Done None \<Rightarrow> committed es \<and> \<not> save_panicked es
         \<and> (\<exists>rs' hs'. list_all2 (stamps es) rs rs' \<and> list_all2 (dates es) hs hs'
              \<and> db_after es (t, Some p) = (fold keeps hs' (fold puts rs' p), None))
     | Done (Some _) \<Rightarrow> \<not> committed es \<and> \<not> save_panicked es \<and> db_after es (t, Some p) = (t, None)
     | Crashed (GoPanic _) \<Rightarrow> \<not> committed es \<and> save_panicked es \<and> (\<exists>p'. db_after es (t, Some p) = (t, Some p'))
     | _ \<Rightarrow> False)"
proof -
  have more: "\<exists>rs''. list_all2 (stamps (es @ es' @ [e])) rs rs''
      \<and> (\<exists>hs''. list_all2 (dates (es @ es' @ [e])) hs hs'' \<and> fold keeps hs' (fold puts rs' p) = fold keeps hs'' (fold puts rs'' p))"
    if "list_all2 (stamps es) rs rs'" "list_all2 (dates es') hs hs'" for rs' hs' es es' e
    using sets.all_stamps_more [OF that(1), of "es @ es' @ [e]"] hists.all_stamps_more [OF that(2), of "es @ es' @ [e]"]
    by (intro exI [of _ rs'] exI [of _ hs'] conjI) auto
  show ?thesis
    unfolding sat_andthen
  proof (rule sat_mono [OF sets.save_each_sat [of rs h t p]], goal_cases)
    case (1 res es)
    show ?case
    proof (cases "res = Done None")
      case True
      with 1 obtain rs' where rs': "list_all2 (stamps es) rs rs'" "db_after es (t, Some p) = (t, Some (fold puts rs' p))" by auto
      from 1 True have "\<not> committed es" "\<not> save_panicked es" by auto
      with rs' show ?thesis
        unfolding True result.case option.case sat_andthen
        by (intro sat_mono [OF hists.save_each_sat [of hs "h @ es" t "fold puts rs' p"]])
          (auto split: result.split_asm result.split option.split_asm option.split crash.split_asm crash.split
            simp: sat_ret sat_ask intro: more)
    next
      case False
      with 1 show ?thesis
        by (auto split: result.split_asm result.split option.split_asm option.split crash.split_asm crash.split simp: sat_ret)
    qed
  qed
qed

lemma body_fine: "sat (andthen (save_each save rs) (\<lambda>e1. case e1 of Some err \<Rightarrow> ret (Some err)
     | None \<Rightarrow> andthen (save_each keep hs) (\<lambda>e2. case e2 of Some err \<Rightarrow> ret (Some err)
         | None \<Rightarrow> ask CommitTx (w_exec w)))) h
   (\<lambda>res es. list_all (\<lambda>e. \<not> is_commit e) es
     \<and> (case res of Done None \<Rightarrow> list_all clean es | Done (Some _) \<Rightarrow> True | _ \<Rightarrow> list_all fine es))"
  unfolding sat_andthen
  by (rule sat_mono [OF sets.save_each_fine [of rs h]])
    (auto split: result.split_asm result.split option.split_asm option.split
      simp: sat_andthen sat_ret sat_ask clean_fine intro!: sat_mono [OF hists.save_each_fine])

text \<open>A nil error means that no failure but panics occurred, and a commit that none did.\<close>

lemma nil_fine: "sat (tx rs hs) h (\<lambda>res es. list_all (\<lambda>e. \<not> is_commit e) es
    \<and> (case res of Done (Some _) \<Rightarrow> True | _ \<Rightarrow> list_all fine es) \<and> (committed es \<longrightarrow> list_all clean es))"
proof (cases "w_exec w h")
  case (Some e)
  then show ?thesis by (simp add: tx_eq sat_rules)
next
  case None
  show ?thesis
    unfolding tx_eq sat_andthen [of "ask BeginTx (w_exec w)"] sat_ask result.case None option.case sat_recovering
    by (rule sat_mono [OF sat_conj [OF body_fine body_sat]])
      (auto split: result.split_asm result.split option.split_asm crash.split_asm crash.split
        simp: sat_andthen sat_emit sat_ret clean_fine)
qed

text \<open>All rows or none, and no crash; the error is nil exactly on a commit or a recovered panic.\<close>

lemma atomic: "sat (tx rs hs) h (\<lambda>res es.
     (if committed es then \<exists>rs' hs'. list_all2 (stamps es) rs rs' \<and> list_all2 (dates es) hs hs'
          \<and> db_after es (t, None) = (fold keeps hs' (fold puts rs' t), None)
      else db_after es (t, None) = (t, None))
     \<and> (\<exists>e. res = Done e \<and> (e = None) = (committed es \<or> save_panicked es))
     \<and> \<not> (committed es \<and> save_panicked es))"
proof (cases "w_exec w h")
  case (Some e)
  then show ?thesis by (simp add: tx_eq sat_rules)
next
  case None
  have more: "\<exists>rs''. list_all2 (stamps (e # es)) rs rs''
      \<and> (\<exists>hs''. list_all2 (dates (e # es)) hs hs'' \<and> fold keeps hs' (fold puts rs' t) = fold keeps hs'' (fold puts rs'' t))"
    if "list_all2 (stamps es) rs rs'" "list_all2 (dates es) hs hs'" for rs' hs' es e
    using sets.all_stamps_more [OF that(1), of "e # es"] hists.all_stamps_more [OF that(2), of "e # es"]
    by (intro exI [of _ rs'] exI [of _ hs'] conjI) auto
  show ?thesis
    unfolding tx_eq sat_andthen [of "ask BeginTx (w_exec w)"] sat_ask result.case None option.case sat_recovering
    by (rule sat_mono [OF body_sat [of _ _ _ t t]])
      (auto split: result.split_asm result.split option.split_asm crash.split_asm crash.split
        simp: sat_andthen sat_emit sat_ret intro: more)
qed

end

text \<open>The rows that are inserted are those given, stamped with times of the clock; a namespace's are inserted as they are.\<close>

definition stamped_set :: "event list \<Rightarrow> RecommendationSet \<Rightarrow> RecommendationSet \<Rightarrow> bool" where
  "stamped_set es r r' = (\<exists>now. Clock now \<in> set es \<and> r' = stamp_set now r)"

definition stamped_hist :: "event list \<Rightarrow> HistoricalRecommendationSet \<Rightarrow> HistoricalRecommendationSet \<Rightarrow> bool" where
  "stamped_hist es r r' = (\<exists>now. Clock now \<in> set es \<and> r' = stamp_hist now r)"

definition same_row :: "event list \<Rightarrow> 'r \<Rightarrow> 'r \<Rightarrow> bool" where
  "same_row es r r' = (r' = r)"

lemma all_same_row: "list_all2 (same_row es) rs rs' = (rs' = rs)"
  unfolding same_row_def by (auto simp: list_all2_conv_all_nth intro: nth_equalityI)

interpretation save_set: saving "CreateRecommendationSet w" put_set stamped_set for w
  by unfold_locales (auto simp: CreateRecommendationSet_def stamped_set_def sat_rules split: db_reply.split)

interpretation save_hist: saving "CreateHistoricalRecommendationSet w" put_hist stamped_hist for w
  by unfold_locales (auto simp: CreateHistoricalRecommendationSet_def stamped_hist_def sat_rules split: db_reply.split)

interpretation save_nset: saving "CreateNamespaceRecommendationSet w" put_nset same_row for w
  by unfold_locales (auto simp: CreateNamespaceRecommendationSet_def same_row_def sat_rules split: db_reply.split)

interpretation save_nhist: saving "CreateHistoricalNamespaceRecommendationSet w" put_nhist same_row for w
  by unfold_locales (auto simp: CreateHistoricalNamespaceRecommendationSet_def same_row_def sat_rules split: db_reply.split)

interpretation ctx: transaction "CreateRecommendationSet w" put_set stamped_set "CreateHistoricalRecommendationSet w" put_hist stamped_hist
    w "transactionForContainerRecommendation w" for w
  by (intro transaction.intro transaction_axioms.intro save_set.saving_axioms save_hist.saving_axioms)
    (rule transactionForContainerRecommendation_def)

interpretation ntx: transaction "CreateNamespaceRecommendationSet w" put_nset same_row
    "CreateHistoricalNamespaceRecommendationSet w" put_nhist same_row w "transactionForNamespaceRecommendation w" for w
  by (intro transaction.intro transaction_axioms.intro save_nset.saving_axioms save_nhist.saving_axioms)
    (rule transactionForNamespaceRecommendation_def)

section \<open>Refinement\<close>

lemma put_sets: "fold put_set rs t = t\<lparr>tb_sets := insert_all set_key set_merge rs (tb_sets t)\<rparr>"
  by (induction rs arbitrary: t) (simp_all add: insert_all_def put_set_def)

lemma put_hists: "fold put_hist hs t = t\<lparr>tb_hists := insert_all hist_key hist_merge hs (tb_hists t)\<rparr>"
  by (induction hs arbitrary: t) (simp_all add: insert_all_def put_hist_def)

lemma put_nsets: "fold put_nset rs t = t\<lparr>tb_nsets := insert_all nset_key nset_merge rs (tb_nsets t)\<rparr>"
  by (induction rs arbitrary: t) (simp_all add: insert_all_def put_nset_def)

lemma put_nhists: "fold put_nhist hs t = t\<lparr>tb_nhists := insert_all nhist_key nhist_merge hs (tb_nhists t)\<rparr>"
  by (induction hs arbitrary: t) (simp_all add: insert_all_def put_nhist_def)

lemma container_atomic:
  "sat (transactionForContainerRecommendation w rs hs) h (\<lambda>res es.
     (if committed es
      then \<exists>rs' hs'. list_all2 (stamped_set es) rs rs' \<and> list_all2 (stamped_hist es) hs hs'
        \<and> db_after es (t, None) = (t\<lparr>tb_sets := insert_all set_key set_merge rs' (tb_sets t),
             tb_hists := insert_all hist_key hist_merge hs' (tb_hists t)\<rparr>, None)
      else db_after es (t, None) = (t, None))
     \<and> (\<exists>e. res = Done e \<and> (e = None) = (committed es \<or> save_panicked es))
     \<and> \<not> (committed es \<and> save_panicked es))"
  by (rule sat_mono [OF ctx.atomic [of w rs hs h t]]) (unfold put_sets put_hists, simp cong: if_cong)

lemma namespace_atomic:
  "sat (transactionForNamespaceRecommendation w rs hs) h (\<lambda>res es.
     db_after es (t, None) =
       (if committed es
        then t\<lparr>tb_nsets := insert_all nset_key nset_merge rs (tb_nsets t), tb_nhists := insert_all nhist_key nhist_merge hs (tb_nhists t)\<rparr>
        else t, None)
     \<and> (\<exists>e. res = Done e \<and> (e = None) = (committed es \<or> save_panicked es))
     \<and> \<not> (committed es \<and> save_panicked es))"
  by (rule sat_mono [OF ntx.atomic [of w rs hs h t]]) (unfold put_nsets put_nhists all_same_row, simp cong: if_cong)

text \<open>C9: A transaction of container recommendations inserts both batches, each row stamped with a time of the clock, or changes
  nothing; its error is nil exactly when it committed or a save panicked, and then nothing was saved.\<close>

theorem container_transaction_atomic:
  "case transactionForContainerRecommendation w rs hs h of (res, es) \<Rightarrow>
     (if committed es
      then \<exists>rs' hs'. list_all2 (stamped_set es) rs rs' \<and> list_all2 (stamped_hist es) hs hs'
        \<and> db_after es (t, None) = (t\<lparr>tb_sets := insert_all set_key set_merge rs' (tb_sets t),
             tb_hists := insert_all hist_key hist_merge hs' (tb_hists t)\<rparr>, None)
      else db_after es (t, None) = (t, None))
     \<and> (\<exists>e. res = Done e \<and> (e = None) = (committed es \<or> save_panicked es))
     \<and> \<not> (committed es \<and> save_panicked es)"
  using container_atomic [of w rs hs h t] unfolding sat_def .

text \<open>The same for a transaction of namespace recommendations.\<close>

theorem namespace_transaction_atomic:
  "case transactionForNamespaceRecommendation w rs hs h of (res, es) \<Rightarrow>
     db_after es (t, None) =
       (if committed es
        then t\<lparr>tb_nsets := insert_all nset_key nset_merge rs (tb_nsets t), tb_nhists := insert_all nhist_key nhist_merge hs (tb_nhists t)\<rparr>
        else t, None)
     \<and> (\<exists>e. res = Done e \<and> (e = None) = (committed es \<or> save_panicked es))
     \<and> \<not> (committed es \<and> save_panicked es)"
  using namespace_atomic [of w rs hs h t] by (simp add: sat_def split_def)

section \<open>Invariants and redelivery\<close>

text \<open>No two rows of a table have the same conflict key.\<close>

definition keys_unique :: "tables \<Rightarrow> bool" where
  "keys_unique t =
     (distinct (map set_key (tb_sets t)) \<and> distinct (map hist_key (tb_hists t))
      \<and> distinct (map nset_key (tb_nsets t)) \<and> distinct (map nhist_key (tb_nhists t)))"

lemma keys_unique_put:
  "keys_unique t \<Longrightarrow> keys_unique (put_set r t)" "keys_unique t \<Longrightarrow> keys_unique (put_hist r' t)"
  "keys_unique t \<Longrightarrow> keys_unique (put_nset r'' t)" "keys_unique t \<Longrightarrow> keys_unique (put_nhist r3 t)"
  by (simp_all add: keys_unique_def put_set_def put_hist_def put_nset_def put_nhist_def
      sets.distinct_upsert hists.distinct_upsert nsets.distinct_upsert nhists.distinct_upsert)

definition db_ok :: "database \<Rightarrow> bool" where
  "db_ok d = (keys_unique (fst d) \<and> (case snd d of None \<Rightarrow> True | Some t \<Rightarrow> keys_unique t))"

lemma db_step_ok: "db_ok d \<Longrightarrow> db_ok (db_step e d)"
  by (cases "(e, d)" rule: db_step.cases) (auto simp: db_ok_def keys_unique_put split: option.splits)

lemma db_after_ok: "db_ok d \<Longrightarrow> db_ok (db_after es d)"
  by (induction es arbitrary: d) (simp_all add: db_step_ok)

text \<open>Whatever happens, the tables keep unique keys.\<close>

lemma keys_stay_unique: "keys_unique t \<Longrightarrow> keys_unique (fst (db_after es (t, None)))"
  using db_after_ok [of "(t, None)" es] by (simp add: db_ok_def)

lemma find_list_all2:
  assumes "list_all2 R xs ys" "\<And>x y. R x y \<Longrightarrow> P x = P y"
  shows "rel_option R (find P xs) (find P ys)"
  using assms(1) by induction (auto dest: assms(2))

lemma list_all2_rev_find:
  assumes "list_all2 R xs ys" "\<And>x y. R x y \<Longrightarrow> P x = P y"
  shows "rel_option R (find P (rev xs)) (find P (rev ys))"
  using assms(1) by (intro find_list_all2 [OF _ assms(2)]) simp_all

lemma set_key_eq: "(set_key x = (wl, c)) = (rset_workload_id x = wl \<and> rset_container x = c)"
  by (simp add: set_key_def)

lemma hist_key_eq: "(hist_key x = (org, wl, c, e)) = (hist_org_id x = org \<and> hist_workload_id x = wl \<and> hist_container x = c \<and> t_ns (hist_end x) = e)"
  by (simp add: hist_key_def)

lemma set_rows:
  assumes "distinct (map set_key sets)" "list_all2 (stamped_set es) rs rs'"
  shows "case find (\<lambda>x. set_key x = k) (rev rs) of
      Some r \<Rightarrow> \<exists>now. Clock now \<in> set es \<and> filter (\<lambda>x. set_key x = k) (insert_all set_key set_merge rs' sets) = [stamp_set now r]
    | None \<Rightarrow> filter (\<lambda>x. set_key x = k) (insert_all set_key set_merge rs' sets) = filter (\<lambda>x. set_key x = k) sets"
proof -
  have "set_merge x r = r" if "set_key x = set_key r" for x r using that by (simp add: set_key_def set_merge_def)
  moreover have "rel_option (stamped_set es) (find (\<lambda>x. set_key x = k) (rev rs)) (find (\<lambda>x. set_key x = k) (rev rs'))"
    by (rule list_all2_rev_find [OF assms(2)]) (auto simp: stamped_set_def stamp_set_def set_key_def)
  ultimately show ?thesis
    using sets.insert_all_filter [OF assms(1), of k rs']
    by (cases "find (\<lambda>x. set_key x = k) (rev rs)"; cases "find (\<lambda>x. set_key x = k) (rev rs')")
      (auto simp: sets.last_for_def stamped_set_def)
qed

lemma hist_rows:
  assumes "distinct (map hist_key hists)" "list_all2 (stamped_hist es) hs hs'"
  shows "case find (\<lambda>x. hist_key x = k) (rev hs) of
      Some r \<Rightarrow> \<exists>now. Clock now \<in> set es \<and> filter (\<lambda>x. hist_key x = k) (insert_all hist_key hist_merge hs' hists) = [stamp_hist now r]
    | None \<Rightarrow> filter (\<lambda>x. hist_key x = k) (insert_all hist_key hist_merge hs' hists) = filter (\<lambda>x. hist_key x = k) hists"
proof -
  have "hist_merge x r = r" if "hist_key x = hist_key r" for x r using that by (simp add: hist_key_def hist_merge_def)
  moreover have "rel_option (stamped_hist es) (find (\<lambda>x. hist_key x = k) (rev hs)) (find (\<lambda>x. hist_key x = k) (rev hs'))"
    by (rule list_all2_rev_find [OF assms(2)]) (auto simp: stamped_hist_def stamp_hist_def hist_key_def)
  ultimately show ?thesis
    using hists.insert_all_filter [OF assms(1), of k hs']
    by (cases "find (\<lambda>x. hist_key x = k) (rev hs)"; cases "find (\<lambda>x. hist_key x = k) (rev hs')")
      (auto simp: hists.last_for_def stamped_hist_def)
qed

text \<open>C15: After a transaction of container recommendations that committed, there is for every workload and container in the batch
  exactly one row, which is the batch's last one for them in every column, with a time of the clock in \<open>updated_at\<close>; likewise in the
  history for every organisation, workload, container and end of the interval.  The rows of other keys, and the tables of the
  namespaces, are as they were.\<close>

theorem container_rows_replaced:
  assumes "keys_unique t" "transactionForContainerRecommendation w rs hs h = (res, es)" "committed es"
  shows "\<exists>t'. db_after es (t, None) = (t', None)
    \<and> (\<forall>wl c. case find (\<lambda>r. rset_workload_id r = wl \<and> rset_container r = c) (rev rs) of
          Some r \<Rightarrow> \<exists>now. Clock now \<in> set es \<and> filter (\<lambda>r. rset_workload_id r = wl \<and> rset_container r = c) (tb_sets t') = [stamp_set now r]
        | None \<Rightarrow> filter (\<lambda>r. rset_workload_id r = wl \<and> rset_container r = c) (tb_sets t')
                  = filter (\<lambda>r. rset_workload_id r = wl \<and> rset_container r = c) (tb_sets t))
    \<and> (\<forall>org wl c e.
          case find (\<lambda>r. hist_org_id r = org \<and> hist_workload_id r = wl \<and> hist_container r = c \<and> t_ns (hist_end r) = e) (rev hs) of
          Some r \<Rightarrow> \<exists>now. Clock now \<in> set es \<and>
            filter (\<lambda>r. hist_org_id r = org \<and> hist_workload_id r = wl \<and> hist_container r = c \<and> t_ns (hist_end r) = e) (tb_hists t')
              = [stamp_hist now r]
        | None \<Rightarrow>
            filter (\<lambda>r. hist_org_id r = org \<and> hist_workload_id r = wl \<and> hist_container r = c \<and> t_ns (hist_end r) = e) (tb_hists t')
              = filter (\<lambda>r. hist_org_id r = org \<and> hist_workload_id r = wl \<and> hist_container r = c \<and> t_ns (hist_end r) = e) (tb_hists t))
    \<and> tb_nsets t' = tb_nsets t \<and> tb_nhists t' = tb_nhists t"
proof -
  from satD [OF container_atomic assms(2), of t] assms(3) obtain rs' hs' where
    r: "list_all2 (stamped_set es) rs rs'" "list_all2 (stamped_hist es) hs hs'"
      "db_after es (t, None) = (t\<lparr>tb_sets := insert_all set_key set_merge rs' (tb_sets t),
         tb_hists := insert_all hist_key hist_merge hs' (tb_hists t)\<rparr>, None)" by auto
  have d: "distinct (map set_key (tb_sets t))" "distinct (map hist_key (tb_hists t))" using assms(1) by (simp_all add: keys_unique_def)
  note rows = set_rows [OF d(1) r(1), of "(wl, c)" for wl c, unfolded set_key_eq]
    hist_rows [OF d(2) r(2), of "(org, wl, c, e)" for org wl c e, unfolded hist_key_eq]
  let ?t = "t\<lparr>tb_sets := insert_all set_key set_merge rs' (tb_sets t), tb_hists := insert_all hist_key hist_merge hs' (tb_hists t)\<rparr>"
  have sel: "tb_sets ?t = insert_all set_key set_merge rs' (tb_sets t)" "tb_hists ?t = insert_all hist_key hist_merge hs' (tb_hists t)"
    "tb_nsets ?t = tb_nsets t" "tb_nhists ?t = tb_nhists t" by simp_all
  show ?thesis unfolding r(3) by (rule exI [of _ ?t], unfold sel) (intro conjI allI refl rows)
qed

definition example_set :: "string \<Rightarrow> RecommendationSet" where
  "example_set text = \<lparr>rset_workload_id = 7, rset_container = ''web'',
     rset_columns = \<lparr>CPURequestCurrent = None, MemoryRequestCurrent = None, cv_variations = no_pcts\<rparr>,
     rset_start = go_zero_time, rset_end = go_zero_time, rset_recommendations = text, rset_updated_at = go_zero_time\<rparr>"

definition no_tables :: tables where
  "no_tables = \<lparr>tb_sets = [], tb_hists = [], tb_nsets = [], tb_nhists = []\<rparr>"

text \<open>A world with a clock that ticks at every event.\<close>

definition tick :: "nat \<Rightarrow> gotime" where
  "tick n = \<lparr>t_ns = int n, t_off = 0, t_zone = ''UTC''\<rparr>"

definition ticking_world :: world where
  "ticking_world = example_world\<lparr>w_now := (\<lambda>h. tick (length h))\<rparr>"

definition example_run :: "nat \<Rightarrow> event list" where
  "example_run n = [BeginTx None, Clock (tick (n + 1)), SaveSet (stamp_set (tick (n + 1)) (example_set ''a'')) DbOk,
     Clock (tick (n + 3)), SaveSet (stamp_set (tick (n + 3)) (example_set ''b'')) DbOk, CommitTx None]"

lemma example_runs:
  "transactionForContainerRecommendation ticking_world [example_set ''a'', example_set ''b''] [] h = (Done None, example_run (length h))"
  by (simp add: transactionForContainerRecommendation_def CreateRecommendationSet_def andthen_def ask_def recovering_def
      ret_def ticking_world_def example_world_def example_run_def numeral_3_eq_3)

theorem container_rows_replaced_witness:
  "\<exists>t' now. db_after (example_run 0) (no_tables, None) = (t', None) \<and> now \<in> {tick 1, tick 3}
     \<and> filter (\<lambda>r. rset_workload_id r = 7 \<and> rset_container r = ''web'') (tb_sets t') = [stamp_set now (example_set ''b'')]"
proof -
  have k: "keys_unique no_tables" by (simp add: keys_unique_def no_tables_def)
  have c: "committed (example_run (length []))" by (simp add: example_run_def)
  from container_rows_replaced [OF k example_runs c] obtain t' where t: "db_after (example_run 0) (no_tables, None) = (t', None)"
    and r: "case find (\<lambda>r. rset_workload_id r = 7 \<and> rset_container r = ''web'') (rev [example_set ''a'', example_set ''b'']) of
          Some r \<Rightarrow> \<exists>now. Clock now \<in> set (example_run 0) \<and> filter (\<lambda>r. rset_workload_id r = 7 \<and> rset_container r = ''web'') (tb_sets t') = [stamp_set now r]
        | None \<Rightarrow> filter (\<lambda>r. rset_workload_id r = 7 \<and> rset_container r = ''web'') (tb_sets t')
                  = filter (\<lambda>r. rset_workload_id r = 7 \<and> rset_container r = ''web'') (tb_sets no_tables)"
    by (simp only: list.size) blast
  have "find (\<lambda>r. rset_workload_id r = 7 \<and> rset_container r = ''web'') (rev [example_set ''a'', example_set ''b'']) = Some (example_set ''b'')"
    by (simp add: example_set_def)
  with r t show ?thesis by (auto simp: example_run_def)
qed

text \<open>What the tables say, \<open>updated_at\<close> left aside.\<close>

definition undated_set :: "RecommendationSet \<Rightarrow> RecommendationSet" where
  "undated_set r = r\<lparr>rset_updated_at := go_zero_time\<rparr>"

definition undated_hist :: "HistoricalRecommendationSet \<Rightarrow> HistoricalRecommendationSet" where
  "undated_hist r = r\<lparr>hist_updated_at := go_zero_time\<rparr>"

definition undated :: "tables \<Rightarrow> tables" where
  "undated t = t\<lparr>tb_sets := map undated_set (tb_sets t), tb_hists := map undated_hist (tb_hists t)\<rparr>"

lemma undated_rows:
  "list_all2 (stamped_set es) rs rs' \<Longrightarrow> map undated_set rs' = map undated_set rs"
  "list_all2 (stamped_hist es) hs hs' \<Longrightarrow> map undated_hist hs' = map undated_hist hs"
  by (auto simp: list_all2_conv_all_nth stamped_set_def stamped_hist_def stamp_set_def stamp_hist_def undated_set_def undated_hist_def
      intro!: nth_equalityI)

lemma undated_insert:
  "map undated_set (insert_all set_key set_merge rs sets) = insert_all set_key set_merge (map undated_set rs) (map undated_set sets)"
  "map undated_hist (insert_all hist_key hist_merge hs hists) = insert_all hist_key hist_merge (map undated_hist hs) (map undated_hist hists)"
  by (rule sets.insert_all_map, simp_all add: set_key_def set_merge_def undated_set_def)
    (rule hists.insert_all_map, simp_all add: hist_key_def hist_merge_def undated_hist_def)

lemma undated_keys: "map set_key (map undated_set sets) = map set_key sets" "map hist_key (map undated_hist hists) = map hist_key hists"
  by (simp_all add: undated_set_def undated_hist_def set_key_def hist_key_def comp_def)

text \<open>What a committed transaction does to the undated tables.\<close>

lemma undated_after:
  assumes "transactionForContainerRecommendation w rs hs h = (res, es)"
  shows "\<exists>t'. db_after es (t, None) = (t', None) \<and> undated t' =
    (if committed es
     then (undated t)\<lparr>tb_sets := insert_all set_key set_merge (map undated_set rs) (map undated_set (tb_sets t)),
            tb_hists := insert_all hist_key hist_merge (map undated_hist hs) (map undated_hist (tb_hists t))\<rparr>
     else undated t)"
  using satD [OF container_atomic assms, of t]
  by (cases "committed es") (auto simp: undated_def undated_insert undated_rows)

text \<open>C35: Saving the same recommendations again, as after a redelivered message, leaves everything in the tables as it is, the rows
  and their order, except the times in \<open>updated_at\<close>.\<close>

theorem container_redelivery:
  assumes "keys_unique t"
    and "transactionForContainerRecommendation w rs hs h = (r1, es1)" "committed es1"
    and "transactionForContainerRecommendation w rs hs h' = (r2, es2)"
  shows "\<exists>t1 t2. db_after es1 (t, None) = (t1, None) \<and> db_after es2 (t1, None) = (t2, None) \<and> undated t2 = undated t1"
proof -
  from undated_after [OF assms(2), of t] assms(3) obtain t1 where t1: "db_after es1 (t, None) = (t1, None)"
    "undated t1 = (undated t)\<lparr>tb_sets := insert_all set_key set_merge (map undated_set rs) (map undated_set (tb_sets t)),
       tb_hists := insert_all hist_key hist_merge (map undated_hist hs) (map undated_hist (tb_hists t))\<rparr>" by auto
  from undated_after [OF assms(4), of t1] obtain t2 where t2: "db_after es2 (t1, None) = (t2, None)" "undated t2 =
    (if committed es2
     then (undated t1)\<lparr>tb_sets := insert_all set_key set_merge (map undated_set rs) (map undated_set (tb_sets t1)),
            tb_hists := insert_all hist_key hist_merge (map undated_hist hs) (map undated_hist (tb_hists t1))\<rparr>
     else undated t1)" by blast
  have rows: "map undated_set (tb_sets t1) = insert_all set_key set_merge (map undated_set rs) (map undated_set (tb_sets t))"
    "map undated_hist (tb_hists t1) = insert_all hist_key hist_merge (map undated_hist hs) (map undated_hist (tb_hists t))"
    using arg_cong [OF t1(2), of tb_sets] arg_cong [OF t1(2), of tb_hists] by (simp_all add: undated_def)
  have d: "distinct (map set_key (map undated_set (tb_sets t)))" "distinct (map hist_key (map undated_hist (tb_hists t)))"
    using assms(1) unfolding undated_keys by (simp_all add: keys_unique_def)
  have "undated t2 = undated t1"
    using t2(2) unfolding rows sets.insert_all_again [OF d(1)] hists.insert_all_again [OF d(2)] by (simp add: t1(2))
  with t1(1) t2(1) show ?thesis by blast
qed

theorem container_redelivery_witness:
  "\<exists>t1 t2. db_after (example_run 0) (no_tables, None) = (t1, None) \<and> db_after (example_run 6) (t1, None) = (t2, None)
     \<and> undated t2 = undated t1"
proof -
  have k: "keys_unique no_tables" by (simp add: keys_unique_def no_tables_def)
  have c: "committed (example_run (length []))" by (simp add: example_run_def)
  have "length (example_run 0) = 6" by (simp add: example_run_def)
  then show ?thesis
    using container_redelivery [OF k example_runs c example_runs [of "example_run 0"]] by simp
qed

text \<open>A panic inside a transaction is reported as success: nothing is saved and the error is nil.\<close>

theorem recovered_panic_reports_success:
  "transactionForContainerRecommendation (example_world\<lparr>w_save := \<lambda>_. DbPanic m\<rparr>) (r # rs) hs h =
     (Done None, [BeginTx None, Clock go_zero_time, SaveSet (stamp_set go_zero_time r) (DbPanic m), RollbackTx])"
  by (simp add: transactionForContainerRecommendation_def CreateRecommendationSet_def andthen_def ask_def recovering_def
      ret_def stop_def emit_def example_world_def)

end
