(* ===== verification/Poller.thy ===== *)
theory Poller
  imports Kruize Transactions
begin

text \<open>
  \<open>internal/services/recommendation_poller.go\<close>: for each request on the recommendation topic the poller asks Kruize,
  saves what is valid, and commits the message when nothing has to be retried.

  The message's bytes are the JSON value they parse to, \<open>None\<close> when they are not JSON.  Decoding them into the
  struct and the validator are the world's.  A Go map is ranged over in the order of its association list.
\<close>

definition commitKafkaMsg :: "world \<Rightarrow> unit prog" where
  "commitKafkaMsg w = andthen (ask CommitMessage (w_exec w)) (\<lambda>_. ret ())"

section \<open>Fetching\<close>

definition fetchRecommendationFromKruize :: "world \<Rightarrow> string \<Rightarrow> gotime \<Rightarrow> string \<Rightarrow> (string + recommendations) prog" where
  "fetchRecommendationFromKruize w experimentName maxEndTime experimentType =
     andthen (Update_recommendations w experimentName maxEndTime experimentType) (\<lambda>response.
       case response of
         Inr r \<Rightarrow> ret (Inr r)
       | Inl err \<Rightarrow>
           (case ConvertDateToISO8601 (fmt_string maxEndTime) of
              Inl _ \<Rightarrow> ret (Inl err)
            | Inr endInterval \<Rightarrow>
                seq (if err = ''Recommendation for timestamp - \" '' @ endInterval @ '' \" does not exist'' then
                       seq (if experimentType = ''container'' then emit (Inc ''recommendationRequest'') else ret ())
                         (if experimentType = ''namespace'' then emit (Inc ''namespaceRecommendationRequest'') else ret ())
                     else ret ())
                  (ret (Inl err))))"

section \<open>Rows\<close>

definition recommendation_row :: "RecommendationMetadata \<Rightarrow> string \<Rightarrow> RecommendationData \<Rightarrow> string \<Rightarrow> RecommendationSet" where
  "recommendation_row md containerName v marshalData =
     \<lparr>rset_workload_id = md_workload_id md, rset_container = containerName,
      rset_columns = ExtractRecommendationColumnValues v,
      rset_start = rt_monitoring_start_time (tm_short (rd_terms v)), rset_end = rd_monitoring_end_time v,
      rset_recommendations = marshalData, rset_updated_at = go_zero_time\<rparr>"

definition historical_row :: "RecommendationMetadata \<Rightarrow> string \<Rightarrow> RecommendationData \<Rightarrow> string \<Rightarrow> HistoricalRecommendationSet" where
  "historical_row md containerName v marshalData =
     \<lparr>hist_org_id = md_org_id md, hist_workload_id = md_workload_id md, hist_container = containerName,
      hist_start = rt_monitoring_start_time (tm_short (rd_terms v)), hist_end = rd_monitoring_end_time v,
      hist_recommendations = marshalData, hist_updated_at = go_zero_time\<rparr>"

definition namespace_row :: "RecommendationMetadata \<Rightarrow> string \<Rightarrow> RecommendationData \<Rightarrow> string \<Rightarrow> gotime \<Rightarrow> NamespaceRecommendationSet" where
  "namespace_row md name v marshalData t =
     \<lparr>nset_org_id = md_org_id md, nset_workload_id = md_workload_id md, nset_namespace = name,
      nset_columns = ExtractRecommendationColumnValues v,
      nset_start = rt_monitoring_start_time (tm_short (rd_terms v)), nset_end = rd_monitoring_end_time v,
      nset_recommendations = marshalData, nset_updated_at = t\<rparr>"

definition namespace_historical_row ::
  "RecommendationMetadata \<Rightarrow> string \<Rightarrow> RecommendationData \<Rightarrow> string \<Rightarrow> HistoricalNamespaceRecommendationSet" where
  "namespace_historical_row md name v marshalData =
     \<lparr>nhist_org_id = md_org_id md, nhist_workload_id = md_workload_id md, nhist_namespace = name,
      nhist_start = rt_monitoring_start_time (tm_short (rd_terms v)), nhist_end = rd_monitoring_end_time v,
      nhist_recommendations = marshalData\<rparr>"

text \<open>One pair of rows for each interval that can be marshalled.\<close>

fun container_rows ::
  "world \<Rightarrow> RecommendationMetadata \<Rightarrow> string \<Rightarrow> (string \<times> RecommendationData) list \<Rightarrow> (RecommendationSet \<times> HistoricalRecommendationSet) list" where
  "container_rows w md name [] = []"
| "container_rows w md name ((k, v) # ds) =
     (case w_encode_data w v of
        Inl _ \<Rightarrow> container_rows w md name ds
      | Inr marshalData \<Rightarrow>
          (recommendation_row md name v marshalData, historical_row md name v marshalData) # container_rows w md name ds)"

fun namespace_rows ::
  "world \<Rightarrow> RecommendationMetadata \<Rightarrow> string \<Rightarrow> (string \<times> RecommendationData) list \<Rightarrow>
    (NamespaceRecommendationSet \<times> HistoricalNamespaceRecommendationSet) list prog" where
  "namespace_rows w md name [] = ret []"
| "namespace_rows w md name ((k, v) # ds) =
     (case w_encode_data w v of
        Inl _ \<Rightarrow> namespace_rows w md name ds
      | Inr marshalData \<Rightarrow>
          andthen (ask Clock (w_now w)) (\<lambda>t.
          andthen (namespace_rows w md name ds) (\<lambda>rest.
            ret ((namespace_row md name v marshalData t, namespace_historical_row md name v marshalData) # rest))))"

text \<open>The loop over the containers: their rows, and whether one of them was not valid.\<close>

fun containers_loop ::
  "world \<Rightarrow> RecommendationMetadata \<Rightarrow> container list \<Rightarrow> (bool \<times> (RecommendationSet \<times> HistoricalRecommendationSet) list) prog" where
  "containers_loop w md [] = ret (False, [])"
| "containers_loop w md (c # cs) =
     andthen (IsValidRecommendation (ct_recommendations c) (md_max_endtime_report md) ''container'') (\<lambda>valid.
     andthen (containers_loop w md cs) (\<lambda>(poll_cycle_complete, rows).
       if valid then ret (poll_cycle_complete, container_rows w md (ct_name c) (rm_data (ct_recommendations c)) @ rows)
       else ret (True, rows)))"

section \<open>Requesting and saving\<close>

text \<open>The first half for containers: \<open>None\<close> for an early return, otherwise \<open>poll_cycle_complete\<close> and the rows.\<close>

definition container_half ::
  "world \<Rightarrow> RecommendationMetadata \<Rightarrow> (bool \<times> (RecommendationSet \<times> HistoricalRecommendationSet) list) option prog" where
  "container_half w md =
     (if md_experiment_type md = ''container'' then
        andthen (fetchRecommendationFromKruize w (md_experiment_name md) (md_max_endtime_report md) ''container'') (\<lambda>response.
          case response of
            Inl err \<Rightarrow> ret None
          | Inr recommendationResponse \<Rightarrow>
              seq (emit (Inc ''recommendationRequest''))
                (case recommendationResponse of
                   ContainerResponse recommendation \<Rightarrow>
                     (case recommendation of
                        [] \<Rightarrow> ret None
                      | r # _ \<Rightarrow>
                          (case lr_kubernetes_objects r of
                             [] \<Rightarrow> ret None
                           | k8s # _ \<Rightarrow>
                               if lr_experiment_type r \<noteq> ''container'' then ret None
                               else andthen (containers_loop w md (ko_containers k8s)) (\<lambda>res. ret (Some res))))
                 | NamespaceResponse _ \<Rightarrow> ret (Some (False, []))))
      else ret (Some (False, [])))"

definition namespace_half ::
  "world \<Rightarrow> RecommendationMetadata \<Rightarrow> bool \<Rightarrow>
    (bool \<times> (NamespaceRecommendationSet \<times> HistoricalNamespaceRecommendationSet) list) option prog" where
  "namespace_half w md poll_cycle_complete =
     (if md_experiment_type md = ''namespace'' \<and> \<not> DisableNamespaceRecommendation (w_cfg w) then
        andthen (fetchRecommendationFromKruize w (md_experiment_name md) (md_max_endtime_report md) ''namespace'') (\<lambda>response.
          case response of
            Inl err \<Rightarrow> ret None
          | Inr namespaceRecommendation \<Rightarrow>
              seq (emit (Inc ''namespaceRecommendationRequest''))
                (case namespaceRecommendation of
                   NamespaceResponse typedNamespaceObj \<Rightarrow>
                     (case typedNamespaceObj of
                        [] \<Rightarrow> ret None
                      | r # _ \<Rightarrow>
                          (case ne_kubernetes_objects r of
                             [] \<Rightarrow> ret None
                           | k8s # _ \<Rightarrow>
                               if ne_experiment_type r \<noteq> ''namespace'' then ret None
                               else
                                 andthen (IsValidRecommendation (no_recommendations (nk_namespaces k8s)) (md_max_endtime_report md) ''namespace'')
                                   (\<lambda>valid.
                                     if valid then
                                       andthen (namespace_rows w md (no_namespace (nk_namespaces k8s)) (rm_data (no_recommendations (nk_namespaces k8s))))
                                         (\<lambda>rows. ret (Some (poll_cycle_complete, rows)))
                                     else ret (Some (True, [])))))
                 | ContainerResponse _ \<Rightarrow> ret (Some (poll_cycle_complete, []))))
      else ret (Some (poll_cycle_complete, [])))"

text \<open>Saving one kind of rows, if there are any; the result is the new \<open>poll_cycle_complete\<close>.\<close>

definition save_half :: "('r list \<Rightarrow> 'h list \<Rightarrow> string option prog) \<Rightarrow> string \<Rightarrow> ('r \<times> 'h) list \<Rightarrow> bool \<Rightarrow> bool prog" where
  "save_half tx counter rows poll_cycle_complete =
     (if rows = [] then ret poll_cycle_complete
      else andthen (tx (map fst rows) (map snd rows)) (\<lambda>txError.
             case txError of
               None \<Rightarrow> seq (emit (Inc counter)) (ret True)
             | Some _ \<Rightarrow> ret False))"

definition requestAndSaveRecommendation :: "world \<Rightarrow> RecommendationMetadata \<Rightarrow> bool prog" where
  "requestAndSaveRecommendation w md =
     andthen (container_half w md) (\<lambda>first.
       case first of
         None \<Rightarrow> ret False
       | Some (poll_cycle_complete, rows) \<Rightarrow>
           andthen (namespace_half w md poll_cycle_complete) (\<lambda>second.
             case second of
               None \<Rightarrow> ret poll_cycle_complete
             | Some (poll_cycle_complete, nrows) \<Rightarrow>
                 andthen (save_half (transactionForContainerRecommendation w) ''recommendationSuccess'' rows poll_cycle_complete)
                   (save_half (transactionForNamespaceRecommendation w) ''namespaceRecommendationSuccess'' nrows)))"

section \<open>Polling\<close>

text \<open>A record that is not found reads as the zero struct, here \<open>None\<close>; of a found one only the time is used.\<close>

definition GetFirstRecommendationSetsByWorkloadID :: "world \<Rightarrow> nat \<Rightarrow> (string + gotime option) prog" where
  "GetFirstRecommendationSetsByWorkloadID w workload_id =
     andthen (ask (FirstSet workload_id) (w_first_set w)) (\<lambda>reply.
       ret (case reply of Found r \<Rightarrow> Inr (Some (rset_end r)) | NotFound \<Rightarrow> Inr None | LookupErr e \<Rightarrow> Inl e))"

definition GetFirstNamespaceRecommendationSetsByWorkloadID :: "world \<Rightarrow> nat \<Rightarrow> (string + gotime option) prog" where
  "GetFirstNamespaceRecommendationSetsByWorkloadID w workload_id =
     andthen (ask (FirstNamespaceSet workload_id) (w_first_nset w)) (\<lambda>reply.
       ret (case reply of Found r \<Rightarrow> Inr (Some (nset_end r)) | NotFound \<Rightarrow> Inr None | LookupErr e \<Rightarrow> Inl e))"

text \<open>Every error counts as "does not exist".\<close>

definition WorkloadExistsByID :: "world \<Rightarrow> nat \<Rightarrow> bool prog" where
  "WorkloadExistsByID w workload_id =
     andthen (ask (FirstWorkload workload_id) (w_first_workload w)) (\<lambda>reply.
       ret (case reply of Found _ \<Rightarrow> True | NotFound \<Rightarrow> False | LookupErr _ \<Rightarrow> False))"

text \<open>Whether the stored recommendation is old enough for a new one.\<close>

definition recommendation_due :: "config \<Rightarrow> gotime \<Rightarrow> gotime \<Rightarrow> bool" where
  "recommendation_due cfg lastRecommRecordDate maxEndTimeFromReport =
     (RecommendationPollIntervalHours cfg \<le> f64_to_int (dur_hours (t_sub maxEndTimeFromReport lastRecommRecordDate))
      \<or> NeedRecommOnFirstOfMonth lastRecommRecordDate maxEndTimeFromReport)"

text \<open>The rest of the handler once the stored recommendation has been looked up.\<close>

definition poll_workload :: "world \<Rightarrow> RecommendationMetadata \<Rightarrow> string + gotime option \<Rightarrow> unit prog" where
  "poll_workload w md stored =
     (case stored of
        Inl err \<Rightarrow> ret ()
      | Inr found \<Rightarrow>
          andthen (WorkloadExistsByID w (md_workload_id md)) (\<lambda>workloadExists.
            if workloadExists then
              (case found of
                 None \<Rightarrow>
                   andthen (requestAndSaveRecommendation w md) (\<lambda>poll_cycle_complete.
                     if poll_cycle_complete then commitKafkaMsg w else ret ())
               | Some monitoringEndTime \<Rightarrow>
                   (let lastRecommRecordDate = to_utc monitoringEndTime in
                    if \<not> is_zero_time lastRecommRecordDate then
                      if recommendation_due (w_cfg w) lastRecommRecordDate (md_max_endtime_report md) then
                        andthen (requestAndSaveRecommendation w md) (\<lambda>poll_cycle_complete.
                          if poll_cycle_complete then commitKafkaMsg w else ret ())
                      else commitKafkaMsg w
                    else commitKafkaMsg w))
            else commitKafkaMsg w))"

definition PollForRecommendations :: "world \<Rightarrow> json option \<Rightarrow> unit prog" where
  "PollForRecommendations w msg =
     (case msg of
        None \<Rightarrow> commitKafkaMsg w
      | Some j \<Rightarrow>
          (case w_decode_request w j of
             Inl err \<Rightarrow> commitKafkaMsg w
           | Inr kafkaMsg \<Rightarrow>
               (case w_valid_request w kafkaMsg of
                  Some err \<Rightarrow> commitKafkaMsg w
                | None \<Rightarrow>
                    (let md = km_metadata kafkaMsg in
                     if md_experiment_type md = ''container'' then
                       andthen (GetFirstRecommendationSetsByWorkloadID w (md_workload_id md)) (poll_workload w md)
                     else if md_experiment_type md = ''namespace'' \<and> \<not> DisableNamespaceRecommendation (w_cfg w) then
                       andthen (GetFirstNamespaceRecommendationSetsByWorkloadID w (md_workload_id md)) (poll_workload w md)
                     else commitKafkaMsg w))))"

section \<open>What polling promises\<close>

definition quiet :: "event \<Rightarrow> bool" where
  "quiet e = (\<not> is_commit e \<and> \<not> tx_event e)"

lemma quiet_simps [simp]: "quiet (Inc c)" "quiet (Http m u q b r)" "quiet (Clock t)"
  "quiet (FirstSet k fs)" "quiet (FirstNamespaceSet k fn)" "quiet (FirstWorkload k fw)"
  by (simp_all add: quiet_def)

text \<open>A program that adds no event of a transaction and never commits; if its value is one of \<open>g\<close>, none of its
  requests failed.\<close>

definition careful :: "('a \<Rightarrow> bool) \<Rightarrow> 'a prog \<Rightarrow> bool" where
  "careful g p = (\<forall>h. sat p h (\<lambda>r es. list_all quiet es \<and> r \<noteq> OutOfFuel
     \<and> (case r of Done x \<Rightarrow> if g x then list_all clean es else True | _ \<Rightarrow> True)))"

named_theorems careful_rules

lemma careful_ret [careful_rules]: "careful g (ret x)"
  by (simp add: careful_def sat_ret)

lemma careful_andthen:
  assumes "careful g p" "\<And>x. g x \<Longrightarrow> careful g' (f x)" "\<And>x. \<not> g x \<Longrightarrow> (\<exists>y. f x = ret y \<and> \<not> g' y)"
  shows "careful g' (andthen p f)"
  unfolding careful_def
proof
  fix h
  have f: "g x \<Longrightarrow> sat (f x) h' (\<lambda>r es. list_all quiet es \<and> r \<noteq> OutOfFuel
     \<and> (case r of Done x \<Rightarrow> if g' x then list_all clean es else True | _ \<Rightarrow> True))" for x h'
    using assms(2) by (simp add: careful_def)
  show "sat (andthen p f) h (\<lambda>r es. list_all quiet es \<and> r \<noteq> OutOfFuel
     \<and> (case r of Done x \<Rightarrow> if g' x then list_all clean es else True | _ \<Rightarrow> True))"
    unfolding sat_andthen
  proof (rule sat_mono [OF assms(1) [unfolded careful_def, rule_format]])
    fix r es
    assume P: "list_all quiet es \<and> r \<noteq> OutOfFuel \<and> (case r of Done x \<Rightarrow> if g x then list_all clean es else True | _ \<Rightarrow> True)"
    show "case r of
          Done a \<Rightarrow> sat (f a) (h @ es) (\<lambda>r' es'. list_all quiet (es @ es') \<and> r' \<noteq> OutOfFuel
             \<and> (case r' of Done x \<Rightarrow> if g' x then list_all clean (es @ es') else True | _ \<Rightarrow> True))
        | Crashed c \<Rightarrow> list_all quiet es \<and> Crashed c \<noteq> (OutOfFuel :: 'b result)
             \<and> (case Crashed c of Done x \<Rightarrow> if g' x then list_all clean es else True | _ \<Rightarrow> True)
        | OutOfFuel \<Rightarrow> list_all quiet es \<and> OutOfFuel \<noteq> (OutOfFuel :: 'b result)
             \<and> (case OutOfFuel of Done x \<Rightarrow> if g' x then list_all clean es else True | _ \<Rightarrow> True)"
    proof (cases r)
      case (Done x)
      show ?thesis
      proof (cases "g x")
        case True
        with P Done show ?thesis by (simp, intro sat_mono [OF f]) (auto split: result.split)
      next
        case False
        with assms(3) obtain y where "f x = ret y" "\<not> g' y" by blast
        with P Done show ?thesis by (simp add: sat_ret)
      qed
    qed (use P in auto)
  qed
qed

lemma careful_always [careful_rules]: "careful (\<lambda>_. True) p \<Longrightarrow> (\<And>x. careful g' (f x)) \<Longrightarrow> careful g' (andthen p f)"
  by (rule careful_andthen) auto

lemma careful_inc [careful_rules]: "careful g p \<Longrightarrow> careful g (seq (emit (Inc c)) p)"
  unfolding seq_def by (rule careful_always) (simp_all add: careful_def sat_emit)

lemma careful_clock [careful_rules]: "careful g (ask Clock f)"
  by (simp add: careful_def sat_ask)

lemma careful_if [careful_rules]: "(b \<Longrightarrow> careful g p) \<Longrightarrow> (\<not> b \<Longrightarrow> careful g q) \<Longrightarrow> careful g (if b then p else q)"
  by simp

lemma careful_fetch: "careful (\<lambda>x. \<exists>y. x = Inr y) (fetchRecommendationFromKruize w en t ty)"
  unfolding careful_def fetchRecommendationFromKruize_def Update_recommendations_def Let_def
  by (simp add: sat_rules split: option.split sum.split)

lemma careful_valid [careful_rules]: "careful g (IsValidRecommendation rec t ty)"
  by (simp add: careful_def IsValidRecommendation_def sat_rules split: option.split)

lemma careful_containers_loop [careful_rules]: "careful g (containers_loop w md cs)"
proof (induction cs arbitrary: g)
  case (Cons c cs)
  show ?case
    unfolding containers_loop.simps
    by (intro careful_rules Cons.IH) (auto intro!: careful_rules split: prod.split)
qed (simp add: careful_ret)

lemma careful_namespace_rows [careful_rules]: "careful g (namespace_rows w md name ds)"
proof (induction ds arbitrary: g)
  case (Cons d ds)
  obtain k v where d: "d = (k, v)" by (cases d)
  show ?case
    unfolding d namespace_rows.simps
    by (auto intro!: careful_rules Cons.IH split: sum.split)
qed (simp add: careful_ret)

lemma careful_container_half: "careful (\<lambda>x. x \<noteq> None) (container_half w md)"
  unfolding container_half_def
  by (auto intro!: careful_rules careful_andthen [OF careful_fetch] split: sum.split recommendations.split list.split)

lemma careful_namespace_half: "careful (\<lambda>x. x \<noteq> None) (namespace_half w md b)"
  unfolding namespace_half_def
  by (auto intro!: careful_rules careful_andthen [OF careful_fetch] split: sum.split recommendations.split list.split)

lemma quiet_db:
  "list_all quiet es \<Longrightarrow> db_after es d = d \<and> \<not> committed es \<and> list_all (\<lambda>e. \<not> is_commit e) es"
proof (induction es arbitrary: d)
  case (Cons e es)
  then have "quiet e" by simp
  then have "db_step e d = d" "e \<noteq> CommitTx None" "\<not> is_commit e"
    by (cases d; cases e; simp add: quiet_def tx_event_def)+
  with Cons show ?case by simp
qed simp

text \<open>What requesting and saving does to the tables: all rows, with the result true, or nothing.\<close>

definition request_ok :: "tables \<Rightarrow> bool result \<Rightarrow> event list \<Rightarrow> bool" where
  "request_ok t r es =
     (list_all (\<lambda>e. \<not> is_commit e) es \<and> r \<noteq> OutOfFuel \<and> snd (db_after es (t, None)) = None
      \<and> (if r = Done True then list_all fine es \<and> (committed es \<longrightarrow> list_all clean es) else \<not> committed es)
      \<and> (if committed es then True else db_after es (t, None) = (t, None)))"

lemma request_ok_prefix: "list_all quiet es0 \<Longrightarrow> list_all clean es0 \<Longrightarrow> request_ok t r es \<Longrightarrow> request_ok t r (es0 @ es)"
  using quiet_db [of es0 "(t, None)"] clean_fine [of es0] by (simp add: request_ok_def split: if_splits)

lemma request_ok_quiet: "list_all quiet es \<Longrightarrow> request_ok t (Done False) es" "list_all quiet es \<Longrightarrow> request_ok t (Crashed c) es"
  using quiet_db [of es "(t, None)"] by (simp_all add: request_ok_def)

lemma save_half_container: "sat (save_half (transactionForContainerRecommendation w) c rows b) h (request_ok t)"
proof (cases "rows = []")
  case True
  then show ?thesis by (simp add: save_half_def sat_ret request_ok_def)
next
  case False
  then show ?thesis
    unfolding save_half_def if_not_P [OF False] sat_andthen
    by (rule_tac sat_mono [OF sat_conj [OF container_atomic [of w _ _ h t] ctx.nil_fine [of w]]])
      (auto simp: sat_seq sat_emit sat_ret request_ok_def split: option.split result.split)
qed

lemma save_half_namespace: "sat (save_half (transactionForNamespaceRecommendation w) c rows b) h (request_ok t)"
proof (cases "rows = []")
  case True
  then show ?thesis by (simp add: save_half_def sat_ret request_ok_def)
next
  case False
  then show ?thesis
    unfolding save_half_def if_not_P [OF False] sat_andthen
    by (rule_tac sat_mono [OF sat_conj [OF namespace_atomic [of w _ _ h t] ntx.nil_fine [of w]]])
      (auto simp: sat_seq sat_emit sat_ret request_ok_def split: option.split result.split)
qed

lemma save_half_none: "save_half tx c [] = ret"
  by (rule ext) (simp add: save_half_def)

lemma half_then_save:
  assumes "careful (\<lambda>x. x \<noteq> None) half" "\<And>rows b h. sat (save rows b) h (request_ok t)"
  shows "sat (andthen half (\<lambda>x. case x of None \<Rightarrow> ret False | Some (b, rows) \<Rightarrow> save rows b)) h (request_ok t)"
  unfolding sat_andthen
  by (rule sat_mono [OF assms(1) [unfolded careful_def, rule_format]])
    (auto simp: sat_ret request_ok_quiet split: result.split result.split_asm option.split
      intro!: sat_mono [OF assms(2)] request_ok_prefix)

lemma request_saves: "sat (requestAndSaveRecommendation w md) h (request_ok t)"
proof (cases "md_experiment_type md = ''container''")
  case True
  have n: "namespace_half w md b = ret (Some (b, []))" for b
    by (simp add: namespace_half_def True)
  have "requestAndSaveRecommendation w md =
      andthen (container_half w md) (\<lambda>x. case x of None \<Rightarrow> ret False
        | Some (b, rows) \<Rightarrow> save_half (transactionForContainerRecommendation w) ''recommendationSuccess'' rows b)"
    by (simp add: requestAndSaveRecommendation_def n andthen_ret_left save_half_none andthen_ret cong: option.case_cong prod.case_cong)
  then show ?thesis using half_then_save [OF careful_container_half save_half_container] by simp
next
  case False
  have c: "container_half w md = ret (Some (False, []))"
    by (simp add: container_half_def False)
  have "requestAndSaveRecommendation w md =
      andthen (namespace_half w md False) (\<lambda>x. case x of None \<Rightarrow> ret False
        | Some (b, rows) \<Rightarrow> save_half (transactionForNamespaceRecommendation w) ''namespaceRecommendationSuccess'' rows b)"
    by (simp add: requestAndSaveRecommendation_def c andthen_ret_left save_half_none cong: option.case_cong prod.case_cong)
  then show ?thesis using half_then_save [OF careful_namespace_half save_half_namespace] by simp
qed

text \<open>A message is committed at most once and last, after no failure, or after swallowed ones and with the tables as they were; if it is
  not committed, the tables are as they were, too.\<close>

definition poll_ok :: "tables \<Rightarrow> unit result \<Rightarrow> event list \<Rightarrow> bool" where
  "poll_ok t r es =
     (r \<noteq> OutOfFuel \<and> snd (db_after es (t, None)) = None
      \<and> (if list_ex is_commit es
         then is_commit (last es) \<and> list_all fine (butlast es) \<and> (list_all clean (butlast es) \<or> db_after es (t, None) = (t, None))
         else db_after es (t, None) = (t, None)))"

lemma commit_sat: "sat (commitKafkaMsg w) h P = P (Done ()) [CommitMessage (w_exec w h)]"
  by (simp add: commitKafkaMsg_def sat_rules)

lemma poll_ok_commit:
  assumes "list_all fine es" "list_all clean es \<or> db_after es (t, None) = (t, None)" "snd (db_after es (t, None)) = None"
  shows "poll_ok t (Done ()) (es @ [CommitMessage x])"
proof -
  have "db_step (CommitMessage x) d = d" for d by (cases d) simp
  with assms show ?thesis by (auto simp: poll_ok_def)
qed

lemma poll_ok_commit_one: "poll_ok t (Done ()) [CommitMessage x]"
  using poll_ok_commit [of "[]" t x] by simp

lemma no_commit: "list_all (\<lambda>e. \<not> is_commit e) es \<Longrightarrow> \<not> list_ex is_commit es"
  by (induction es) auto

lemma request_then_commit:
  assumes "list_all quiet es0" "list_all clean es0"
  shows "sat (andthen (requestAndSaveRecommendation w md) (\<lambda>b. if b then commitKafkaMsg w else ret ())) h
    (\<lambda>r es. poll_ok t r (es0 @ es))"
  unfolding sat_andthen
proof (rule sat_mono [OF request_saves [of w md h t]])
  fix r es assume "request_ok t r es"
  then have q: "request_ok t r (es0 @ es)" by (rule request_ok_prefix [OF assms])
  then show "case r of
      Done a \<Rightarrow> sat (if a then commitKafkaMsg w else ret ()) (h @ es) (\<lambda>r' es'. poll_ok t r' (es0 @ es @ es'))
    | Crashed c \<Rightarrow> poll_ok t (Crashed c) (es0 @ es) | OutOfFuel \<Rightarrow> poll_ok t OutOfFuel (es0 @ es)"
    using poll_ok_commit [of "es0 @ es" t]
    by (auto simp: commit_sat sat_ret request_ok_def poll_ok_def no_commit split: result.split if_splits)
qed

lemma poll_ok_quiet: "list_all quiet es \<Longrightarrow> poll_ok t (Done ()) es"
  using quiet_db [of es "(t, None)"] by (simp add: poll_ok_def no_commit)

lemma poll_workload_ok:
  assumes "list_all quiet es0" "case stored of Inr _ \<Rightarrow> list_all clean es0 | Inl _ \<Rightarrow> True"
  shows "sat (poll_workload w md stored) h (\<lambda>r es. poll_ok t r (es0 @ es))"
proof (cases stored)
  case (Inl e)
  with assms show ?thesis by (simp add: poll_workload_def sat_ret poll_ok_quiet)
next
  case (Inr found)
  have q: "list_all quiet (es0 @ [FirstWorkload k z])" "list_all fine (es0 @ [FirstWorkload k z])" for k z
    using assms Inr by (simp_all add: clean_fine)
  have r: "list_all clean (es0 @ [FirstWorkload k (Found z)])" for k z using assms Inr by simp
  have c: "poll_ok t (Done ()) (es0 @ [FirstWorkload k z, CommitMessage x])" for k z x
    using poll_ok_commit [OF q(2) [of k z], of t x] quiet_db [OF q(1) [of k z], of "(t, None)"] by simp
  note rc = request_then_commit [OF q(1) r, of w md _ t, simplified]
  show ?thesis
    unfolding poll_workload_def Inr sum.case WorkloadExistsByID_def Let_def
    by (simp add: sat_andthen [of "ask e f" for e f] sat_andthen [of "andthen (ask e f) g" for e f g] sat_ask sat_ret commit_sat c rc
        split: lookup.split option.split)
qed

lemma PollForRecommendations_ok: "sat (PollForRecommendations w msg) h (poll_ok t)"
proof -
  have w1: "sat (poll_workload w md stored) h' (\<lambda>r es. poll_ok t r (FirstSet k q # es))"
    if "case stored of Inr _ \<Rightarrow> clean (FirstSet k q) | Inl _ \<Rightarrow> True" for md stored h' k q
    using poll_workload_ok [of "[FirstSet k q]" stored w md h' t] that by (simp split: sum.splits)
  have w2: "sat (poll_workload w md stored) h' (\<lambda>r es. poll_ok t r (FirstNamespaceSet k q # es))"
    if "case stored of Inr _ \<Rightarrow> clean (FirstNamespaceSet k q) | Inl _ \<Rightarrow> True" for md stored h' k q
    using poll_workload_ok [of "[FirstNamespaceSet k q]" stored w md h' t] that by (simp split: sum.splits)
  show ?thesis
    unfolding PollForRecommendations_def Let_def GetFirstRecommendationSetsByWorkloadID_def
      GetFirstNamespaceRecommendationSetsByWorkloadID_def
    by (auto simp: commit_sat poll_ok_commit_one sat_andthen sat_ask sat_ret
        split: option.split sum.split lookup.split intro!: w1 w2)
qed

text \<open>A request whose workload cannot be looked up.\<close>

definition unread_world :: world where
  "unread_world = example_world\<lparr>w_first_workload := (\<lambda>_. LookupErr ''timeout''),
     w_decode_request := (\<lambda>_. Inr \<lparr>km_request_id = ''r1'', km_metadata = \<lparr>md_org_id = ''org1'', md_workload_id = 7,
       md_experiment_name = ''exp'', md_max_endtime_report = go_zero_time, md_experiment_type = ''container''\<rparr>\<rparr>)\<rparr>"

definition unread_events :: "event list" where
  "unread_events = [FirstSet 7 NotFound, FirstWorkload 7 (LookupErr ''timeout''), CommitMessage None]"

lemma unread_run: "PollForRecommendations unread_world (Some JNull) [] = (Done (), unread_events)"
  by code_simp

text \<open>C3: Polling commits its message at most once, as its last event.  Before that either no call to Kruize or to the database
  failed; or the only failures were of the two kinds that the source swallows (a save that panicked, which is recovered without an
  error, and an error while the workload was looked up, which is taken for its absence), and then the recommendation tables are as
  they were.  If polling does not commit its message, the tables are as they were, too, so that it can be handled again.  No transaction
  is left open, and polling always ends.\<close>

theorem PollForRecommendations_commit:
  "case PollForRecommendations w msg h of (r, es) \<Rightarrow>
     r \<noteq> OutOfFuel \<and> snd (db_after es (t, None)) = None
     \<and> (if list_ex is_commit es
        then is_commit (last es) \<and> list_all (\<lambda>e. \<not> is_commit e \<and> (failed e \<longrightarrow> swallowed e)) (butlast es)
          \<and> (list_all (\<lambda>e. \<not> failed e) (butlast es) \<or> db_after es (t, None) = (t, None))
        else db_after es (t, None) = (t, None))"
  using PollForRecommendations_ok [of w msg h t]
  by (auto simp: sat_def split_def poll_ok_def fine_def clean_def list_all_iff)

theorem PollForRecommendations_commit_witness:
  "list_ex failed unread_events \<and> is_commit (last unread_events)
     \<and> list_all (\<lambda>e. \<not> is_commit e \<and> (failed e \<longrightarrow> swallowed e)) (butlast unread_events)
     \<and> db_after unread_events (no_tables, None) = (no_tables, None)"
proof -
  have "list_ex is_commit unread_events" "list_ex failed (butlast unread_events)"
    by (simp_all add: unread_events_def is_commit_def failed_def)
  moreover from this have "list_ex failed unread_events" by (auto simp: list_ex_iff dest: in_set_butlastD)
  ultimately show ?thesis
    using PollForRecommendations_commit [where w = unread_world and msg = "Some JNull" and h = "[]" and t = no_tables] unfolding unread_run
    by (auto simp: list_all_iff list_ex_iff)
qed

text \<open>A message that can never be handled is committed at once, and nothing else happens.\<close>

definition poison :: "world \<Rightarrow> json option \<Rightarrow> bool" where
  "poison w msg =
     (case msg of
        None \<Rightarrow> True
      | Some j \<Rightarrow> (case w_decode_request w j of
            Inl _ \<Rightarrow> True
          | Inr m \<Rightarrow> w_valid_request w m \<noteq> None
              \<or> \<not> (md_experiment_type (km_metadata m) = ''container''
                   \<or> (md_experiment_type (km_metadata m) = ''namespace'' \<and> \<not> DisableNamespaceRecommendation (w_cfg w)))))"

text \<open>A request that can never be handled is committed at once, without a look at Kruize or the database, so it does not
  hold up the requests behind it.\<close>

theorem poison_request_committed:
  assumes "poison w msg"
  shows "PollForRecommendations w msg h = (Done (), [CommitMessage (w_exec w h)])"
  using assms
  by (auto simp: poison_def PollForRecommendations_def commitKafkaMsg_def andthen_def ask_def ret_def Let_def
      split: option.splits sum.splits)

theorem poison_request_committed_witness:
  "poison example_world (Some (JObj [])) \<and> PollForRecommendations example_world (Some (JObj [])) [] = (Done (), [CommitMessage None])"
  using poison_request_committed [of example_world "Some (JObj [])" "[]"]
  by (simp add: poison_def example_world_def)

text \<open>A database error while the workload is looked up is taken for its absence: the request is committed and never
  handled.\<close>

theorem workload_lookup_error_drops_request:
  "poll_workload (w\<lparr>w_first_workload := \<lambda>_. LookupErr e\<rparr>) md (Inr found) h =
     (Done (), [FirstWorkload (md_workload_id md) (LookupErr e),
        CommitMessage (w_exec w (h @ [FirstWorkload (md_workload_id md) (LookupErr e)]))])"
  by (simp add: poll_workload_def WorkloadExistsByID_def commitKafkaMsg_def andthen_def ask_def ret_def)

text \<open>The rows that are saved: those of the valid containers, in order; the cycle is complete if one was not valid.\<close>

definition valid_for :: "gotime \<Rightarrow> container \<Rightarrow> bool" where
  "valid_for t c =
     (map_of (rm_notifications (ct_recommendations c)) ''111000'' \<noteq> None
      \<and> map_of (rm_data (ct_recommendations c)) (fmt_iso (to_utc t)) \<noteq> None)"

lemma valid_for_sat: "sat (IsValidRecommendation (ct_recommendations c) t ty) h (\<lambda>r es. r = Done (valid_for t c))"
  by (simp add: IsValidRecommendation_def valid_for_def sat_rules split: option.split)

lemma containers_loop_sat:
  "sat (containers_loop w md cs) h (\<lambda>r es. r = Done (\<not> list_all (valid_for (md_max_endtime_report md)) cs,
     concat (map (\<lambda>c. container_rows w md (ct_name c) (rm_data (ct_recommendations c)))
       (filter (valid_for (md_max_endtime_report md)) cs))))"
proof (induction cs arbitrary: h)
  case (Cons c cs)
  show ?case
    unfolding containers_loop.simps sat_andthen
    by (rule sat_mono [OF valid_for_sat])
      (auto simp: sat_ret split: result.split intro!: sat_mono [OF Cons.IH])
qed (simp add: sat_ret)

text \<open>The rows to save for a workload are those of its valid containers, container by container in the order of the reply.\<close>

theorem containers_loop_rows:
  "fst (containers_loop w md cs h) =
     Done (\<not> list_all (valid_for (md_max_endtime_report md)) cs,
       concat (map (\<lambda>c. container_rows w md (ct_name c) (rm_data (ct_recommendations c)))
         (filter (valid_for (md_max_endtime_report md)) cs)))"
  using containers_loop_sat [of w md cs h] by (simp add: sat_def split_def)

end
