(* ===== verification/Housekeeper.thy ===== *)
theory Housekeeper
  imports Kruize
begin

text \<open>
  \<open>internal/services/housekeeper\<close>: removing a cluster whose source has been destroyed, and dropping old partitions; and
  \<open>internal/utils/sources\<close>, which looks up the application the listener reacts to.  The message's headers are pairs of key
  and value.
\<close>

section \<open>The sources listener\<close>

definition delete_cluster :: "world \<Rightarrow> string \<Rightarrow> string option prog" where
  "delete_cluster w source_id =
     andthen (ask (DeleteCluster source_id) (w_exec w)) (\<lambda>err.
       case err of
         Some e \<Rightarrow> seq (emit (Inc ''dbError'')) (ret (Some e))
       | None \<Rightarrow> ret None)"

text \<open>The loop over the headers; every \<open>return\<close> in it leaves the listener.\<close>

fun sourcesListener :: "world \<Rightarrow> int \<Rightarrow> json option \<Rightarrow> (string \<times> string) list \<Rightarrow> unit prog" where
  "sourcesListener w cost_app_id msg [] = ret ()"
| "sourcesListener w cost_app_id msg ((key, v) # headers) =
     (if key = ''event_type'' \<and> v = ''Application.destroy'' then
        (case msg of
           None \<Rightarrow> ret ()
         | Some j \<Rightarrow>
             (case w_decode_sources w j of
                Inl err \<Rightarrow> ret ()
              | Inr d \<Rightarrow>
                  if se_application_type_id d = cost_app_id then
                    andthen (ask (FirstCluster (itoa (se_source_id d))) (w_first_cluster w)) (\<lambda>reply.
                      case reply of
                        NotFound \<Rightarrow> ret ()
                      | LookupErr err \<Rightarrow> ret ()
                      | Found (clusterID, sourceId) \<Rightarrow>
                          andthen (ask (FindWorkloads clusterID) (w_workloads w)) (\<lambda>found.
                            case found of
                              Inl err \<Rightarrow> ret ()
                            | Inr workloads \<Rightarrow>
                                seq (each workloads (\<lambda>wl. DeleteExperimentFromKruize w (wl_experiment_name wl)))
                                  (andthen (delete_cluster w sourceId) (\<lambda>_. sourcesListener w cost_app_id msg headers))))
                  else sourcesListener w cost_app_id msg headers))
      else sourcesListener w cost_app_id msg headers)"

section \<open>The application id\<close>

text \<open>\<open>GetCostApplicationID\<close>: the unchecked assertions panic; an id that is no number reads as 0.\<close>

definition GetCostApplicationID :: "world \<Rightarrow> (string + int) prog" where
  "GetCostApplicationID w =
     andthen (ask (Http ''GET'' (SourceApiBaseUrl (w_cfg w) @ SourceApiPrefix (w_cfg w)
         @ ''/application_types?filter[name][eq]=/insights/platform/cost-management'') [] NoBody) (w_http w)) (\<lambda>reply.
       case reply of
         Inl err \<Rightarrow> ret (Inl (''error while calling sources API: '' @ err))
       | Inr res \<Rightarrow>
           if hr_status res \<noteq> 200 then ret (Inl ''unexpected response of the sources API'')
           else
             (case object_of (hr_body res) of
                None \<Rightarrow> ret (Inl ''unable to unmarshal response of sources /application_types API'')
              | Some payload \<Rightarrow>
                  (case jget ''data'' payload of
                     JArr (JObj app # _) \<Rightarrow>
                       (case str_at ''id'' app of
                          None \<Rightarrow> stop (GoPanic ''interface conversion'')
                        | Some i \<Rightarrow> ret (Inr (case atoi i of Some n \<Rightarrow> n | None \<Rightarrow> 0)))
                   | JArr [] \<Rightarrow> stop (GoPanic ''index out of range'')
                   | _ \<Rightarrow> stop (GoPanic ''interface conversion''))))"

section \<open>Partitions\<close>

definition month_of_time :: "gotime \<Rightarrow> int" where
  "month_of_time t = fst (snd (t_date t))"

definition day_of_time :: "gotime \<Rightarrow> int" where
  "day_of_time t = snd (snd (t_date t))"

text \<open>The date given to \<open>drop_ros_partition\<close>, which drops every partition that starts before it.\<close>

definition partition_table_date :: "int \<Rightarrow> gotime \<Rightarrow> gotime" where
  "partition_table_date retention currentTime =
     (let retentionThresholdDate = add_date currentTime 0 0 (- retention) in
      if day_of_time retentionThresholdDate < 15
      then add_date retentionThresholdDate 0 0 (- day_of_time retentionThresholdDate + 1)
      else go_date (fst (t_date currentTime)) (month_of_time currentTime - 1) 16 0 0 ''UTC'')"

definition DeletePartitions :: "world \<Rightarrow> unit prog" where
  "DeletePartitions w h =
     (let currentTime = to_utc (w_now w h);
          partitionTableDate = fmt_ymd (t_date (partition_table_date (DataRetentionPeriod (w_cfg w)) currentTime))
      in andthen (ask Clock (w_now w)) (\<lambda>_. andthen (ask (DropPartition partitionTableDate) (w_exec w)) (\<lambda>_. ret ())) h)"

section \<open>Partitions inside the retention period\<close>

text \<open>The partitions start on the 1st and the 16th of every month.\<close>

definition partition_start :: "gotime \<Rightarrow> int" where
  "partition_start t = wall_day t - day_of_time t + (if day_of_time t \<le> 15 then 1 else 16)"

text \<open>Months counted from year 0.\<close>

definition month_number :: "gotime \<Rightarrow> int" where
  "month_number t = 12 * fst (t_date t) + month_of_time t"

lemma wall_day_go_date:
  "0 \<le> tod \<Longrightarrow> tod < day_ns \<Longrightarrow> wall_day (go_date y m d tod off zone) =
     days_of_civil (y + (m - 1) div 12) ((m - 1) mod 12 + 1) 1 + (d - 1)"
  by (simp add: wall_day_def wall_ns_def go_date_def Let_def day_ns_def sec_ns_def)

lemma wall_day_civil:
  assumes "t_date t = (y, m, d)"
  shows "wall_day t = days_of_civil y m 1 + (d - 1)"
  using days_civil [of "wall_day t"] assms by (auto simp: t_date_def days_of_civil_def)

lemma wall_day_add_days: "wall_day (add_date t 0 0 n) = wall_day t + n"
proof -
  obtain y m d where t: "t_date t = (y, m, d)" by (cases "t_date t")
  then have "1 \<le> m" "m \<le> 12" using t_date_valid [OF t] by (auto simp: valid_civil_def)
  then have "(m - 1) div 12 = 0" "(m - 1) mod 12 = m - 1" by simp_all
  then show ?thesis
    by (simp add: add_date_def t wall_day_go_date t_tod_bounds wall_day_civil [OF t])
qed

lemma previous_month:
  assumes "1 \<le> m" "m \<le> 12"
  shows "days_of_civil (y + (m - 2) div 12) ((m - 2) mod 12 + 1) 1 \<le> days_of_civil y m 1"
proof -
  have l: "year_start y = year_start (y - 1) + (if leap (y - 1) then 366 else 365)"
    using year_start_step [of "y - 1"] by simp
  from month_cases [OF assms] l show ?thesis
    by (elim insertE emptyE) (simp_all add: days_of_civil_def)
qed

lemma twelfths:
  fixes a b x z :: int
  assumes "0 \<le> a" "a < 12" "0 \<le> b" "b < 12" "12 * x + a = 12 * z + b"
  shows "x = z \<and> a = b"
proof -
  have "(12 * x + a) div 12 = x" "(12 * z + b) div 12 = z" using assms(1-4) by simp_all
  with assms(5) show ?thesis by simp
qed

lemma month_before:
  fixes m tm ty y :: int
  assumes "1 \<le> m" "m \<le> 12" "1 \<le> tm" "tm \<le> 12" "12 * ty + tm = 12 * y + m - 1"
  shows "ty = y + (m - 2) div 12 \<and> tm = (m - 2) mod 12 + 1"
proof (cases "m = 1")
  case True
  have "12 * ty + (tm - 1) = 12 * (y - 1) + 11" using assms(5) True by simp
  from twelfths [OF _ _ _ _ this] assms have "ty = y - 1" "tm = 12" by auto
  with True show ?thesis by (simp add: minus_one_div_numeral)
next
  case False
  have "12 * ty + (tm - 1) = 12 * y + (m - 2)" using assms(5) by simp
  from twelfths [OF _ _ _ _ this] assms False have "ty = y" "tm = m - 1" by auto
  with False assms(1,2) show ?thesis by simp
qed

lemma drop_date_bound:
  assumes "thr = add_date now 0 0 (- retention)" "month_number now - month_number thr \<in> {0, 1}" "day_of_time thr \<noteq> 15"
  shows "wall_day (partition_table_date retention now) \<le> partition_start thr"
proof (cases "day_of_time thr < 15")
  case True
  then show ?thesis
    by (simp add: partition_table_date_def assms(1) [symmetric] wall_day_add_days partition_start_def)
next
  case False
  obtain y m d where n: "t_date now = (y, m, d)" by (cases "t_date now")
  obtain ty tm td where t: "t_date thr = (ty, tm, td)" by (cases "t_date thr")
  have b: "1 \<le> m" "m \<le> 12" "1 \<le> tm" "tm \<le> 12"
    using t_date_valid [OF n] t_date_valid [OF t] by (auto simp: valid_civil_def)
  from False assms(3) t have td: "15 < td" by (simp add: day_of_time_def)
  have w: "wall_day (partition_table_date retention now) = days_of_civil (y + (m - 2) div 12) ((m - 2) mod 12 + 1) 1 + 15"
    using False by (simp add: partition_table_date_def assms(1) [symmetric] n month_of_time_def wall_day_go_date day_ns_def sec_ns_def)
  have p: "partition_start thr = days_of_civil ty tm 1 + 15"
    using td by (simp add: partition_start_def day_of_time_def t wall_day_civil [OF t])
  from assms(2) n t have "12 * ty + tm = 12 * y + m \<or> 12 * ty + tm = 12 * y + m - 1"
    by (auto simp: month_number_def month_of_time_def)
  moreover have "12 * ty + tm = 12 * y + m \<Longrightarrow> ty = y \<and> tm = m"
    using b twelfths [of "tm - 1" "m - 1" ty y] by simp
  ultimately consider "ty = y" "tm = m" | "ty = y + (m - 2) div 12" "tm = (m - 2) mod 12 + 1"
    using month_before [OF b, of ty y] by blast
  then show ?thesis
    using previous_month [OF b(1,2), of y] by cases (simp_all add: w p)
qed

text \<open>C28: If the retention threshold lies in this month or the previous one, and not on a 15th, then no partition that
  holds data younger than the threshold starts before the date given to the database: none of it is dropped.\<close>

theorem DeletePartitions_keeps_retention:
  assumes "thr = add_date now 0 0 (- retention)" "month_number now - month_number thr \<in> {0, 1}" "day_of_time thr \<noteq> 15"
  shows "wall_day (partition_table_date retention now) \<le> partition_start thr"
  using assms by (rule drop_date_bound)

theorem DeletePartitions_keeps_retention_witness:
  "wall_day (partition_table_date 15 (go_date 2023 7 31 0 0 ''UTC'')) \<le> partition_start (add_date (go_date 2023 7 31 0 0 ''UTC'') 0 0 (- 15))"
proof -
  have "month_number (go_date 2023 7 31 0 0 ''UTC'') - month_number (add_date (go_date 2023 7 31 0 0 ''UTC'') 0 0 (- 15)) = 0"
    "day_of_time (add_date (go_date 2023 7 31 0 0 ''UTC'') 0 0 (- 15)) = 16" by code_simp+
  then show ?thesis by (intro DeletePartitions_keeps_retention [OF refl]) simp_all
qed

text \<open>On the 15th of a month that is shorter than 30 days, and for a retention of more than a month, younger data is
  dropped: on March 2nd the partition of February 1st to 15th goes although the 15th is inside the retention of 15 days, and
  on July 20th a retention of 90 days keeps nothing before June 16th, the threshold being April 21st.\<close>

theorem DeletePartitions_drops_retained:
  "partition_table_date 15 (go_date 2023 3 2 0 0 ''UTC'') = go_date 2023 2 16 0 0 ''UTC''
   \<and> t_date (add_date (go_date 2023 3 2 0 0 ''UTC'') 0 0 (- 15)) = (2023, 2, 15)
   \<and> partition_start (add_date (go_date 2023 3 2 0 0 ''UTC'') 0 0 (- 15)) < wall_day (partition_table_date 15 (go_date 2023 3 2 0 0 ''UTC''))
   \<and> partition_table_date 90 (go_date 2023 7 20 0 0 ''UTC'') = go_date 2023 6 16 0 0 ''UTC''
   \<and> t_date (add_date (go_date 2023 7 20 0 0 ''UTC'') 0 0 (- 90)) = (2023, 4, 21)"
  by code_simp

section \<open>Cleaning a cluster up\<close>

definition deleted_experiments :: "event list \<Rightarrow> string list" where
  "deleted_experiments es = List.map_filter (\<lambda>e. case e of Http m _ _ (DeleteBody n) _ \<Rightarrow> if m = ''DELETE'' then Some n else None | _ \<Rightarrow> None) es"

definition deletes_cluster :: "event \<Rightarrow> bool" where
  "deletes_cluster e = (case e of DeleteCluster _ _ \<Rightarrow> True | _ \<Rightarrow> False)"

lemma deleted_simps [simp]:
  "deleted_experiments [] = []" "deleted_experiments (Inc c # es) = deleted_experiments es"
  "deleted_experiments (Http ''DELETE'' u q (DeleteBody n) r # es) = n # deleted_experiments es"
  "deleted_experiments (DeleteCluster s x # es) = deleted_experiments es"
  "deleted_experiments (es @ es') = deleted_experiments es @ deleted_experiments es'"
  "\<not> deletes_cluster (Inc c)" "\<not> deletes_cluster (Http m u q b r)" "deletes_cluster (DeleteCluster s x)"
  "\<not> deletes_cluster (FirstCluster s fc)" "\<not> deletes_cluster (FindWorkloads k fw)"
  by (simp_all add: deleted_experiments_def List.map_filter_def deletes_cluster_def)

lemma delete_experiment_sat:
  assumes "w_bad_url w (KruizeUrl (w_cfg w) @ ''/createExperiment'') = None"
  shows "sat (DeleteExperimentFromKruize w n) h (\<lambda>r es. r = Done () \<and> deleted_experiments es = [n] \<and> list_all (\<lambda>e. \<not> deletes_cluster e) es)"
  by (simp add: DeleteExperimentFromKruize_def Let_def assms sat_rules split: sum.split)

lemma delete_experiments_sat:
  assumes "w_bad_url w (KruizeUrl (w_cfg w) @ ''/createExperiment'') = None"
  shows "sat (each ws (\<lambda>wl. DeleteExperimentFromKruize w (wl_experiment_name wl))) h
    (\<lambda>r es. r = Done () \<and> deleted_experiments es = map wl_experiment_name ws \<and> list_all (\<lambda>e. \<not> deletes_cluster e) es)"
proof (induction ws arbitrary: h)
  case (Cons wl ws)
  show ?case
    unfolding each.simps sat_seq
    by (rule sat_mono [OF delete_experiment_sat [OF assms]]) (auto intro!: sat_mono [OF Cons.IH])
qed (simp add: sat_ret)

text \<open>One cleaning up for the source \<open>s\<close>: the cluster is looked up by its source, its workloads by the cluster, then there is a
  request to delete the experiment of every one of them, in order, and after that the cluster is deleted by the source id found.\<close>

definition cleanup :: "string \<Rightarrow> event list \<Rightarrow> bool" where
  "cleanup s es =
     (\<exists>c src ws pre e suf. es = FirstCluster s (Found (c, src)) # FindWorkloads c (Inr ws) # pre @ DeleteCluster src e # suf
        \<and> deleted_experiments pre = map wl_experiment_name ws \<and> list_all (\<lambda>e. \<not> deletes_cluster e) (pre @ suf)
        \<and> deleted_experiments suf = [])"

text \<open>One that ends early, without deleting anything.\<close>

definition cleanup_fails :: "string \<Rightarrow> event list \<Rightarrow> bool" where
  "cleanup_fails s es =
     (es = [FirstCluster s NotFound] \<or> (\<exists>e. es = [FirstCluster s (LookupErr e)])
      \<or> (\<exists>c src e. es = [FirstCluster s (Found (c, src)), FindWorkloads c (Inl e)]))"

text \<open>\<open>n\<close> of them one after the other, up to the first that fails.\<close>

fun cleanups :: "nat \<Rightarrow> string \<Rightarrow> event list \<Rightarrow> bool" where
  "cleanups 0 s es = (es = [])"
| "cleanups (Suc n) s es = (cleanup_fails s es \<or> (\<exists>es1 es2. es = es1 @ es2 \<and> cleanup s es1 \<and> cleanups n s es2))"

definition destroy_headers :: "(string \<times> string) list \<Rightarrow> nat" where
  "destroy_headers headers = count_list headers (''event_type'', ''Application.destroy'')"

text \<open>The source whose application of the listener's kind is destroyed, as the database has its id.\<close>

definition destroyed_source :: "world \<Rightarrow> int \<Rightarrow> json option \<Rightarrow> string option" where
  "destroyed_source w app msg =
     (case Option.bind msg (\<lambda>j. case w_decode_sources w j of Inl _ \<Rightarrow> None | Inr d \<Rightarrow> Some d) of
        Some d \<Rightarrow> if se_application_type_id d = app then Some (itoa (se_source_id d)) else None
      | None \<Rightarrow> None)"

definition listener_outcome :: "world \<Rightarrow> int \<Rightarrow> json option \<Rightarrow> (string \<times> string) list \<Rightarrow> event list \<Rightarrow> bool" where
  "listener_outcome w app msg headers es =
     (case destroyed_source w app msg of
        None \<Rightarrow> es = []
      | Some s \<Rightarrow> cleanups (destroy_headers headers) s es)"

lemma destroy_headers_simps [simp]:
  "destroy_headers [] = 0"
  "destroy_headers (h # hs) = (if h = (''event_type'', ''Application.destroy'') then Suc (destroy_headers hs) else destroy_headers hs)"
  by (auto simp: destroy_headers_def)

lemma cleanup_round:
  assumes "deleted_experiments pre = map wl_experiment_name ws" "list_all (\<lambda>e. \<not> deletes_cluster e) pre" "suf = [] \<or> suf = [Inc k]"
  shows "cleanup s (FirstCluster s (Found (c, src)) # FindWorkloads c (Inr ws) # pre @ DeleteCluster src e # suf)"
  using assms unfolding cleanup_def by fastforce

lemma cleanups_step:
  assumes "cleanups n s es" "deleted_experiments pre = map wl_experiment_name ws" "list_all (\<lambda>e. \<not> deletes_cluster e) pre"
  shows "cleanups (Suc n) s (FirstCluster s (Found (c, src)) # FindWorkloads c (Inr ws) # pre @ DeleteCluster src e # es)"
    "cleanups (Suc n) s (FirstCluster s (Found (c, src)) # FindWorkloads c (Inr ws) # pre @ DeleteCluster src e # Inc k # es)"
proof -
  have r: "cleanup s (FirstCluster s (Found (c, src)) # FindWorkloads c (Inr ws) # pre @ DeleteCluster src e # suf)"
    if "suf = [] \<or> suf = [Inc k]" for suf using cleanup_round [OF assms(2,3) that] .
  show "cleanups (Suc n) s (FirstCluster s (Found (c, src)) # FindWorkloads c (Inr ws) # pre @ DeleteCluster src e # es)"
    unfolding cleanups.simps using r [of "[]"] assms(1)
    by (intro disjI2 exI [of _ "FirstCluster s (Found (c, src)) # FindWorkloads c (Inr ws) # pre @ [DeleteCluster src e]"] exI [of _ es]) simp
  show "cleanups (Suc n) s (FirstCluster s (Found (c, src)) # FindWorkloads c (Inr ws) # pre @ DeleteCluster src e # Inc k # es)"
    unfolding cleanups.simps using r [of "[Inc k]"] assms(1)
    by (intro disjI2 exI [of _ "FirstCluster s (Found (c, src)) # FindWorkloads c (Inr ws) # pre @ [DeleteCluster src e, Inc k]"] exI [of _ es]) simp
qed

lemma sourcesListener_cleans:
  assumes "w_bad_url w (KruizeUrl (w_cfg w) @ ''/createExperiment'') = None"
  shows "sat (sourcesListener w app msg headers) h (\<lambda>r es. r = Done () \<and> listener_outcome w app msg headers es)"
proof (cases "destroyed_source w app msg")
  case None
  then show ?thesis
    by (induction headers) (auto simp: listener_outcome_def destroyed_source_def sat_rules split: option.splits sum.splits if_splits)
next
  case (Some s)
  then obtain j d where d: "msg = Some j" "w_decode_sources w j = Inr d" "se_application_type_id d = app" "s = itoa (se_source_id d)"
    by (auto simp: destroyed_source_def split: bind_splits option.splits sum.splits if_splits)
  have "sat (sourcesListener w app msg headers) h (\<lambda>r es. r = Done () \<and> cleanups (destroy_headers headers) s es)"
  proof (induction headers arbitrary: h)
    case (Cons hd1 headers)
    show ?case
      by (cases hd1)
        (auto simp: d sat_andthen sat_ask sat_ret sat_seq [of "each xs f" for xs f] sat_seq [of "emit e" for e] sat_emit
          delete_cluster_def cleanup_fails_def Cons.IH [unfolded d] simp del: cleanups.simps(2)
          split: lookup.split sum.split option.split
          intro!: sat_mono [OF delete_experiments_sat [OF assms]] sat_mono [OF Cons.IH [unfolded d]] cleanups_step
          intro: cleanups.simps(2) [THEN iffD2])
  qed (simp add: sat_ret)
  then show ?thesis by (simp add: listener_outcome_def Some)
qed

text \<open>C34: Whatever headers a message has, the listener does nothing unless the message reports a destroyed application of its kind.
  If it does, then for each of the headers that say so, up to the first time that the cluster or its workloads cannot be found, the
  cluster of the message's source is looked up, the experiments of all its workloads are deleted, and after them the cluster.\<close>

theorem sourcesListener_order:
  assumes "w_bad_url w (KruizeUrl (w_cfg w) @ ''/createExperiment'') = None"
  shows "case sourcesListener w app msg headers h of (r, es) \<Rightarrow> r = Done () \<and> listener_outcome w app msg headers es"
  using sourcesListener_cleans [OF assms, of app msg headers h] by (simp add: sat_def split_def)

definition cleanup_world :: world where
  "cleanup_world = example_world
     \<lparr>w_decode_sources := (\<lambda>_. Inr \<lparr>se_id = 1, se_source_id = 42, se_application_type_id = 99, se_tenant = ''t''\<rparr>),
      w_first_cluster := (\<lambda>_. Found (3, ''42'')),
      w_workloads := (\<lambda>_. Inr [\<lparr>wl_org_id = ''o'', wl_cluster_id = 3, wl_experiment_name = ''exp'', wl_namespace = ''ns'',
         wl_type = ''deployment'', wl_name = ''web'', wl_containers = [''web''], wl_metrics_upload_at = go_zero_time\<rparr>])\<rparr>"

lemma destroyed_example: "destroyed_source cleanup_world 99 (Some (JObj [])) = Some ''42''"
  by code_simp

theorem sourcesListener_order_witness:
  "case sourcesListener cleanup_world 99 (Some (JObj []))
       [(''event_type'', ''Application.destroy''), (''x'', ''y''), (''event_type'', ''Application.destroy'')] [] of
     (r, es) \<Rightarrow> r = Done () \<and> cleanups 2 ''42'' es"
proof -
  have "w_bad_url cleanup_world (KruizeUrl (w_cfg cleanup_world) @ ''/createExperiment'') = None"
    by (simp add: cleanup_world_def example_world_def)
  from sourcesListener_order [OF this, of 99 "Some (JObj [])"
      "[(''event_type'', ''Application.destroy''), (''x'', ''y''), (''event_type'', ''Application.destroy'')]" "[]"]
  show ?thesis by (simp add: listener_outcome_def destroyed_example numeral_2_eq_2 split_def)
qed

end
