(* ===== verification/Aggregator.thy ===== *)
theory Aggregator
  imports Effects
begin

text \<open>
  \<open>internal/utils/aggregator.go\<close> and the column tables of \<open>internal/types/csvColumnMapping.go\<close>: which rows of a report are
  used, and what is grouped and aggregated.  A dataframe is its column names and its rows.

  What gota does with a dataframe is not under \<open>src/\<close>: its operations are the argument \<open>g\<close>.  \<open>gota_laws\<close> states what
  the package documents of two of them: a filter keeps the rows that satisfy all its conditions, in order, and a
  mutation sets one column row by row.
\<close>

record frame =
  fr_names :: "string list"
  fr_rows :: "row list"

section \<open>Columns\<close>

datatype series_type = SString | SFloat

definition CSVColumnMapping :: "(string \<times> series_type) list" where
  "CSVColumnMapping =
     [(''report_period_start'', SString), (''report_period_end'', SString), (''interval_start'', SString),
      (''interval_end'', SString), (''container_name'', SString), (''pod'', SString), (''owner_name'', SString),
      (''owner_kind'', SString), (''workload'', SString), (''workload_type'', SString), (''namespace'', SString),
      (''image_name'', SString), (''node'', SString), (''resource_id'', SString),
      (''cpu_request_container_avg'', SFloat), (''cpu_request_container_sum'', SFloat),
      (''cpu_limit_container_avg'', SFloat), (''cpu_limit_container_sum'', SFloat),
      (''cpu_usage_container_avg'', SFloat), (''cpu_usage_container_min'', SFloat),
      (''cpu_usage_container_max'', SFloat), (''cpu_usage_container_sum'', SFloat),
      (''cpu_throttle_container_avg'', SFloat), (''cpu_throttle_container_max'', SFloat), (''cpu_throttle_container_sum'', SFloat),
      (''memory_request_container_avg'', SFloat), (''memory_request_container_sum'', SFloat),
      (''memory_limit_container_avg'', SFloat), (''memory_limit_container_sum'', SFloat),
      (''memory_usage_container_avg'', SFloat), (''memory_usage_container_min'', SFloat),
      (''memory_usage_container_max'', SFloat), (''memory_usage_container_sum'', SFloat),
      (''memory_rss_usage_container_avg'', SFloat), (''memory_rss_usage_container_min'', SFloat),
      (''memory_rss_usage_container_max'', SFloat), (''memory_rss_usage_container_sum'', SFloat)]"

definition NamespaceCSVColumnMapping :: "(string \<times> series_type) list" where
  "NamespaceCSVColumnMapping =
     [(''report_period_start'', SString), (''report_period_end'', SString), (''interval_start'', SString),
      (''interval_end'', SString), (''namespace'', SString),
      (''cpu_request_namespace_sum'', SFloat), (''cpu_limit_namespace_sum'', SFloat),
      (''cpu_usage_namespace_avg'', SFloat), (''cpu_usage_namespace_max'', SFloat), (''cpu_usage_namespace_min'', SFloat),
      (''cpu_throttle_namespace_avg'', SFloat), (''cpu_throttle_namespace_max'', SFloat), (''cpu_throttle_namespace_min'', SFloat),
      (''memory_request_namespace_sum'', SFloat), (''memory_limit_namespace_sum'', SFloat),
      (''memory_usage_namespace_avg'', SFloat), (''memory_usage_namespace_max'', SFloat), (''memory_usage_namespace_min'', SFloat),
      (''memory_rss_usage_namespace_avg'', SFloat), (''memory_rss_usage_namespace_max'', SFloat),
      (''memory_rss_usage_namespace_min'', SFloat), (''namespace_running_pods_max'', SFloat),
      (''namespace_running_pods_avg'', SFloat), (''namespace_total_pods_max'', SFloat), (''namespace_total_pods_avg'', SFloat)]"

definition GetColumnMapping :: "string \<Rightarrow> (string \<times> series_type) list" where
  "GetColumnMapping csvType = (if csvType = ''namespace'' then NamespaceCSVColumnMapping else CSVColumnMapping)"

section \<open>The operations of gota that are used\<close>

datatype comparison = AtLeastZero string | Differs string string | OneOf string "string list"

datatype aggregation = Agg_MEAN | Agg_SUM | Agg_MIN | Agg_MAX

record gota =
  g_load :: "(string \<times> series_type) list \<Rightarrow> string list list \<Rightarrow> frame"
  g_filter :: "comparison list \<Rightarrow> frame \<Rightarrow> frame"
  g_set_column :: "string \<Rightarrow> (row \<Rightarrow> string) \<Rightarrow> frame \<Rightarrow> frame"
  g_group :: "string list \<Rightarrow> frame \<Rightarrow> frame list"
  g_aggregate :: "(string \<times> aggregation) list \<Rightarrow> frame list \<Rightarrow> frame"
  g_regroup :: "(string \<times> series_type) list \<Rightarrow> row list \<Rightarrow> row list list"

text \<open>An element's \<open>String()\<close>.\<close>

definition elem_string :: "row \<Rightarrow> string \<Rightarrow> string" where
  "elem_string r k = (case cell_at r k of CNil \<Rightarrow> ''NaN'' | c \<Rightarrow> AssertAndConvertToString c)"

text \<open>A missing element (NA): its \<open>String()\<close> is \<open>NaN\<close>, and every comparison with it is false, \<open>Neq\<close> included.\<close>

definition is_na :: "row \<Rightarrow> string \<Rightarrow> bool" where
  "is_na r k = (elem_string r k = ''NaN'')"

fun holds :: "row \<Rightarrow> comparison \<Rightarrow> bool" where
  "holds r (AtLeastZero k) = (case cell_at r k of CFloat v \<Rightarrow> f64_less (Zero False) v \<or> f64_eq (Zero False) v | _ \<Rightarrow> False)"
| "holds r (Differs k s) = (\<not> is_na r k \<and> elem_string r k \<noteq> s)"
| "holds r (OneOf k ss) = (\<not> is_na r k \<and> elem_string r k \<in> set ss)"

definition gota_laws :: "gota \<Rightarrow> bool" where
  "gota_laws g =
     ((\<forall>fs df. g_filter g fs df = df\<lparr>fr_rows := filter (\<lambda>r. list_all (holds r) fs) (fr_rows df)\<rparr>)
      \<and> (\<forall>k f df. fr_rows (g_set_column g k f df) = map (\<lambda>r. AList.update k (CStr (f r)) r) (fr_rows df)))"

section \<open>Valid rows\<close>

definition namespace_conditions :: "comparison list" where
  "namespace_conditions =
     [AtLeastZero ''cpu_usage_namespace_avg'', AtLeastZero ''cpu_usage_namespace_max'', AtLeastZero ''cpu_usage_namespace_min'',
      AtLeastZero ''memory_usage_namespace_avg'', AtLeastZero ''memory_usage_namespace_max'', AtLeastZero ''memory_usage_namespace_min'',
      AtLeastZero ''memory_rss_usage_namespace_avg'', AtLeastZero ''memory_rss_usage_namespace_max'',
      AtLeastZero ''memory_rss_usage_namespace_min'', Differs ''namespace'' [], Differs ''namespace'' ''<none>'']"

definition container_conditions :: "comparison list" where
  "container_conditions =
     [AtLeastZero ''memory_rss_usage_container_sum'', AtLeastZero ''memory_rss_usage_container_max'',
      AtLeastZero ''memory_rss_usage_container_min'', AtLeastZero ''memory_rss_usage_container_avg'',
      AtLeastZero ''memory_usage_container_sum'', AtLeastZero ''memory_usage_container_max'',
      AtLeastZero ''memory_usage_container_min'', AtLeastZero ''memory_usage_container_avg'',
      AtLeastZero ''cpu_usage_container_sum'', AtLeastZero ''cpu_usage_container_max'',
      AtLeastZero ''cpu_usage_container_min'', AtLeastZero ''cpu_usage_container_avg'',
      Differs ''owner_kind'' [], Differs ''owner_name'' [], Differs ''owner_kind'' ''<none>'', Differs ''owner_name'' ''<none>'',
      Differs ''workload_type'' ''<none>'', Differs ''workload_type'' []]"

definition supported_workload_types :: "string list" where
  "supported_workload_types =
     [''daemonset'', ''deployment'', ''deploymentconfig'', ''replicaset'', ''replicationcontroller'', ''statefulset'']"

definition Nrow :: "frame \<Rightarrow> int" where
  "Nrow df = int (length (fr_rows df))"

text \<open>The number is that of the dropped records.  \<open>uni\<close> lower-cases what is not ASCII.\<close>

definition filterValidCSVRecords :: "gota \<Rightarrow> (string \<Rightarrow> string) \<Rightarrow> string \<Rightarrow> frame \<Rightarrow> frame \<times> int" where
  "filterValidCSVRecords g uni filterForType mainDf =
     (if filterForType = ''namespace'' then
        (let df = g_filter g namespace_conditions mainDf in (df, Nrow mainDf - Nrow df))
      else
        (let df = g_filter g container_conditions mainDf in
         if Nrow df = 0 then (df, Nrow mainDf)
         else
           (let df = g_set_column g ''workload_type'' (\<lambda>r. to_lower uni (elem_string r ''workload_type'')) df;
                df = g_filter g [OneOf ''workload_type'' supported_workload_types] df
            in (df, Nrow mainDf - Nrow df))))"

section \<open>The Kubernetes object of a row\<close>

definition k8s_object_of :: "(string \<Rightarrow> string) \<Rightarrow> row \<Rightarrow> string \<times> string" where
  "k8s_object_of uni r =
     (let owner_name = elem_string r ''owner_name''; owner_kind = elem_string r ''owner_kind'';
          workload = elem_string r ''workload''; workload_type = elem_string r ''workload_type''
      in if to_lower uni owner_kind = ''replicaset'' \<and> (workload = ''<none>'' \<or> workload = []) then (''replicaset'', owner_name)
         else if to_lower uni owner_kind = ''replicationcontroller'' \<and> (workload = ''<none>'' \<or> workload = [])
         then (''replicationcontroller'', owner_name)
         else (workload_type, workload))"

definition determine_k8s_object_type :: "gota \<Rightarrow> (string \<Rightarrow> string) \<Rightarrow> frame \<Rightarrow> frame" where
  "determine_k8s_object_type g uni df =
     (let df = g_set_column g ''k8s_object_type'' (fst \<circ> k8s_object_of uni) df
      in g_set_column g ''k8s_object_name'' (snd \<circ> k8s_object_of uni) df)"

section \<open>Aggregation\<close>

definition container_aggregations :: "(string \<times> aggregation) list" where
  "container_aggregations =
     [(''cpu_request_container_avg'', Agg_MEAN), (''cpu_request_container_sum'', Agg_SUM), (''cpu_limit_container_avg'', Agg_MEAN),
      (''cpu_limit_container_sum'', Agg_SUM), (''cpu_usage_container_avg'', Agg_MEAN), (''cpu_usage_container_min'', Agg_MIN),
      (''cpu_usage_container_max'', Agg_MAX), (''cpu_usage_container_sum'', Agg_SUM), (''cpu_throttle_container_avg'', Agg_MEAN),
      (''cpu_throttle_container_max'', Agg_MAX), (''cpu_throttle_container_sum'', Agg_SUM), (''memory_request_container_avg'', Agg_MEAN),
      (''memory_request_container_sum'', Agg_SUM), (''memory_limit_container_avg'', Agg_MEAN), (''memory_limit_container_sum'', Agg_SUM),
      (''memory_usage_container_avg'', Agg_MEAN), (''memory_usage_container_min'', Agg_MIN), (''memory_usage_container_max'', Agg_MAX),
      (''memory_usage_container_sum'', Agg_SUM), (''memory_rss_usage_container_avg'', Agg_MEAN), (''memory_rss_usage_container_min'', Agg_MIN),
      (''memory_rss_usage_container_max'', Agg_MAX), (''memory_rss_usage_container_sum'', Agg_SUM)]"

definition namespace_aggregations :: "(string \<times> aggregation) list" where
  "namespace_aggregations =
     [(''cpu_request_namespace_sum'', Agg_SUM), (''cpu_limit_namespace_sum'', Agg_SUM), (''cpu_usage_namespace_avg'', Agg_MEAN),
      (''cpu_usage_namespace_max'', Agg_MAX), (''cpu_usage_namespace_min'', Agg_MIN), (''cpu_throttle_namespace_avg'', Agg_MEAN),
      (''cpu_throttle_namespace_max'', Agg_MAX), (''cpu_throttle_namespace_min'', Agg_MIN), (''memory_request_namespace_sum'', Agg_SUM),
      (''memory_limit_namespace_sum'', Agg_SUM), (''memory_usage_namespace_avg'', Agg_MEAN), (''memory_usage_namespace_max'', Agg_MAX),
      (''memory_usage_namespace_min'', Agg_MIN), (''memory_rss_usage_namespace_avg'', Agg_MEAN), (''memory_rss_usage_namespace_max'', Agg_MAX),
      (''memory_rss_usage_namespace_min'', Agg_MIN), (''namespace_running_pods_max'', Agg_MAX), (''namespace_running_pods_avg'', Agg_MEAN),
      (''namespace_total_pods_max'', Agg_MAX), (''namespace_total_pods_avg'', Agg_MEAN)]"

definition hasMissingColumns :: "string list \<Rightarrow> string list \<Rightarrow> bool" where
  "hasMissingColumns requiredColumns csvColumns = list_ex (\<lambda>c. c \<notin> set csvColumns) requiredColumns"

definition hasMissingColumnsCSV :: "string \<Rightarrow> frame \<Rightarrow> string option" where
  "hasMissingColumnsCSV csvType df =
     (if hasMissingColumns (map fst (GetColumnMapping csvType)) (fr_names df)
      then Some ''CSV file does not have all the required columns'' else None)"

definition container_group_columns :: "string list" where
  "container_group_columns =
     [''namespace'', ''k8s_object_type'', ''k8s_object_name'', ''workload'', ''container_name'', ''image_name'', ''interval_start'', ''interval_end'']"

definition Aggregate_data :: "gota \<Rightarrow> (string \<Rightarrow> string) \<Rightarrow> string \<Rightarrow> frame \<Rightarrow> (string + frame) prog" where
  "Aggregate_data g uni aggregationType df =
     (case hasMissingColumnsCSV aggregationType df of
        Some err \<Rightarrow> ret (Inl err)
      | None \<Rightarrow>
          (case filterValidCSVRecords g uni aggregationType df of
             (df, no_of_dropped_records) \<Rightarrow>
               seq (if no_of_dropped_records \<noteq> 0 then emit (Inc ''invalidDataPoints'') else ret ())
                 (if Nrow df = 0 then ret (Inl ''no valid records present in CSV to process further'')
                  else if aggregationType = ''container'' then
                    ret (Inr (g_aggregate g container_aggregations
                      (g_group g container_group_columns (determine_k8s_object_type g uni df))))
                  else
                    ret (Inr (g_aggregate g namespace_aggregations
                      (g_group g [''namespace'', ''interval_start'', ''interval_end''] df))))))"

section \<open>Columns by position\<close>

text \<open>The code reads a row's elements by the position of their column.  \<open>elem_string\<close> reads them by name, which is the same where
  the column exists; and the columns that are read exist once no required column is missing.\<close>

fun findInStringSlice :: "string \<Rightarrow> string list \<Rightarrow> int" where
  "findInStringSlice str [] = - 1"
| "findInStringSlice str (e # s) =
     (if e = str then 0 else (let i = findInStringSlice str s in if i < 0 then i else i + 1))"

lemma findInStringSlice_found:
  "str \<in> set s \<Longrightarrow> 0 \<le> findInStringSlice str s \<and> nat (findInStringSlice str s) < length s \<and> s ! nat (findInStringSlice str s) = str"
  by (induction s) (auto simp: Let_def nat_add_distrib)

lemma findInStringSlice_missing: "str \<notin> set s \<Longrightarrow> findInStringSlice str s = - 1"
  by (induction s) auto

lemma elem_by_position:
  assumes "hasMissingColumnsCSV ''container'' df = None" "k \<in> {''workload_type'', ''owner_name'', ''owner_kind'', ''workload''}"
  shows "map (cell_at r) (fr_names df) ! nat (findInStringSlice k (fr_names df)) = cell_at r k"
proof -
  have "list_all (\<lambda>k. k \<in> set (map fst CSVColumnMapping)) [''workload_type'', ''owner_name'', ''owner_kind'', ''workload'']"
    by code_simp
  with assms(2) have "k \<in> set (map fst CSVColumnMapping)" by auto
  moreover have "GetColumnMapping ''container'' = CSVColumnMapping" by (simp add: GetColumnMapping_def)
  ultimately have "k \<in> set (fr_names df)"
    using assms(1) by (simp add: hasMissingColumnsCSV_def hasMissingColumns_def list_ex_iff split: if_splits) blast
  with findInStringSlice_found show ?thesis by simp
qed

section \<open>What the filter promises\<close>

text \<open>The rows of a container report that are used, said independently of the conditions given to gota: all twelve usage figures are
  reported and not negative, the owner and the type of the workload are known, and the type, in lower case, is one of six.\<close>

definition usage_figures :: "string list" where
  "usage_figures = concat (map (\<lambda>p. map (\<lambda>s. p @ ''_usage_container_'' @ s) [''avg'', ''min'', ''max'', ''sum'']) [''cpu'', ''memory'', ''memory_rss''])"

definition not_negative :: "row \<Rightarrow> string \<Rightarrow> bool" where
  "not_negative r k = (case cell_at r k of CFloat v \<Rightarrow> v \<noteq> NaN \<and> v \<noteq> Inf True \<and> 0 \<le> f64_val v | _ \<Rightarrow> False)"

definition known :: "row \<Rightarrow> string \<Rightarrow> bool" where
  "known r k = (elem_string r k \<notin> {''NaN'', ''<none>'', []})"

definition usable :: "(string \<Rightarrow> string) \<Rightarrow> row \<Rightarrow> bool" where
  "usable uni r =
     (list_all (not_negative r) usage_figures \<and> known r ''owner_kind'' \<and> known r ''owner_name'' \<and> known r ''workload_type''
      \<and> to_lower uni (elem_string r ''workload_type'')
          \<in> {''deployment'', ''deploymentconfig'', ''replicaset'', ''replicationcontroller'', ''statefulset'', ''daemonset''})"

text \<open>The row as it is used.\<close>

definition with_lower_type :: "(string \<Rightarrow> string) \<Rightarrow> row \<Rightarrow> row" where
  "with_lower_type uni r = AList.update ''workload_type'' (CStr (to_lower uni (elem_string r ''workload_type''))) r"

lemma elem_string_lower: "elem_string (with_lower_type uni r) ''workload_type'' = to_lower uni (elem_string r ''workload_type'')"
  by (simp add: elem_string_def with_lower_type_def cell_at_def)

lemma not_negative_holds: "holds r (AtLeastZero k) = not_negative r k"
proof (cases "cell_at r k")
  case (CFloat v)
  then show ?thesis by (cases v) (auto simp: not_negative_def)
qed (simp_all add: not_negative_def)

lemma usable_conditions:
  "usable uni r = (list_all (holds r) container_conditions
     \<and> to_lower uni (elem_string r ''workload_type'') \<in> set supported_workload_types)"
  by (auto simp: usable_def usage_figures_def container_conditions_def supported_workload_types_def known_def is_na_def
      not_negative_holds simp del: holds.simps(1))

lemma supported_not_na:
  "(\<not> is_na r ''workload_type'' \<and> elem_string r ''workload_type'' \<in> set supported_workload_types)
    = (elem_string r ''workload_type'' \<in> set supported_workload_types)"
  by (auto simp: is_na_def supported_workload_types_def)

lemma filter_container_rows:
  assumes "gota_laws g" "ty \<noteq> ''namespace''"
  shows "fr_rows (fst (filterValidCSVRecords g uni ty df)) = map (with_lower_type uni) (filter (usable uni) (fr_rows df))
    \<and> snd (filterValidCSVRecords g uni ty df) = Nrow df - Nrow (fst (filterValidCSVRecords g uni ty df))"
proof -
  define kept where "kept = filter (\<lambda>r. list_all (holds r) container_conditions) (fr_rows df)"
  have f: "g_filter g fs d = d\<lparr>fr_rows := filter (\<lambda>r. list_all (holds r) fs) (fr_rows d)\<rparr>" for fs d
    using assms(1) by (simp add: gota_laws_def)
  have s: "fr_rows (g_set_column g k h d) = map (\<lambda>r. AList.update k (CStr (h r)) r) (fr_rows d)" for k h d
    using assms(1) by (simp add: gota_laws_def)
  have u: "map (with_lower_type uni) (filter (usable uni) (fr_rows df)) =
      filter (\<lambda>r. \<not> is_na r ''workload_type'' \<and> elem_string r ''workload_type'' \<in> set supported_workload_types) (map (with_lower_type uni) kept)"
    unfolding supported_not_na
    by (simp add: kept_def filter_map comp_def elem_string_lower usable_conditions [abs_def] conj_commute)
  show ?thesis
  proof (cases "kept = []")
    case True
    then show ?thesis
      using assms(2) by (simp add: filterValidCSVRecords_def Let_def f Nrow_def u kept_def [symmetric])
  next
    case False
    then show ?thesis
      using assms(2) u by (simp add: filterValidCSVRecords_def Let_def f s Nrow_def kept_def [symmetric] with_lower_type_def [abs_def])
  qed
qed

text \<open>C23: Of a container report exactly the usable rows remain, in order and with their workload type in lower case: those
  in which no usage figure is missing or negative, the owner's kind and name and the workload type are known, and the type is a
  supported one in any case; all others are counted as dropped.\<close>

theorem filterValidCSVRecords_container:
  assumes "gota_laws g" "ty \<noteq> ''namespace''"
  shows "fr_rows (fst (filterValidCSVRecords g uni ty df)) = map (with_lower_type uni) (filter (usable uni) (fr_rows df))
    \<and> snd (filterValidCSVRecords g uni ty df) = Nrow df - Nrow (fst (filterValidCSVRecords g uni ty df))"
  using assms by (rule filter_container_rows)

definition example_gota :: gota where
  "example_gota =
     \<lparr>g_load = (\<lambda>cols rs. \<lparr>fr_names = map fst cols, fr_rows = map (\<lambda>r. zip (map fst cols) (map CStr r)) rs\<rparr>),
      g_filter = (\<lambda>fs df. df\<lparr>fr_rows := filter (\<lambda>r. list_all (holds r) fs) (fr_rows df)\<rparr>),
      g_set_column = (\<lambda>k f df. df\<lparr>fr_rows := map (\<lambda>r. AList.update k (CStr (f r)) r) (fr_rows df)\<rparr>),
      g_group = (\<lambda>ks df. [df]), g_aggregate = (\<lambda>as dfs. hd dfs), g_regroup = (\<lambda>cols rs. [rs])\<rparr>"

lemma example_gota_laws: "gota_laws example_gota"
  by (simp add: gota_laws_def example_gota_def)

text \<open>Three rows: a good one, one whose owner is missing, and one with a negative figure.\<close>

definition usage_row :: "(string \<times> cell) list \<Rightarrow> row" where
  "usage_row changes = changes @
     [(''owner_kind'', CStr ''ReplicaSet''), (''owner_name'', CStr ''web-1''), (''workload_type'', CStr ''Deployment'')]
     @ map (\<lambda>k. (k, CFloat (f64_const 1))) usage_figures"

definition usage_frame :: frame where
  "usage_frame = \<lparr>fr_names = map fst CSVColumnMapping,
     fr_rows = [usage_row [], usage_row [(''owner_name'', CNil)], usage_row [(''cpu_usage_container_avg'', CFloat (f64_const (- 1)))]]\<rparr>"

lemma usage_frame_usable: "filter (usable id) (fr_rows usage_frame) = [usage_row []]"
  by code_simp

theorem filterValidCSVRecords_container_witness:
  "fr_rows (fst (filterValidCSVRecords example_gota id ''container'' usage_frame)) = [with_lower_type id (usage_row [])]
   \<and> snd (filterValidCSVRecords example_gota id ''container'' usage_frame) = 2"
  using filterValidCSVRecords_container [OF example_gota_laws, of "''container''" id usage_frame]
  by (simp add: usage_frame_usable) (simp add: Nrow_def usage_frame_def)

text \<open>A row whose workload is not known is attributed to its ReplicaSet or ReplicationController owner.\<close>

theorem k8s_object_of_owner:
  "k8s_object_of uni r =
     (if (elem_string r ''workload'' = ''<none>'' \<or> elem_string r ''workload'' = [])
        \<and> to_lower uni (elem_string r ''owner_kind'') \<in> {''replicaset'', ''replicationcontroller''}
      then (to_lower uni (elem_string r ''owner_kind''), elem_string r ''owner_name'')
      else (elem_string r ''workload_type'', elem_string r ''workload''))"
  by (auto simp: k8s_object_of_def Let_def)

end
