(* ===== verification/ReportProcessor.thy ===== *)
theory ReportProcessor
  imports Kruize Producer Aggregator
begin

text \<open>
  \<open>internal/services/report_processor.go\<close>: each file of a report is downloaded, aggregated, and turned into experiments,
  workloads, usage metrics and one recommendation request for each group of its rows.  What gota computes is the
  argument \<open>g\<close> (theory Aggregator), \<open>uni\<close> lower-cases what is not ASCII, and \<open>fuel\<close> bounds the repetitions of one
  \<open>Update_results\<close>.  A \<open>continue\<close> ends the program of its iteration.
\<close>

section \<open>Chunks\<close>

text \<open>The loop of \<open>SliceMetricsUpdatePayloadToChunks\<close> from index \<open>i\<close>; it only ends for a positive chunk size.\<close>

fun chunk_loop :: "nat \<Rightarrow> int \<Rightarrow> nat \<Rightarrow> 'a list \<Rightarrow> 'a list list result" where
  "chunk_loop 0 chunkSize i objects = OutOfFuel"
| "chunk_loop (Suc n) chunkSize i objects =
     (if i < length objects then
        (let j = min (int i + chunkSize) (int (length objects)) in
         if j < int i then Crashed (GoPanic ''slice bounds out of range'')
         else (case chunk_loop n chunkSize (nat (int i + chunkSize)) objects of
                 Done chunks \<Rightarrow> Done (take (nat (j - int i)) (drop i objects) # chunks)
               | Crashed c \<Rightarrow> Crashed c
               | OutOfFuel \<Rightarrow> OutOfFuel))
      else Done [])"

definition SliceMetricsUpdatePayloadToChunks :: "int \<Rightarrow> 'a list \<Rightarrow> 'a list list prog" where
  "SliceMetricsUpdatePayloadToChunks chunkSize objects h = (chunk_loop (Suc (length objects)) chunkSize 0 objects, [])"

section \<open>Saving\<close>

definition CreateRHAccount :: "world \<Rightarrow> RHAccount \<Rightarrow> (string + nat) prog" where
  "CreateRHAccount w r =
     andthen (ask (SaveAccount r) (w_account w)) (\<lambda>reply.
       case reply of
         Inl err \<Rightarrow> seq (emit (Inc ''dbError'')) (ret (Inl err))
       | Inr (i, created) \<Rightarrow> seq (if created then emit (Inc ''rhAccountCreated'') else ret ()) (ret (Inr i)))"

definition CreateCluster :: "world \<Rightarrow> Cluster \<Rightarrow> (string + nat) prog" where
  "CreateCluster w c =
     andthen (ask (SaveCluster c) (w_insert w)) (\<lambda>reply.
       case reply of
         Inl err \<Rightarrow> seq (emit (Inc ''dbError'')) (ret (Inl err))
       | Inr i \<Rightarrow> ret (Inr i))"

definition CreateWorkload :: "world \<Rightarrow> Workload \<Rightarrow> (string + nat) prog" where
  "CreateWorkload w c =
     andthen (ask (SaveWorkload c) (w_insert w)) (\<lambda>reply.
       case reply of
         Inl err \<Rightarrow> seq (emit (Inc ''dbError'')) (ret (Inl err))
       | Inr i \<Rightarrow> ret (Inr i))"

definition BatchInsertWorkloadMetrics :: "world \<Rightarrow> WorkloadMetrics list \<Rightarrow> string \<Rightarrow> string option prog" where
  "BatchInsertWorkloadMetrics w rows org_id =
     andthen (ask (SaveMetrics rows) (w_exec w)) (\<lambda>reply.
       case reply of
         None \<Rightarrow> ret None
       | Some err \<Rightarrow>
           if str_contains err ''no partition'' then
             seq (emit (Inc ''partitionMissing/workload_metrics''))
               (seq (emit (Inc ''dbError''))
                 (ret (Some (''partition not found for resource workload_metrics with org_id '' @ org_id))))
           else seq (emit (Inc ''dbError'')) (ret (Some err)))"

section \<open>Files\<close>

definition DetermineCSVType :: "string \<Rightarrow> string" where
  "DetermineCSVType fileName = (if str_contains fileName ''namespace'' then ''namespace'' else ''container'')"

text \<open>\<open>featureflags.IsNamespaceEnabled\<close>; the flag of an organisation is the flag service's.\<close>

definition IsNamespaceEnabled :: "world \<Rightarrow> string \<Rightarrow> bool" where
  "IsNamespaceEnabled w org_id = (if DisableNamespaceRecommendation (w_cfg w) then False else w_flag w org_id)"

definition ReadCSVFromUrl :: "world \<Rightarrow> string \<Rightarrow> (string + string list list) prog" where
  "ReadCSVFromUrl w url =
     andthen (ask (Download url) (w_download w)) (\<lambda>reply.
       ret (case reply of
              Inl err \<Rightarrow> Inl err
            | Inr resp \<Rightarrow>
                if cr_status resp < 200 \<or> 300 \<le> cr_status resp
                then Inl (''unexpected status code '' @ itoa (cr_status resp) @ '' when fetching CSV from '' @ url)
                else cr_records resp))"

section \<open>Usage metrics\<close>

text \<open>The rows of one payload entry for each of its containers; an entry whose times cannot be read is left out, and
  one without an object panics.\<close>

definition entry_metrics :: "string \<Rightarrow> nat \<Rightarrow> UpdateResult \<Rightarrow> WorkloadMetrics list option" where
  "entry_metrics org_id workload_id d =
     (case (ConvertISO8601StringToTime (ur_interval_start_time d), ConvertISO8601StringToTime (ur_interval_end_time d)) of
        (Inr interval_start_time, Inr interval_end_time) \<Rightarrow>
          (case ur_kubernetes_objects d of
             [] \<Rightarrow> None
           | k # _ \<Rightarrow> Some (map (\<lambda>c.
               \<lparr>wm_org_id = org_id, wm_workload_id = workload_id, wm_container_name = ct_name c, wm_namespace_name = [],
                wm_metric_type = [], wm_interval_start = interval_start_time, wm_interval_end = interval_end_time,
                wm_usage_metrics = ct_metrics c\<rparr>) (ko_containers k)))
      | _ \<Rightarrow> Some [])"

definition namespace_entry_metrics :: "string \<Rightarrow> nat \<Rightarrow> string \<Rightarrow> UpdateNamespaceResult \<Rightarrow> WorkloadMetrics list option" where
  "namespace_entry_metrics org_id workload_id namespaceName d =
     (case (ConvertISO8601StringToTime (un_interval_start_time d), ConvertISO8601StringToTime (un_interval_end_time d)) of
        (Inr interval_start_time, Inr interval_end_time) \<Rightarrow>
          (case un_kubernetes_objects d of
             [] \<Rightarrow> None
           | k # _ \<Rightarrow> Some [
               \<lparr>wm_org_id = org_id, wm_workload_id = workload_id, wm_container_name = [], wm_namespace_name = namespaceName,
                wm_metric_type = ''namespace'', wm_interval_start = interval_start_time, wm_interval_end = interval_end_time,
                wm_usage_metrics = nm_metrics (nr_namespaces k)\<rparr>])
      | _ \<Rightarrow> Some [])"

fun all_metrics :: "('d \<Rightarrow> WorkloadMetrics list option) \<Rightarrow> 'd list \<Rightarrow> WorkloadMetrics list option" where
  "all_metrics f [] = Some []"
| "all_metrics f (d # ds) =
     (case f d of None \<Rightarrow> None | Some rows \<Rightarrow> map_option (\<lambda>rest. rows @ rest) (all_metrics f ds))"

definition save_metrics :: "world \<Rightarrow> string \<Rightarrow> WorkloadMetrics list option \<Rightarrow> unit prog" where
  "save_metrics w org_id rows =
     (case rows of
        None \<Rightarrow> stop (GoPanic ''index out of range'')
      | Some workload_metric_arr \<Rightarrow> andthen (BatchInsertWorkloadMetrics w workload_metric_arr org_id) (\<lambda>_. ret ()))"

section \<open>The request for a recommendation\<close>

definition request_message :: "KafkaMsg \<Rightarrow> nat \<Rightarrow> gotime \<Rightarrow> string \<Rightarrow> string \<Rightarrow> RecommendationKafkaMsg" where
  "request_message msg workload_id maxEndTime experiment_name ty =
     \<lparr>km_request_id = rp_request_id msg,
      km_metadata = \<lparr>md_org_id = rp_org_id msg, md_workload_id = workload_id, md_experiment_name = experiment_name,
        md_max_endtime_report = to_utc maxEndTime, md_experiment_type = ty\<rparr>\<rparr>"

definition request_recommendation :: "world \<Rightarrow> RecommendationKafkaMsg \<Rightarrow> unit prog" where
  "request_recommendation w messageData =
     (case w_encode_message w messageData of
        Inl err \<Rightarrow> ret ()
      | Inr msgBytes \<Rightarrow>
          andthen (SendMessage w msgBytes (RecommendationTopic (w_cfg w)) (md_experiment_name (km_metadata messageData))) (\<lambda>_. ret ()))"

text \<open>Slicing is used only when the payload is longer than a chunk.\<close>

definition chunks_of :: "world \<Rightarrow> 'a list \<Rightarrow> 'a list list prog" where
  "chunks_of w payload =
     (if KruizeMaxBulkChunkSize (w_cfg w) < int (length payload)
      then SliceMetricsUpdatePayloadToChunks (KruizeMaxBulkChunkSize (w_cfg w)) payload
      else ret [payload])"

section \<open>Groups of rows\<close>

text \<open>What follows once the experiment of a group exists: the workload, the metrics chunk by chunk, the request.\<close>

definition store_and_request ::
  "world \<Rightarrow> KafkaMsg \<Rightarrow> Workload \<Rightarrow> gotime \<Rightarrow> string \<Rightarrow> 'd list option \<Rightarrow> ('d list \<Rightarrow> nat \<Rightarrow> unit prog) \<Rightarrow> unit prog" where
  "store_and_request w msg wl maxEndTime ty payload send_chunk =
     andthen (CreateWorkload w wl) (\<lambda>saved.
       case saved of
         Inl err \<Rightarrow> ret ()
       | Inr workload_id \<Rightarrow>
           (case payload of
              None \<Rightarrow> stop (GoPanic ''interface conversion'')
            | Some ds \<Rightarrow>
                andthen (chunks_of w ds) (\<lambda>chunks.
                  seq (each chunks (\<lambda>chunk. send_chunk chunk workload_id))
                    (request_recommendation w (request_message msg workload_id maxEndTime (wl_experiment_name wl) ty)))))"

definition send_container_chunk :: "world \<Rightarrow> nat \<Rightarrow> string \<Rightarrow> UpdateResult list \<Rightarrow> nat \<Rightarrow> unit prog" where
  "send_container_chunk w fuel org_id chunk workload_id =
     andthen (Update_results w fuel chunk) (\<lambda>sent.
       case sent of
         Inl err \<Rightarrow> ret ()
       | Inr usage_data \<Rightarrow> save_metrics w org_id (all_metrics (entry_metrics org_id workload_id) usage_data))"

definition send_namespace_chunk :: "world \<Rightarrow> nat \<Rightarrow> string \<Rightarrow> string \<Rightarrow> UpdateNamespaceResult list \<Rightarrow> nat \<Rightarrow> unit prog" where
  "send_namespace_chunk w fuel org_id namespaceName chunk workload_id =
     andthen (UpdateNamespaceResults w fuel chunk) (\<lambda>sent.
       case sent of
         Inl err \<Rightarrow> ret ()
       | Inr _ \<Rightarrow> save_metrics w org_id (all_metrics (namespace_entry_metrics org_id workload_id namespaceName) chunk))"

definition process_container_group :: "world \<Rightarrow> gota \<Rightarrow> nat \<Rightarrow> KafkaMsg \<Rightarrow> nat \<Rightarrow> frame \<Rightarrow> unit prog" where
  "process_container_group w g fuel msg cluster_id v =
     (case MaxIntervalEndTime (map (\<lambda>r. elem_string r ''interval_end'') (fr_rows v)) of
        Panicked m \<Rightarrow> stop (GoPanic m)
      | Failed err \<Rightarrow> ret ()
      | Returned maxEndTime \<Rightarrow>
          (case fr_rows v of
             [] \<Rightarrow> stop (GoPanic ''index out of range'')
           | first # _ \<Rightarrow>
               (case (str_cell first ''k8s_object_type'', str_cell first ''k8s_object_name'') of
                  (Some k8s_object_type, Some k8s_object_name) \<Rightarrow>
                    (let namespace = AssertAndConvertToString (cell_at first ''namespace'');
                         experiment_name = GenerateExperimentName (rp_org_id msg) (rp_source_id msg) (rp_cluster_uuid msg)
                           namespace k8s_object_type k8s_object_name;
                         cluster_identifier = rp_org_id msg @ '';'' @ rp_cluster_uuid msg
                     in andthen (Create_kruize_experiments w experiment_name cluster_identifier (fr_rows v)) (\<lambda>created.
                          case created of
                            Inl err \<Rightarrow> ret ()
                          | Inr container_names \<Rightarrow>
                              store_and_request w msg
                                \<lparr>wl_org_id = rp_org_id msg, wl_cluster_id = cluster_id, wl_experiment_name = experiment_name,
                                 wl_namespace = namespace, wl_type = k8s_object_type, wl_name = k8s_object_name,
                                 wl_containers = container_names, wl_metrics_upload_at = maxEndTime\<rparr>
                                maxEndTime ''container''
                                (GetUpdateResultPayload experiment_name (g_regroup g CSVColumnMapping (fr_rows v)))
                                (send_container_chunk w fuel (rp_org_id msg))))
                | _ \<Rightarrow> stop (GoPanic ''interface conversion''))))"

definition process_namespace_group :: "world \<Rightarrow> gota \<Rightarrow> nat \<Rightarrow> KafkaMsg \<Rightarrow> nat \<Rightarrow> frame \<Rightarrow> unit prog" where
  "process_namespace_group w g fuel msg cluster_id v =
     (case MaxIntervalEndTime (map (\<lambda>r. elem_string r ''interval_end'') (fr_rows v)) of
        Panicked m \<Rightarrow> stop (GoPanic m)
      | Failed err \<Rightarrow> ret ()
      | Returned maxEndTime \<Rightarrow>
          (case fr_rows v of
             [] \<Rightarrow> stop (GoPanic ''index out of range'')
           | first # _ \<Rightarrow>
               (let namespaceName = AssertAndConvertToString (cell_at first ''namespace'');
                    experimentName = GenerateNamespaceExperimentName (rp_org_id msg) (rp_source_id msg) (rp_cluster_uuid msg) namespaceName;
                    clusterIdentifier = rp_org_id msg @ '';'' @ rp_cluster_uuid msg
                in andthen (CreateNamespaceExperiment w experimentName clusterIdentifier namespaceName) (\<lambda>created.
                     case created of
                       Inl err \<Rightarrow> ret ()
                     | Inr _ \<Rightarrow>
                         store_and_request w msg
                           \<lparr>wl_org_id = rp_org_id msg, wl_cluster_id = cluster_id, wl_experiment_name = experimentName,
                            wl_namespace = namespaceName, wl_type = ''namespace'', wl_name = [],
                            wl_containers = [], wl_metrics_upload_at = maxEndTime\<rparr>
                           maxEndTime ''namespace''
                           (GetUpdateNamespaceResultPayload (KruizePerformanceProfileVersion (w_cfg w)) experimentName
                              (g_regroup g NamespaceCSVColumnMapping (fr_rows v)))
                           (send_namespace_chunk w fuel (rp_org_id msg) namespaceName)))))"

section \<open>Reports\<close>

text \<open>The account and the cluster, once they have been created.\<close>

record report_state =
  st_account :: "nat option"
  st_cluster :: "nat option"

text \<open>Creating what is not there yet; \<open>None\<close> for an error.\<close>

definition ensure_account :: "world \<Rightarrow> KafkaMsg \<Rightarrow> nat option \<Rightarrow> nat option prog" where
  "ensure_account w msg acc =
     (case acc of
        Some i \<Rightarrow> ret (Some i)
      | None \<Rightarrow>
          andthen (CreateRHAccount w \<lparr>ac_account = rp_account msg, ac_org_id = rp_org_id msg\<rparr>) (\<lambda>r.
            ret (case r of Inl err \<Rightarrow> None | Inr i \<Rightarrow> Some i)))"

definition ensure_cluster :: "world \<Rightarrow> KafkaMsg \<Rightarrow> nat \<Rightarrow> nat option \<Rightarrow> nat option prog" where
  "ensure_cluster w msg tenant_id cl =
     (case cl of
        Some i \<Rightarrow> ret (Some i)
      | None \<Rightarrow>
          andthen (ask Clock (w_now w)) (\<lambda>now.
          andthen (CreateCluster w \<lparr>cl_tenant_id = tenant_id, cl_source_id = rp_source_id msg, cl_uuid = rp_cluster_uuid msg,
              cl_alias = rp_cluster_alias msg, cl_last_reported = now\<rparr>) (\<lambda>r.
            ret (case r of Inl err \<Rightarrow> None | Inr i \<Rightarrow> Some i))))"

text \<open>One iteration of the loop over the files, with the state it leaves.\<close>

definition process_file :: "world \<Rightarrow> gota \<Rightarrow> (string \<Rightarrow> string) \<Rightarrow> nat \<Rightarrow> KafkaMsg \<Rightarrow> report_state \<Rightarrow> string \<Rightarrow> report_state prog" where
  "process_file w g uni fuel msg st file =
     (let csvType = DetermineCSVType file in
      if str_contains file ''namespace'' \<and> \<not> IsNamespaceEnabled w (rp_org_id msg) then ret st
      else
        andthen (ReadCSVFromUrl w file) (\<lambda>fetched.
          case fetched of
            Inl fetchError \<Rightarrow> seq (emit (Inc ''csvFetchError'')) (ret st)
          | Inr records \<Rightarrow>
              andthen (Aggregate_data g uni csvType (g_load g (GetColumnMapping csvType) records)) (\<lambda>aggregated.
                case aggregated of
                  Inl parseError \<Rightarrow>
                    seq (emit (Inc (if csvType = ''namespace'' then ''invalidNamespaceCSV'' else ''invalidCSV''))) (ret st)
                | Inr df \<Rightarrow>
                    andthen (ensure_account w msg (st_account st)) (\<lambda>acc.
                      case acc of
                        None \<Rightarrow> ret st
                      | Some tenant_id \<Rightarrow>
                          andthen (ensure_cluster w msg tenant_id (st_cluster st)) (\<lambda>cl.
                            case cl of
                              None \<Rightarrow> ret (st\<lparr>st_account := acc\<rparr>)
                            | Some cluster_id \<Rightarrow>
                                seq (if csvType = ''container'' then
                                       each (g_group g [''namespace'', ''k8s_object_type'', ''k8s_object_name''] df)
                                         (process_container_group w g fuel msg cluster_id)
                                     else each (g_group g [''namespace''] df) (process_namespace_group w g fuel msg cluster_id))
                                  (ret \<lparr>st_account = acc, st_cluster = cl\<rparr>))))))"

fun process_files :: "world \<Rightarrow> gota \<Rightarrow> (string \<Rightarrow> string) \<Rightarrow> nat \<Rightarrow> KafkaMsg \<Rightarrow> report_state \<Rightarrow> string list \<Rightarrow> unit prog" where
  "process_files w g uni fuel msg st [] = ret ()"
| "process_files w g uni fuel msg st (file # files) =
     andthen (process_file w g uni fuel msg st file) (\<lambda>st'. process_files w g uni fuel msg st' files)"

definition commitOnPermanentFailure :: "world \<Rightarrow> bool \<Rightarrow> unit prog" where
  "commitOnPermanentFailure w has_consumer =
     (if has_consumer then andthen (ask CommitMessage (w_exec w)) (\<lambda>_. ret ()) else ret ())"

definition ProcessReport :: "world \<Rightarrow> gota \<Rightarrow> (string \<Rightarrow> string) \<Rightarrow> nat \<Rightarrow> json option \<Rightarrow> bool \<Rightarrow> unit prog" where
  "ProcessReport w g uni fuel msg has_consumer =
     (case msg of
        None \<Rightarrow> commitOnPermanentFailure w has_consumer
      | Some j \<Rightarrow>
          (case w_decode_report w j of
             Inl err \<Rightarrow> commitOnPermanentFailure w has_consumer
           | Inr kafkaMsg \<Rightarrow>
               (case w_valid_report w kafkaMsg of
                  Some err \<Rightarrow> commitOnPermanentFailure w has_consumer
                | None \<Rightarrow> process_files w g uni fuel kafkaMsg \<lparr>st_account = None, st_cluster = None\<rparr> (rp_files kafkaMsg))))"

section \<open>Chunks promise\<close>

lemma chunk_loop_chunks:
  assumes "0 < chunkSize"
  shows "length xs \<le> i + n \<Longrightarrow> \<exists>cs. chunk_loop (Suc n) chunkSize i xs = Done cs \<and> concat cs = drop i xs
    \<and> list_all (\<lambda>c. c \<noteq> [] \<and> int (length c) \<le> chunkSize) cs"
proof (induction n arbitrary: i)
  case 0
  then show ?case by simp
next
  case (Suc n)
  show ?case
  proof (cases "i < length xs")
    case False
    then show ?thesis by (subst chunk_loop.simps) simp
  next
    case True
    define k where "k = nat (int i + chunkSize)"
    have k: "i < k" "int k = int i + chunkSize" using assms by (simp_all add: k_def)
    then have "length xs \<le> k + n" using Suc.prems by linarith
    from Suc.IH [OF this] obtain cs where cs: "chunk_loop (Suc n) chunkSize k xs = Done cs" "concat cs = drop k xs"
      "list_all (\<lambda>c. c \<noteq> [] \<and> int (length c) \<le> chunkSize) cs" by blast
    let ?c = "take (nat (min (int i + chunkSize) (int (length xs)) - int i)) (drop i xs)"
    have m: "nat (min (int i + chunkSize) (int (length xs)) - int i) = min (k - i) (length xs - i)"
      unfolding k(2) [symmetric] using k(1) True by (auto simp: min_def)
    have c: "?c = take (k - i) (drop i xs)" unfolding m by (simp add: min_def)
    have "?c @ drop k xs = drop i xs"
      using k(1) append_take_drop_id [of "k - i" "drop i xs"] unfolding c by simp
    moreover have "?c \<noteq> []" "int (length ?c) \<le> chunkSize" using k True by (simp_all add: c)
    moreover have "chunk_loop (Suc (Suc n)) chunkSize i xs = Done (?c # cs)"
      using True assms cs(1) by (subst chunk_loop.simps) (simp add: Let_def k_def del: chunk_loop.simps)
    ultimately show ?thesis using cs(2,3) by auto
  qed
qed

text \<open>For a positive size the loop ends, and the chunks are the objects in order, none empty and none too long.\<close>

theorem SliceMetricsUpdatePayloadToChunks_chunks:
  assumes "0 < chunkSize"
  shows "\<exists>cs. SliceMetricsUpdatePayloadToChunks chunkSize objects h = (Done cs, []) \<and> concat cs = objects
    \<and> list_all (\<lambda>c. c \<noteq> [] \<and> int (length c) \<le> chunkSize) cs"
  using chunk_loop_chunks [OF assms, of objects 0 "length objects"] by (simp add: SliceMetricsUpdatePayloadToChunks_def del: chunk_loop.simps)

theorem SliceMetricsUpdatePayloadToChunks_chunks_witness:
  "\<exists>cs. SliceMetricsUpdatePayloadToChunks 2 [1, 2, 3 :: nat] [] = (Done cs, []) \<and> concat cs = [1, 2, 3]
    \<and> list_all (\<lambda>c. c \<noteq> [] \<and> int (length c) \<le> 2) cs"
  by (rule SliceMetricsUpdatePayloadToChunks_chunks) simp

text \<open>For a chunk size of 0 the loop never ends.\<close>

theorem chunk_size_zero_never_ends: "chunk_loop n 0 0 (x # xs) = OutOfFuel"
  by (induction n) simp_all

section \<open>Requests for recommendations\<close>

definition silent :: "event \<Rightarrow> bool" where
  "silent e = (case e of Produce _ _ _ _ \<Rightarrow> False | SaveWorkload _ _ \<Rightarrow> False | SaveAccount _ _ \<Rightarrow> False | SaveCluster _ _ \<Rightarrow> False
     | CommitMessage _ \<Rightarrow> False | Download _ _ \<Rightarrow> False | SaveSet _ _ \<Rightarrow> False | SaveHistory _ _ \<Rightarrow> False
     | SaveNamespaceSet _ _ \<Rightarrow> False | SaveNamespaceHistory _ _ \<Rightarrow> False | _ \<Rightarrow> True)"

lemma silent_simps [simp]: "silent (Http m u q b r)" "silent (Inc c)" "silent (Sleep n)" "silent (SaveMetrics ms r')" "silent (Clock t)"
  "silent (NewProducer np)" "\<not> silent (Produce t' k m' q')" "\<not> silent (SaveWorkload wl r2)" "\<not> silent (SaveAccount ac r3)"
  "\<not> silent (SaveCluster cl r2)" "\<not> silent (Download u r4)" "\<not> silent (CommitMessage ce)"
  by (simp_all add: silent_def)

lemma profile_silent: "profile_event w e \<Longrightarrow> silent e"
  by (cases e) (simp_all add: profile_event_def sent_def slept_def silent_def)

lemma setup_silent [only_rules]: "only silent (Setup_kruize_performance_profile w)"
  by (rule only_weaken [OF only_profile profile_silent])

lemma post_silent [only_rules]: "only silent (post w path body)"
  by (simp add: post_def only_ask)

lemma create_request_silent: "only silent again \<Longrightarrow> only silent (create_request w c f body attempt again names)"
  unfolding create_request_def by (auto intro!: only_rules split: sum.split create_verdict.split)

lemma create_containers_silent: "only silent again \<Longrightarrow> only silent (create_containers w attempt again en cl rows)"
  unfolding create_containers_def by (auto intro!: only_rules create_request_silent split: list.split option.split)

lemma create_silent [only_rules]:
  "only silent (Create_kruize_experiments w en cl rows)" "only silent (CreateNamespaceExperiment w en cl ns)"
  unfolding Create_kruize_experiments_def CreateNamespaceExperiment_def create_namespace_def
  by (intro create_containers_silent create_request_silent only_no_fuel)+

lemma send_results_silent: "only silent (send_results w u c f body n x)"
  by (induction n) (auto intro!: only_rules split: sum.split results_verdict.split)

lemma save_metrics_silent [only_rules]: "only silent (save_metrics w org rows)"
  unfolding save_metrics_def BatchInsertWorkloadMetrics_def by (auto intro!: only_rules split: option.split)

lemma chunk_silent:
  "only silent (send_container_chunk w fuel org c i)" "only silent (send_namespace_chunk w fuel org ns c' i)"
  unfolding send_container_chunk_def send_namespace_chunk_def Update_results_def UpdateNamespaceResults_def
  by (auto intro!: only_rules send_results_silent split: sum.split)

lemma chunks_of_silent [only_rules]: "only Q (chunks_of w xs)"
  by (simp add: chunks_of_def SliceMetricsUpdatePayloadToChunks_def only_def ret_def)

text \<open>Everything a group produces is the request for its workload.\<close>

definition is_request :: "world \<Rightarrow> RecommendationKafkaMsg \<Rightarrow> event \<Rightarrow> bool" where
  "is_request w m e =
     (case e of Produce t k b q \<Rightarrow> t = RecommendationTopic (w_cfg w) \<and> k = md_experiment_name (km_metadata m) \<and> w_encode_message w m = Inr b
      | _ \<Rightarrow> silent e)"

lemma silent_request: "silent e \<Longrightarrow> is_request w m e"
  by (cases e) (simp_all add: is_request_def)

lemma send_loop_only:
  assumes "\<And>q. Q (Produce topic key msg q)" "\<And>n. Q (Sleep n)"
  shows "only Q (send_loop w msg topic key a n e)"
  by (induction n arbitrary: a e) (auto intro!: only_rules assms split: option.split simp: sendMessageOnce_def)

lemma request_recommendation_only: "only (is_request w m) (request_recommendation w m)"
  unfolding request_recommendation_def SendMessage_def
  by (auto intro!: only_rules send_loop_only split: sum.split
      simp: is_request_def startProducer_def only_def [of _ "startProducer w"] ret_def ask_def)

text \<open>The events after the experiment has been created: the workload is saved first, and if that worked, what is
  produced carries the identifier it got.\<close>

definition stored_first :: "world \<Rightarrow> KafkaMsg \<Rightarrow> Workload \<Rightarrow> gotime \<Rightarrow> string \<Rightarrow> event list \<Rightarrow> bool" where
  "stored_first w msg wl t ty es =
     (case es of
        SaveWorkload wl' (Inr i) # rest \<Rightarrow> wl' = wl \<and> list_all (is_request w (request_message msg i t (wl_experiment_name wl) ty)) rest
      | SaveWorkload wl' (Inl err) # rest \<Rightarrow> list_all silent rest
      | _ \<Rightarrow> False)"

lemma store_and_request_sat:
  assumes "\<And>c i. only silent (send_chunk c i)"
  shows "sat (store_and_request w msg wl t ty payload send_chunk) h (\<lambda>r es. stored_first w msg wl t ty es)"
proof -
  have o: "only (is_request w (request_message msg i t (wl_experiment_name wl) ty))
      (case payload of None \<Rightarrow> stop (GoPanic ''interface conversion'')
        | Some ds \<Rightarrow> andthen (chunks_of w ds) (\<lambda>chunks. seq (each chunks (\<lambda>chunk. send_chunk chunk i))
            (request_recommendation w (request_message msg i t (wl_experiment_name wl) ty))))" for i
    by (auto intro!: only_rules request_recommendation_only only_weaken [OF assms silent_request] split: option.split)
  show ?thesis
    unfolding store_and_request_def CreateWorkload_def
    by (cases "w_insert w h")
      (auto simp: sat_andthen sat_ask sat_ret sat_seq [of "emit e" for e] sat_emit stored_first_def
        intro!: sat_mono [OF only_sat [OF o]])
qed

lemma stored_exists:
  assumes "wl_org_id wl = rp_org_id msg" "wl_metrics_upload_at wl = t" "\<And>c i. only silent (send_chunk c i)"
  shows "\<exists>wl'. wl_org_id wl' = rp_org_id msg
    \<and> sat (store_and_request w msg wl t ty payload send_chunk) h (\<lambda>r es. stored_first w msg wl' (wl_metrics_upload_at wl') ty es)"
proof (intro exI conjI)
  show "wl_org_id wl = rp_org_id msg" by (fact assms(1))
  show "sat (store_and_request w msg wl t ty payload send_chunk) h (\<lambda>r es. stored_first w msg wl (wl_metrics_upload_at wl) ty es)"
    unfolding assms(2) by (rule store_and_request_sat) (rule assms(3))
qed

text \<open>What a group of rows does: requests to Kruize only, or those and then, after a reply that accepts the experiment,
  the workload and its requests.\<close>

definition group_order :: "world \<Rightarrow> KafkaMsg \<Rightarrow> string \<Rightarrow> event list \<Rightarrow> bool" where
  "group_order w msg ty es =
     (list_all silent es
      \<or> (\<exists>pre post wl. es = pre @ post \<and> list_all silent pre
           \<and> accepted (last (replies ''POST'' (KruizeUrl (w_cfg w) @ ''/createExperiment'') pre))
           \<and> wl_org_id wl = rp_org_id msg
           \<and> stored_first w msg wl (wl_metrics_upload_at wl) ty post))"

lemma group_order_intro:
  assumes "\<And>h. sat create h (creates w 2 x)" "only silent create"
    and "\<And>x h. \<exists>wl. wl_org_id wl = rp_org_id msg \<and> sat (k x) h (\<lambda>r es. stored_first w msg wl (wl_metrics_upload_at wl) ty es)"
  shows "sat (andthen create (\<lambda>c. case c of Inl err \<Rightarrow> ret () | Inr x \<Rightarrow> k x)) h (\<lambda>r es. group_order w msg ty es)"
  unfolding sat_andthen
proof (rule sat_mono [OF sat_conj [OF assms(1) only_sat [OF assms(2)]]])
  fix r es assume c: "creates w 2 x r es \<and> list_all silent es"
  show "case r of Done a \<Rightarrow> sat (case a of Inl err \<Rightarrow> ret () | Inr x \<Rightarrow> k x) (h @ es) (\<lambda>r' es'. group_order w msg ty (es @ es'))
      | Crashed c \<Rightarrow> group_order w msg ty es | OutOfFuel \<Rightarrow> group_order w msg ty es"
  proof (cases "\<exists>y. r = Done (Inr y)")
    case False
    with c show ?thesis by (auto simp: group_order_def sat_ret split: result.split sum.split)
  next
    case True
    then obtain y where y: "r = Done (Inr y)" by blast
    with c have a: "accepted (last (replies ''POST'' (KruizeUrl (w_cfg w) @ ''/createExperiment'') es))"
      by (simp add: creates_def)
    obtain wl where wl: "wl_org_id wl = rp_org_id msg"
      "sat (k y) (h @ es) (\<lambda>r es. stored_first w msg wl (wl_metrics_upload_at wl) ty es)" using assms(3) by blast
    have "sat (k y) (h @ es) (\<lambda>r' es'. group_order w msg ty (es @ es'))"
      by (rule sat_mono [OF wl(2)]) (use c a wl(1) in \<open>auto simp: group_order_def\<close>)
    with y show ?thesis by simp
  qed
qed

lemma group_order_silent: "list_all silent es \<Longrightarrow> group_order w msg ty es"
  by (simp add: group_order_def)

lemma container_group_order: "sat (process_container_group w g fuel msg i v) h (\<lambda>r es. group_order w msg ''container'' es)"
  unfolding process_container_group_def Let_def
  by (auto simp: sat_stop sat_ret group_order_silent split: outcome.split list.split option.split
      intro!: group_order_intro [OF Create_kruize_experiments_creates create_silent(1)] stored_exists chunk_silent)

lemma namespace_group_order: "sat (process_namespace_group w g fuel msg i v) h (\<lambda>r es. group_order w msg ''namespace'' es)"
  unfolding process_namespace_group_def Let_def
  by (auto simp: sat_stop sat_ret group_order_silent split: outcome.split list.split
      intro!: group_order_intro [OF CreateNamespaceExperiment_creates create_silent(2)] stored_exists chunk_silent)

text \<open>C13: The requests of a group of container rows come after the experiment and the workload.\<close>

theorem process_container_group_order:
  "case process_container_group w g fuel msg i v h of (r, es) \<Rightarrow> group_order w msg ''container'' es"
  using container_group_order [of w g fuel msg i v h] by (simp add: sat_def)

text \<open>The requests of a group of namespace rows come after the experiment and the workload.\<close>

theorem process_namespace_group_order:
  "case process_namespace_group w g fuel msg i v h of (r, es) \<Rightarrow> group_order w msg ''namespace'' es"
  using namespace_group_order [of w g fuel msg i v h] by (simp add: sat_def)

section \<open>Accounts, clusters and workloads\<close>

text \<open>\<open>saves msg s es s'\<close>: in the state \<open>s\<close> of the loop over the files the events \<open>es\<close> create only what is not there yet,
  each row under the row it belongs to, and leave the state \<open>s'\<close>.\<close>

definition plain :: "event \<Rightarrow> bool" where
  "plain e = (case e of SaveAccount _ _ \<Rightarrow> False | SaveCluster _ _ \<Rightarrow> False | SaveWorkload _ _ \<Rightarrow> False | CommitMessage _ \<Rightarrow> False
     | _ \<Rightarrow> True)"

definition account_id :: "string + (nat \<times> bool) \<Rightarrow> nat option" where
  "account_id reply = (case reply of Inl err \<Rightarrow> None | Inr (i, created) \<Rightarrow> Some i)"

definition row_id :: "string + nat \<Rightarrow> nat option" where
  "row_id reply = (case reply of Inl err \<Rightarrow> None | Inr i \<Rightarrow> Some i)"

inductive saves :: "KafkaMsg \<Rightarrow> report_state \<Rightarrow> event list \<Rightarrow> report_state \<Rightarrow> bool" for msg where
  Nothing: "saves msg s [] s"
| Account: "saves msg \<lparr>st_account = account_id reply, st_cluster = None\<rparr> es s' \<Longrightarrow>
    ac_org_id r = rp_org_id msg \<Longrightarrow> ac_account r = rp_account msg \<Longrightarrow>
    saves msg \<lparr>st_account = None, st_cluster = None\<rparr> (SaveAccount r reply # es) s'"
| Cluster: "saves msg \<lparr>st_account = Some i, st_cluster = row_id reply\<rparr> es s' \<Longrightarrow>
    cl_tenant_id c = i \<Longrightarrow> cl_source_id c = rp_source_id msg \<Longrightarrow> cl_uuid c = rp_cluster_uuid msg \<Longrightarrow>
    saves msg \<lparr>st_account = Some i, st_cluster = None\<rparr> (SaveCluster c reply # es) s'"
| Workload: "saves msg s es s' \<Longrightarrow> st_cluster s = Some (wl_cluster_id wl) \<Longrightarrow> wl_org_id wl = rp_org_id msg \<Longrightarrow>
    saves msg s (SaveWorkload wl reply # es) s'"
| Plain: "saves msg s es s' \<Longrightarrow> plain e \<Longrightarrow> saves msg s (e # es) s'"

inductive_cases saves_account: "saves msg s (SaveAccount r reply # es) s'"
inductive_cases saves_cluster: "saves msg s (SaveCluster c reply # es) s'"

lemma saves_append: "saves msg s es s' \<Longrightarrow> saves msg s' es' s'' \<Longrightarrow> saves msg s (es @ es') s''"
  by (induction rule: saves.induct) (auto intro: saves.intros)

text \<open>What a group of rows may do with the cluster \<open>i\<close>.\<close>

definition belongs :: "KafkaMsg \<Rightarrow> nat \<Rightarrow> event \<Rightarrow> bool" where
  "belongs msg i e = (plain e \<or> (case e of SaveWorkload wl _ \<Rightarrow> wl_cluster_id wl = i \<and> wl_org_id wl = rp_org_id msg | _ \<Rightarrow> False))"

lemma saves_belongs: "list_all (belongs msg i) es \<Longrightarrow> st_cluster s = Some i \<Longrightarrow> saves msg s es s"
  by (induction es) (auto simp: belongs_def intro: saves.intros split: event.splits)

lemma saves_plain: "list_all plain es \<Longrightarrow> saves msg s es s"
  by (induction es) (auto intro: saves.intros)

lemma silent_plain: "silent e \<Longrightarrow> plain e"
  by (cases e) (simp_all add: silent_def plain_def)

lemma request_plain: "is_request w m e \<Longrightarrow> plain e"
  by (cases e) (simp_all add: is_request_def silent_def plain_def)

lemmas plain_belongs = only_weaken [of plain _ "belongs msg i" for msg i]

lemma store_belongs:
  assumes "\<And>c i. only silent (send_chunk c i)" "wl_cluster_id wl = i" "wl_org_id wl = rp_org_id msg"
  shows "only (belongs msg i) (store_and_request w msg wl t ty payload send_chunk)"
proof -
  have q: "only (belongs msg i) (request_recommendation w m)" for m
    by (rule only_weaken [OF request_recommendation_only]) (simp add: belongs_def request_plain)
  have c: "only (belongs msg i) (send_chunk x k)" for x k
    by (rule only_weaken [OF assms(1)]) (simp add: belongs_def silent_plain)
  show ?thesis
    unfolding store_and_request_def CreateWorkload_def
    by (auto intro!: only_rules q c simp: belongs_def plain_def assms(2,3) split: sum.split option.split)
qed

lemma container_group_belongs: "only (belongs msg i) (process_container_group w g fuel msg i v)"
  unfolding process_container_group_def Let_def
  by (auto intro!: only_rules store_belongs chunk_silent only_weaken [OF create_silent(1)] simp: belongs_def silent_plain
      split: outcome.split list.split option.split sum.split)

lemma namespace_group_belongs: "only (belongs msg i) (process_namespace_group w g fuel msg i v)"
  unfolding process_namespace_group_def Let_def
  by (auto intro!: only_rules store_belongs chunk_silent only_weaken [OF create_silent(2)] simp: belongs_def silent_plain
      split: outcome.split list.split option.split sum.split)

lemma fetch_plain [only_rules]: "only plain (ReadCSVFromUrl w url)"
  unfolding ReadCSVFromUrl_def by (auto intro!: only_rules simp: plain_def)

lemma aggregate_plain [only_rules]: "only plain (Aggregate_data g uni ty df)"
  unfolding Aggregate_data_def by (auto intro!: only_rules simp: plain_def Let_def split: option.split prod.split)

text \<open>A program that keeps to \<open>saves\<close> from \<open>s\<close>, ending in the state \<open>f\<close> reads off its result.\<close>

definition keeps :: "KafkaMsg \<Rightarrow> report_state \<Rightarrow> ('a \<Rightarrow> report_state) \<Rightarrow> 'a prog \<Rightarrow> bool" where
  "keeps msg s f p = (\<forall>h. sat p h (\<lambda>r es. case r of Done a \<Rightarrow> saves msg s es (f a) | _ \<Rightarrow> \<exists>s'. saves msg s es s'))"

lemma keepsD: "keeps msg s f p \<Longrightarrow> sat p h (\<lambda>r es. case r of Done a \<Rightarrow> saves msg s es (f a) | _ \<Rightarrow> \<exists>s'. saves msg s es s')"
  by (simp add: keeps_def)

lemma keeps_ret: "f a = s \<Longrightarrow> keeps msg s f (ret a)"
  by (auto simp: keeps_def sat_ret intro: saves.Nothing)

lemma keeps_andthen:
  assumes "keeps msg s f p" "\<And>a es. saves msg s es (f a) \<Longrightarrow> keeps msg (f a) f' (k a)"
  shows "keeps msg s f' (andthen p k)"
  unfolding keeps_def sat_andthen
proof (rule allI, rule sat_mono [OF keepsD [OF assms(1)]])
  fix h r es
  assume r: "case r of Done a \<Rightarrow> saves msg s es (f a) | _ \<Rightarrow> \<exists>s'. saves msg s es s'"
  show "case r of
      Done a \<Rightarrow> sat (k a) (h @ es) (\<lambda>r' es'. case r' of Done b \<Rightarrow> saves msg s (es @ es') (f' b) | _ \<Rightarrow> \<exists>s'. saves msg s (es @ es') s')
    | Crashed c \<Rightarrow> (case Crashed c of Done b \<Rightarrow> saves msg s es (f' b) | _ \<Rightarrow> \<exists>s'. saves msg s es s')
    | OutOfFuel \<Rightarrow> (case OutOfFuel of Done b \<Rightarrow> saves msg s es (f' b) | _ \<Rightarrow> \<exists>s'. saves msg s es s')"
    using r by (auto split: result.splits intro!: sat_mono [OF keepsD [OF assms(2)]]) (blast intro: saves_append)+
qed

lemma keeps_plain: "only plain p \<Longrightarrow> (\<And>a. f a = s) \<Longrightarrow> keeps msg s f p"
  by (auto simp: keeps_def split: result.split intro!: sat_mono [OF only_sat] saves_plain dest: saves_plain [of _ msg s])

lemma keeps_belongs: "only (belongs msg i) p \<Longrightarrow> st_cluster s = Some i \<Longrightarrow> (\<And>a. f a = s) \<Longrightarrow> keeps msg s f p"
  by (auto simp: keeps_def split: result.split intro!: sat_mono [OF only_sat] saves_belongs dest: saves_belongs [of msg i _ s])

lemma ensure_account_keeps:
  assumes "st_account s = None \<Longrightarrow> st_cluster s = None"
  shows "keeps msg s (\<lambda>a. s\<lparr>st_account := a\<rparr>) (ensure_account w msg (st_account s))"
proof (cases "st_account s")
  case None
  with assms have s: "s = \<lparr>st_account = None, st_cluster = None\<rparr>" by (cases s) simp
  have "saves msg s (SaveAccount \<lparr>ac_account = rp_account msg, ac_org_id = rp_org_id msg\<rparr> reply # es) (s\<lparr>st_account := a\<rparr>)"
    if "list_all plain es" "account_id reply = a" for reply es a
    using saves_plain [OF that(1), of msg "\<lparr>st_account = account_id reply, st_cluster = None\<rparr>"]
    unfolding s by (auto intro!: saves.Account simp: that(2))
  then show ?thesis
    by (auto simp: None keeps_def ensure_account_def CreateRHAccount_def sat_rules account_id_def plain_def split: sum.split prod.split)
qed (simp add: ensure_account_def keeps_ret)

lemma ensure_cluster_keeps:
  assumes "st_account s = Some i"
  shows "keeps msg s (\<lambda>c. s\<lparr>st_cluster := c\<rparr>) (ensure_cluster w msg i (st_cluster s))"
proof (cases "st_cluster s")
  case None
  with assms have s: "s = \<lparr>st_account = Some i, st_cluster = None\<rparr>" by (cases s) simp
  have "saves msg s (Clock t # SaveCluster \<lparr>cl_tenant_id = i, cl_source_id = rp_source_id msg, cl_uuid = rp_cluster_uuid msg,
        cl_alias = rp_cluster_alias msg, cl_last_reported = t\<rparr> reply # es) (s\<lparr>st_cluster := c\<rparr>)"
    if "list_all plain es" "row_id reply = c" for t reply es c
    using saves_plain [OF that(1), of msg "\<lparr>st_account = Some i, st_cluster = row_id reply\<rparr>"]
    unfolding s by (intro saves.Plain [OF saves.Cluster]) (simp_all add: plain_def that(2))
  then show ?thesis
    by (auto simp: None keeps_def ensure_cluster_def CreateCluster_def sat_rules row_id_def plain_def split: sum.split)
qed (simp add: ensure_cluster_def keeps_ret)

text \<open>A cluster is there only with its account.\<close>

definition grounded :: "report_state \<Rightarrow> bool" where
  "grounded s = (st_account s = None \<longrightarrow> st_cluster s = None)"

lemma keeps_after_plain: "only plain p \<Longrightarrow> (\<And>a. keeps msg s f (k a)) \<Longrightarrow> keeps msg s f (andthen p k)"
  by (rule keeps_andthen [OF keeps_plain [where f = "\<lambda>_. s"]]) simp_all

lemma groups_keep:
  assumes "st_cluster s = Some i"
  shows "keeps msg s (\<lambda>s'. s') (andthen (if b then each gs (process_container_group w g fuel msg i)
    else each gs' (process_namespace_group w g fuel msg i)) (\<lambda>_. ret s))"
proof (rule keeps_andthen)
  show "keeps msg s (\<lambda>_. s) (if b then each gs (process_container_group w g fuel msg i)
      else each gs' (process_namespace_group w g fuel msg i))"
    by (rule keeps_belongs [where i = i])
      (use assms in \<open>simp_all add: only_if only_each container_group_belongs namespace_group_belongs\<close>)
qed (simp add: keeps_ret)

lemma process_file_keeps:
  assumes "grounded s"
  shows "keeps msg s (\<lambda>s'. s') (process_file w g uni fuel msg s file)"
proof -
  let ?cluster = "\<lambda>df acc tenant_id. andthen (ensure_cluster w msg tenant_id (st_cluster s)) (\<lambda>cl. case cl of
      None \<Rightarrow> ret (s\<lparr>st_account := acc\<rparr>)
    | Some cluster_id \<Rightarrow>
        andthen (if DetermineCSVType file = ''container''
            then each (g_group g [''namespace'', ''k8s_object_type'', ''k8s_object_name''] df) (process_container_group w g fuel msg cluster_id)
            else each (g_group g [''namespace''] df) (process_namespace_group w g fuel msg cluster_id))
          (\<lambda>_. ret \<lparr>st_account = acc, st_cluster = cl\<rparr>))"
  have groups: "keeps msg \<lparr>st_account = a, st_cluster = Some c\<rparr> (\<lambda>s'. s')
      (andthen (if b then each gs (process_container_group w g fuel msg c) else each gs' (process_namespace_group w g fuel msg c))
        (\<lambda>_. ret \<lparr>st_account = a, st_cluster = Some c\<rparr>))" for a c b gs gs'
    by (rule groups_keep) simp
  have cluster: "keeps msg (s\<lparr>st_account := Some i\<rparr>) (\<lambda>s'. s') (?cluster df (Some i) i)" for df i
  proof (cases "st_cluster s")
    case None
    then have s: "s\<lparr>st_account := Some i\<rparr> = \<lparr>st_account = Some i, st_cluster = None\<rparr>" by (cases s) simp
    show ?thesis
    proof (rule keeps_andthen)
      show "keeps msg (s\<lparr>st_account := Some i\<rparr>) (\<lambda>c. \<lparr>st_account = Some i, st_cluster = c\<rparr>) (ensure_cluster w msg i (st_cluster s))"
        using ensure_cluster_keeps [of "s\<lparr>st_account := Some i\<rparr>" i msg w] by (simp add: None s)
      show "keeps msg \<lparr>st_account = Some i, st_cluster = c\<rparr> (\<lambda>s'. s') (case c of
            None \<Rightarrow> ret (s\<lparr>st_account := Some i\<rparr>)
          | Some cluster_id \<Rightarrow>
              andthen (if DetermineCSVType file = ''container''
                  then each (g_group g [''namespace'', ''k8s_object_type'', ''k8s_object_name''] df) (process_container_group w g fuel msg cluster_id)
                  else each (g_group g [''namespace''] df) (process_namespace_group w g fuel msg cluster_id))
                (\<lambda>_. ret \<lparr>st_account = Some i, st_cluster = c\<rparr>))" for c
        using groups by (cases c) (simp_all only: option.case s, simp add: keeps_ret)
    qed
  next
    case (Some c)
    then have s: "s\<lparr>st_account := Some i\<rparr> = \<lparr>st_account = Some i, st_cluster = Some c\<rparr>" by (cases s) simp
    show ?thesis
      using groups by (simp only: Some s ensure_cluster_def option.case andthen_ret_left)
  qed
  have account: "keeps msg s (\<lambda>s'. s') (andthen (ensure_account w msg (st_account s)) (\<lambda>acc. case acc of
      None \<Rightarrow> ret s | Some tenant_id \<Rightarrow> ?cluster df acc tenant_id))" for df
  proof (cases "st_account s")
    case None
    then have s: "s\<lparr>st_account := None\<rparr> = s" by (cases s) simp
    show ?thesis
    proof (rule keeps_andthen)
      show "keeps msg s (\<lambda>a. s\<lparr>st_account := a\<rparr>) (ensure_account w msg (st_account s))"
        by (rule ensure_account_keeps) (use assms in \<open>simp add: grounded_def\<close>)
      show "keeps msg (s\<lparr>st_account := a\<rparr>) (\<lambda>s'. s') (case a of None \<Rightarrow> ret s | Some tenant_id \<Rightarrow> ?cluster df a tenant_id)" for a
        using cluster by (cases a) (simp_all only: option.case s, simp add: keeps_ret)
    qed
  next
    case (Some i)
    then have s: "s\<lparr>st_account := Some i\<rparr> = s" by (cases s) simp
    show ?thesis
      using cluster [of i df] by (simp only: Some s ensure_account_def option.case andthen_ret_left)
  qed
  show ?thesis
    unfolding process_file_def Let_def seq_def
    by (auto intro!: keeps_after_plain account keeps_ret fetch_plain aggregate_plain simp: only_emit plain_def split: sum.split)
qed

lemma saves_grounded: "saves msg s es s' \<Longrightarrow> grounded s \<Longrightarrow> grounded s'"
  by (induction rule: saves.induct) (simp_all add: grounded_def)

lemma process_files_saves:
  "grounded s \<Longrightarrow> sat (process_files w g uni fuel msg s files) h (\<lambda>r es. \<exists>s'. saves msg s es s')"
proof (induction files arbitrary: s h)
  case Nil
  then show ?case by (auto simp: sat_ret intro: saves.Nothing)
next
  case (Cons f fs)
  show ?case
    unfolding process_files.simps sat_andthen
  proof (rule sat_mono [OF keepsD [OF process_file_keeps [OF Cons.prems]]])
    fix r es
    assume r: "case r of Done a \<Rightarrow> saves msg s es a | _ \<Rightarrow> \<exists>s'. saves msg s es s'"
    show "case r of
        Done a \<Rightarrow> sat (process_files w g uni fuel msg a fs) (h @ es) (\<lambda>r' es'. \<exists>s'. saves msg s (es @ es') s')
      | Crashed c \<Rightarrow> \<exists>s'. saves msg s es s'
      | OutOfFuel \<Rightarrow> \<exists>s'. saves msg s es s'"
    proof (cases r)
      case (Done a)
      with r have a: "saves msg s es a" by simp
      have "sat (process_files w g uni fuel msg a fs) (h @ es) (\<lambda>r' es'. \<exists>s'. saves msg s (es @ es') s')"
        by (rule sat_mono [OF Cons.IH [OF saves_grounded [OF a Cons.prems]]]) (blast intro: saves_append [OF a])
      with Done show ?thesis by simp
    qed (use r in simp_all)
  qed
qed

text \<open>The report of a message: \<open>None\<close> for one that can never be processed.\<close>

definition report_of :: "world \<Rightarrow> json option \<Rightarrow> KafkaMsg option" where
  "report_of w j =
     (case j of
        None \<Rightarrow> None
      | Some v \<Rightarrow>
          (case w_decode_report w v of
             Inl err \<Rightarrow> None
           | Inr kafkaMsg \<Rightarrow> (case w_valid_report w kafkaMsg of Some err \<Rightarrow> None | None \<Rightarrow> Some kafkaMsg)))"

abbreviation nothing_saved :: report_state where
  "nothing_saved \<equiv> \<lparr>st_account = None, st_cluster = None\<rparr>"

lemma report_outcome:
  "sat (ProcessReport w g uni fuel j has_consumer) h (\<lambda>r es.
     case report_of w j of
       None \<Rightarrow> r = Done () \<and> es = (if has_consumer then [CommitMessage (w_exec w h)] else [])
     | Some msg \<Rightarrow> \<exists>s'. saves msg nothing_saved es s')"
  unfolding ProcessReport_def report_of_def commitOnPermanentFailure_def
  by (auto simp: sat_rules grounded_def split: option.split sum.split intro!: process_files_saves)

text \<open>C8: A report that can never be processed is committed and does nothing else; a report that can be is never committed
  by the processor, and creates its account, its cluster and its workloads each under the one before.\<close>

theorem ProcessReport_outcome:
  "case ProcessReport w g uni fuel j has_consumer h of (r, es) \<Rightarrow>
     (case report_of w j of
        None \<Rightarrow> r = Done () \<and> es = (if has_consumer then [CommitMessage (w_exec w h)] else [])
      | Some msg \<Rightarrow> \<exists>s'. saves msg nothing_saved es s')"
  using report_outcome [of w g uni fuel j has_consumer h] by (simp add: sat_def)

definition account_made :: "event \<Rightarrow> bool" where
  "account_made e = (case e of SaveAccount r reply \<Rightarrow> account_id reply \<noteq> None | _ \<Rightarrow> False)"

definition cluster_made :: "event \<Rightarrow> bool" where
  "cluster_made e = (case e of SaveCluster c reply \<Rightarrow> row_id reply \<noteq> None | _ \<Rightarrow> False)"

lemma plain_makes_nothing: "plain e \<Longrightarrow> \<not> account_made e \<and> \<not> cluster_made e \<and> \<not> is_commit e"
  by (cases e) (simp_all add: plain_def account_made_def cluster_made_def is_commit_def)

lemma made_kinds [simp]:
  "account_made (SaveAccount r q) = (account_id q \<noteq> None)" "cluster_made (SaveCluster c k) = (row_id k \<noteq> None)"
  "\<not> cluster_made (SaveAccount r q)" "\<not> account_made (SaveCluster c k)" "\<not> account_made (SaveWorkload wl k)"
  "\<not> cluster_made (SaveWorkload wl k)" "\<not> account_made (CommitMessage x)" "\<not> cluster_made (CommitMessage x)"
  "\<not> is_commit (SaveAccount r q)" "\<not> is_commit (SaveCluster c k)" "\<not> is_commit (SaveWorkload wl k)"
  by (simp_all add: account_made_def cluster_made_def is_commit_def)

lemma saves_one_account: "saves msg s es s' \<Longrightarrow> length (filter account_made es) + (if st_account s = None then 0 else 1) \<le> 1"
  by (induction rule: saves.induct) (simp_all add: plain_makes_nothing split: if_splits)

lemma saves_one_cluster: "saves msg s es s' \<Longrightarrow> length (filter cluster_made es) + (if st_cluster s = None then 0 else 1) \<le> 1"
  by (induction rule: saves.induct) (simp_all add: plain_makes_nothing split: if_splits)

lemma saves_no_commit: "saves msg s es s' \<Longrightarrow> \<not> list_ex is_commit es"
  by (induction rule: saves.induct) (simp_all add: plain_makes_nothing)

text \<open>Over all the files of a report at most one account and at most one cluster are created, and a commit happens
  only for a report that can never be processed.\<close>

theorem ProcessReport_creates_once:
  "case ProcessReport w g uni fuel j has_consumer h of (r, es) \<Rightarrow>
     length (filter account_made es) \<le> 1 \<and> length (filter cluster_made es) \<le> 1
     \<and> list_ex is_commit es = (has_consumer \<and> report_of w j = None)"
proof -
  have "length (filter account_made es) \<le> 1 \<and> length (filter cluster_made es) \<le> 1
      \<and> list_ex is_commit es = (has_consumer \<and> report_of w j = None)"
    if "ProcessReport w g uni fuel j has_consumer h = (r, es)" for r es
    using satD [OF report_outcome that] saves_one_account [of _ nothing_saved es] saves_one_cluster [of _ nothing_saved es]
      saves_no_commit [of _ nothing_saved es]
    by (fastforce split: option.splits if_splits)
  then show ?thesis by (simp split: prod.split)
qed

end
