(* ===== verification/CsvExport.thy ===== *)
theory CsvExport
  imports FormatFloat GoTimeText KruizeTypes ColumnValues
begin

text \<open>
  The CSV export of the container list (\<open>internal/api/utils.go\<close>: \<open>GenerateCSVRows\<close> and
  \<open>GenerateAndStreamCSV\<close>) with \<open>encoding/csv\<close>'s writer, and a reader of such files to state what the
  export promises.  \<open>decode\<close> is the JSON round trip into \<open>RecommendationData\<close>; the pipe that is written
  to is a \<open>sink\<close>: the error, if any, that has surfaced once a text has been written or flushed.
\<close>

section \<open>Writing records (\<open>encoding/csv\<close>)\<close>

text \<open>The UTF-8 encodings of the white space that \<open>unicode.IsSpace\<close> knows outside ASCII.\<close>

definition wide_spaces :: "nat list list" where
  "wide_spaces = [[194, 133], [194, 160], [225, 154, 128]] @ map (\<lambda>k. [226, 128, k]) ([128..<139] @ [168, 169, 175])
     @ [[226, 129, 159], [227, 128, 128]]"

definition starts_with_space :: "string \<Rightarrow> bool" where
  "starts_with_space field =
     (case field of
        [] \<Rightarrow> False
      | c # r \<Rightarrow>
          (let n = (of_char c :: nat) in
           n = 32 \<or> 9 \<le> n \<and> n \<le> 13 \<or> list_ex (\<lambda>u. take (length u) (map of_char field) = u) wide_spaces))"

definition special :: "char \<Rightarrow> bool" where
  "special c = (c = CHR 0x0A \<or> c = CHR 0x0D \<or> c = CHR 0x22 \<or> c = CHR '','')"

definition fieldNeedsQuotes :: "string \<Rightarrow> bool" where
  "fieldNeedsQuotes field =
     (field \<noteq> [] \<and> (field = [CHR 0x5C, CHR ''.''] \<or> list_ex special field \<or> starts_with_space field))"

definition quote_char :: "char \<Rightarrow> string" where
  "quote_char c = (if c = CHR 0x22 then [CHR 0x22, CHR 0x22] else [c])"

definition csv_field :: "string \<Rightarrow> string" where
  "csv_field field =
     (if \<not> fieldNeedsQuotes field then field else [CHR 0x22] @ concat (map quote_char field) @ [CHR 0x22])"

definition csv_record :: "string list \<Rightarrow> string" where
  "csv_record record = join '','' (map csv_field record) @ [CHR 0x0A]"

section \<open>Rows\<close>

definition FlattenedCSVHeader :: "string list" where
  "FlattenedCSVHeader =
     [''id'', ''cluster_uuid'', ''cluster_alias'', ''container'', ''project'', ''workload'', ''workload_type'',
      ''last_reported'', ''source_id'',
      ''current_cpu_limit_amount'', ''current_cpu_limit_format'', ''current_memory_limit_amount'', ''current_memory_limit_format'',
      ''current_cpu_request_amount'', ''current_cpu_request_format'', ''current_memory_request_amount'',
      ''current_memory_request_format'',
      ''monitoring_end_time'', ''recommendation_term'', ''duration_in_hours'', ''monitoring_start_time'', ''recommendation_type'',
      ''config_cpu_limit_amount'', ''config_cpu_limit_format'', ''config_memory_limit_amount'', ''config_memory_limit_format'',
      ''config_cpu_request_amount'', ''config_cpu_request_format'', ''config_memory_request_amount'', ''config_memory_request_format'',
      ''variation_cpu_limit_amount'', ''variation_cpu_limit_format'', ''variation_memory_limit_amount'', ''variation_memory_limit_format'',
      ''variation_cpu_request_amount'', ''variation_cpu_request_format'', ''variation_memory_request_amount'',
      ''variation_memory_request_format'']"

text \<open>\<open>RecommendationsJSON\<close> is \<open>None\<close> for the nil map.\<close>

record RecommendationSetResult =
  rr_cluster_alias :: string
  rr_cluster_uuid :: string
  rr_container :: string
  rr_id :: string
  rr_last_reported :: string
  rr_project :: string
  rr_recommendations :: string
  rr_json :: "obj option"
  rr_source_id :: string
  rr_workload :: string
  rr_workload_type :: string
  rr_pcts :: StoredVariationPcts

definition amount_text :: "recommendedValues \<Rightarrow> string" where
  "amount_text v = format_float (rv_amount v)"

text \<open>The four amounts of a section with their formats, limits before requests and cpu before memory.\<close>

definition section_cells :: "(recommendedValues \<Rightarrow> string) \<Rightarrow> ConfigObject \<Rightarrow> string list" where
  "section_cells fmt c =
     concat (map (\<lambda>v. [amount_text v, fmt v])
       [rc_cpu (co_limits c), rc_memory (co_limits c), rc_cpu (co_requests c), rc_memory (co_requests c)])"

definition csv_row :: "RecommendationSetResult \<Rightarrow> RecommendationData \<Rightarrow> string \<Rightarrow> RecommendationTerm \<Rightarrow> string
    \<Rightarrow> RecommendationEngineObject \<Rightarrow> string list" where
  "csv_row s d termName tm recommendationType e =
     [rr_id s, rr_cluster_uuid s, rr_cluster_alias s, rr_container s, rr_project s, rr_workload s, rr_workload_type s,
      rr_last_reported s, rr_source_id s]
     @ section_cells rv_format (rd_current d)
     @ [fmt_string (rd_monitoring_end_time d), termName, format_float (rt_duration_in_hours tm),
        fmt_string (rt_monitoring_start_time tm), recommendationType]
     @ section_cells rv_format (eo_config e)
     @ section_cells (\<lambda>_. ''percent'') (eo_variation e)"

definition term_rows :: "RecommendationSetResult \<Rightarrow> RecommendationData \<Rightarrow> string \<times> RecommendationTerm \<Rightarrow> string list list" where
  "term_rows s d = (\<lambda>(termName, tm).
     case rt_engines tm of
       None \<Rightarrow> []
     | Some es \<Rightarrow> map (\<lambda>(n, e). csv_row s d termName tm n e) [(''cost'', re_cost es), (''performance'', re_performance es)])"

definition GenerateCSVRows :: "(obj \<Rightarrow> string + RecommendationData) \<Rightarrow> RecommendationSetResult \<Rightarrow> string + string list list" where
  "GenerateCSVRows decode s =
     (case rr_json s of
        None \<Rightarrow> Inl (''RecommendationsJSON not set for '' @ rr_id s @ '': call UpdateRecommendationJSON first'')
      | Some j \<Rightarrow>
          (case decode j of
             Inl err \<Rightarrow> Inl err
           | Inr d \<Rightarrow>
               Inr (concat (map (term_rows s d)
                 [(''short_term'', tm_short (rd_terms d)), (''medium_term'', tm_medium (rd_terms d)),
                  (''long_term'', tm_long (rd_terms d))]))))"

section \<open>Streaming\<close>

record sink =
  on_write :: "string \<Rightarrow> string option"
  on_flush :: "string \<Rightarrow> string option"

datatype stream_end = Streamed | StreamFailed string | StreamPanicked string

text \<open>Writing the records \<open>rows\<close> after the text \<open>t\<close>.\<close>

fun write_rows :: "sink \<Rightarrow> string list list \<Rightarrow> string \<Rightarrow> string option \<times> string" where
  "write_rows w [] t = (None, t)"
| "write_rows w (row # rows) t =
     (let t' = t @ csv_record row in
      case on_write w t' of
        Some err \<Rightarrow> (Some (''unable to write row: '' @ err), t')
      | None \<Rightarrow> write_rows w rows t')"

text \<open>The loop over the sets from number \<open>i\<close>, and the last flush.\<close>

fun stream_sets :: "(obj \<Rightarrow> string + RecommendationData) \<Rightarrow> sink \<Rightarrow> int \<Rightarrow> nat \<Rightarrow> RecommendationSetResult list \<Rightarrow> string
    \<Rightarrow> stream_end \<times> string" where
  "stream_sets decode w interval i [] t =
     (case on_flush w t of Some err \<Rightarrow> (StreamFailed (''flush error: '' @ err), t) | None \<Rightarrow> (Streamed, t))"
| "stream_sets decode w interval i (s # ss) t =
     (case GenerateCSVRows decode s of
        Inl err \<Rightarrow> (StreamFailed (''unable to generate rows: '' @ err), t)
      | Inr rows \<Rightarrow>
          (case write_rows w rows t of
             (Some err, t') \<Rightarrow> (StreamFailed err, t')
           | (None, t') \<Rightarrow>
               if interval = 0 then (StreamPanicked ''integer divide by zero'', t')
               else if (int i + 1) mod interval = 0 then
                 (case on_flush w t' of
                    Some err \<Rightarrow> (StreamFailed (''periodic flush error at row '' @ itoa (int i + 1) @ '': '' @ err), t')
                  | None \<Rightarrow> stream_sets decode w interval (Suc i) ss t')
               else stream_sets decode w interval (Suc i) ss t'))"

definition GenerateAndStreamCSV :: "(obj \<Rightarrow> string + RecommendationData) \<Rightarrow> sink \<Rightarrow> int \<Rightarrow> RecommendationSetResult list
    \<Rightarrow> stream_end \<times> string" where
  "GenerateAndStreamCSV decode w interval recommendationSets =
     (let t = csv_record FlattenedCSVHeader in
      case on_write w t of
        Some err \<Rightarrow> (StreamFailed (''unable to write header: '' @ err), t)
      | None \<Rightarrow> stream_sets decode w interval 0 recommendationSets t)"

section \<open>Reading\<close>

text \<open>The records of a CSV text (RFC 4180): inside quotes or not, the field and the record so far.\<close>

fun csv_read :: "bool \<Rightarrow> string \<Rightarrow> string list \<Rightarrow> string \<Rightarrow> string list list" where
  "csv_read q cur rec [] = (if cur = [] \<and> rec = [] then [] else [rec @ [cur]])"
| "csv_read False cur rec (c # r) =
     (if c = CHR '','' then csv_read False [] (rec @ [cur]) r
      else if c = CHR 0x0A then (rec @ [cur]) # csv_read False [] [] r
      else if c = CHR 0x22 \<and> cur = [] then csv_read True [] rec r
      else csv_read False (cur @ [c]) rec r)"
| "csv_read True cur rec (c # r) =
     (if c = CHR 0x22 then
        (case r of
           [] \<Rightarrow> csv_read False cur rec []
         | d # r' \<Rightarrow> if d = CHR 0x22 then csv_read True (cur @ [d]) rec r' else csv_read False cur rec r)
      else csv_read True (cur @ [c]) rec r)"

definition read_csv :: "string \<Rightarrow> string list list" where
  "read_csv t = csv_read False [] [] t"

lemma read_plain: "list_all (\<lambda>c. \<not> special c) f \<Longrightarrow> csv_read False cur rec (f @ r) = csv_read False (cur @ f) rec r"
proof (induction f arbitrary: cur)
  case (Cons c f)
  then have "c \<noteq> CHR '',''" "c \<noteq> CHR 0x0A" "c \<noteq> CHR 0x22" by (auto simp: special_def)
  with Cons show ?case by simp
qed simp

lemma read_quoted:
  assumes "case r of c # r' \<Rightarrow> c \<noteq> CHR 0x22 | [] \<Rightarrow> True"
  shows "csv_read True cur rec (concat (map quote_char f) @ CHR 0x22 # r) = csv_read False (cur @ f) rec r"
proof (induction f arbitrary: cur)
  case Nil
  show ?case using assms by (cases r) auto
next
  case (Cons c f)
  then show ?case by (simp add: quote_char_def)
qed

lemma read_field:
  assumes "c = CHR '','' \<or> c = CHR 0x0A"
  shows "csv_read False [] rec (csv_field f @ c # r) = csv_read False f rec (c # r)"
proof (cases "fieldNeedsQuotes f")
  case True
  have "csv_read False [] rec (csv_field f @ c # r) = csv_read True [] rec (concat (map quote_char f) @ CHR 0x22 # c # r)"
    using True by (simp add: csv_field_def)
  also have "\<dots> = csv_read False f rec (c # r)"
    using assms by (subst read_quoted) auto
  finally show ?thesis .
next
  case False
  then have "list_all (\<lambda>c. \<not> special c) f" by (auto simp: fieldNeedsQuotes_def list_all_iff list_ex_iff)
  from read_plain [OF this, of "[]" rec "c # r"] False show ?thesis by (simp add: csv_field_def)
qed

lemma read_fields:
  "fs \<noteq> [] \<Longrightarrow> csv_read False [] rec (join '','' (map csv_field fs) @ CHR 0x0A # r) = (rec @ fs) # csv_read False [] [] r"
proof (induction fs arbitrary: rec)
  case (Cons f fs)
  show ?case
  proof (cases fs)
    case Nil
    then show ?thesis using read_field [of "CHR 0x0A" rec f r] by simp
  next
    case (Cons g gs)
    then show ?thesis
      using read_field [of "CHR '',''" rec f "join '','' (map csv_field fs) @ CHR 0x0A # r"] Cons.IH [of "rec @ [f]"] by simp
  qed
qed simp

lemma read_csv_record: "fs \<noteq> [] \<Longrightarrow> read_csv (csv_record fs @ t) = fs # read_csv t"
  using read_fields [of fs "[]" t] by (simp add: read_csv_def csv_record_def)

lemma read_csv_records:
  "list_all (\<lambda>fs. fs \<noteq> []) rows \<Longrightarrow> read_csv (concat (map csv_record rows) @ t) = rows @ read_csv t"
  by (induction rows) (simp_all add: read_csv_record)

section \<open>What the export promises\<close>

definition term_list :: "RecommendationData \<Rightarrow> (string \<times> RecommendationTerm) list" where
  "term_list d =
     [(''short_term'', tm_short (rd_terms d)), (''medium_term'', tm_medium (rd_terms d)), (''long_term'', tm_long (rd_terms d))]"

text \<open>The cells that name the recommendation and the row's part of it.\<close>

definition row_key :: "string list \<Rightarrow> string \<times> string \<times> string" where
  "row_key row = (row ! 0, row ! 18, row ! 21)"

lemma csv_row_length: "length (csv_row s d t tm n e) = length FlattenedCSVHeader"
  by (simp add: csv_row_def section_cells_def FlattenedCSVHeader_def)

lemma csv_row_key: "row_key (csv_row s d t tm n e) = (rr_id s, t, n)"
  by (simp add: row_key_def csv_row_def section_cells_def)

lemma term_rows_keys:
  "map row_key (term_rows s d nt) =
     (if rt_engines (snd nt) = None then [] else [(rr_id s, fst nt, ''cost''), (rr_id s, fst nt, ''performance'')])"
  by (simp add: term_rows_def csv_row_key split: prod.split option.split)

lemma term_rows_width: "list_all (\<lambda>row. length row = length FlattenedCSVHeader) (term_rows s d nt)"
  by (simp add: term_rows_def csv_row_length split: prod.split option.split)

lemma concat_width: "list_all (\<lambda>x. list_all P (f x)) xs \<Longrightarrow> list_all P (concat (map f xs))"
  by (induction xs) auto

lemma terms_width: "list_all (\<lambda>row. length row = length FlattenedCSVHeader) (concat (map (term_rows s d) nts))"
  by (rule concat_width) (simp add: term_rows_width list.pred_True cong: list.pred_cong)

lemma GenerateCSVRows_Inr:
  assumes "GenerateCSVRows decode s = Inr rows"
  shows "\<exists>d. Option.bind (rr_json s) (\<lambda>j. case decode j of Inl _ \<Rightarrow> None | Inr d \<Rightarrow> Some d) = Some d
    \<and> rows = concat (map (term_rows s d) (term_list d))"
  using assms by (auto simp: GenerateCSVRows_def term_list_def split: option.splits sum.splits)

lemma rows_keys:
  "map row_key (concat (map (term_rows s d) nts)) =
     concat (map (\<lambda>nt. [(rr_id s, fst nt, ''cost''), (rr_id s, fst nt, ''performance'')]) (filter (\<lambda>nt. rt_engines (snd nt) \<noteq> None) nts))"
  by (induction nts) (simp_all add: term_rows_keys)

text \<open>The rows of a recommendation have the header's width, and are, for each of its terms with engines, short before
  medium before long, the one of the cost engine and the one of the performance engine.\<close>

theorem GenerateCSVRows_rows:
  "case GenerateCSVRows decode s of
     Inr rows \<Rightarrow>
       list_all (\<lambda>row. length row = length FlattenedCSVHeader) rows
       \<and> (case Option.bind (rr_json s) (\<lambda>j. case decode j of Inl _ \<Rightarrow> None | Inr d \<Rightarrow> Some d) of
            Some d \<Rightarrow> map row_key rows =
              concat (map (\<lambda>nt. [(rr_id s, fst nt, ''cost''), (rr_id s, fst nt, ''performance'')])
                (filter (\<lambda>nt. rt_engines (snd nt) \<noteq> None) (term_list d)))
          | None \<Rightarrow> False)
   | Inl _ \<Rightarrow> Option.bind (rr_json s) (\<lambda>j. case decode j of Inl _ \<Rightarrow> None | Inr d \<Rightarrow> Some d) = None"
proof (cases "GenerateCSVRows decode s")
  case (Inl e)
  then show ?thesis by (auto simp: GenerateCSVRows_def split: option.splits sum.splits)
next
  case (Inr rows)
  from GenerateCSVRows_Inr [OF this] obtain d where
    d: "Option.bind (rr_json s) (\<lambda>j. case decode j of Inl _ \<Rightarrow> None | Inr d \<Rightarrow> Some d) = Some d"
      "rows = concat (map (term_rows s d) (term_list d))" by blast
  have "list_all (\<lambda>row. length row = length FlattenedCSVHeader) rows"
    unfolding d(2) by (rule terms_width)
  with Inr d show ?thesis by (simp add: rows_keys)
qed

text \<open>The text written for a list of sets, and how streaming can end.\<close>

fun all_rows :: "(obj \<Rightarrow> string + RecommendationData) \<Rightarrow> RecommendationSetResult list \<Rightarrow> string list list option" where
  "all_rows decode [] = Some []"
| "all_rows decode (s # ss) =
     (case GenerateCSVRows decode s of
        Inl _ \<Rightarrow> None
      | Inr rows \<Rightarrow> map_option (\<lambda>rest. rows @ rest) (all_rows decode ss))"

lemma write_rows_None: "write_rows w rows t = (None, t') \<Longrightarrow> t' = t @ concat (map csv_record rows)"
proof (induction rows arbitrary: t)
  case (Cons row rows)
  from Cons.prems Cons.IH [of "t @ csv_record row"] show ?case by (auto simp: Let_def split: option.splits)
qed simp

lemma write_rows_fine: "(\<And>t. on_write w t = None) \<Longrightarrow> write_rows w rows t = (None, t @ concat (map csv_record rows))"
  by (induction rows arbitrary: t) (simp_all add: Let_def)

lemma stream_sets_Streamed:
  "stream_sets decode w n i ss t = (Streamed, t') \<Longrightarrow>
     \<exists>rows. all_rows decode ss = Some rows \<and> t' = t @ concat (map csv_record rows)"
proof (induction ss arbitrary: i t)
  case Nil
  then show ?case by (simp split: option.splits)
next
  case (Cons s ss)
  obtain rows where r: "GenerateCSVRows decode s = Inr rows" using Cons.prems by (cases "GenerateCSVRows decode s") auto
  obtain e u where w: "write_rows w rows t = (e, u)" by fastforce
  have e: "e = None" and rest: "stream_sets decode w n (Suc i) ss u = (Streamed, t')"
    using Cons.prems by (auto simp: r w split: option.splits if_splits)
  from Cons.IH [OF rest] write_rows_None [OF w [unfolded e]] r show ?case by auto
qed

lemma all_rows_nonempty: "all_rows decode ss = Some rows \<Longrightarrow> list_all (\<lambda>fs. fs \<noteq> []) rows"
proof (induction ss arbitrary: rows)
  case (Cons s ss)
  then obtain rs rest where r: "GenerateCSVRows decode s = Inr rs" "all_rows decode ss = Some rest" "rows = rs @ rest"
    by (auto split: sum.splits)
  have "list_all (\<lambda>row. length row = length FlattenedCSVHeader) rs"
    using GenerateCSVRows_Inr [OF r(1)] by (auto intro!: terms_width)
  then have "list_all (\<lambda>fs. fs \<noteq> []) rs" by (auto simp: list_all_iff FlattenedCSVHeader_def)
  with Cons.IH r show ?case by simp
qed simp

lemma streamed_reads:
  assumes "GenerateAndStreamCSV decode w interval ss = (Streamed, t)"
  shows "\<exists>rows. all_rows decode ss = Some rows \<and> read_csv t = FlattenedCSVHeader # rows"
proof -
  have "stream_sets decode w interval 0 ss (csv_record FlattenedCSVHeader) = (Streamed, t)"
    using assms by (simp add: GenerateAndStreamCSV_def Let_def split: option.splits)
  from stream_sets_Streamed [OF this] obtain rows where
    r: "all_rows decode ss = Some rows" "t = csv_record FlattenedCSVHeader @ concat (map csv_record rows)" by blast
  have "FlattenedCSVHeader \<noteq> []" by (simp add: FlattenedCSVHeader_def)
  then have "read_csv t = FlattenedCSVHeader # read_csv (concat (map csv_record rows) @ [])"
    unfolding r(2) by (simp add: read_csv_record)
  also have "read_csv (concat (map csv_record rows) @ []) = rows"
    unfolding read_csv_records [OF all_rows_nonempty [OF r(1)]] by (simp add: read_csv_def)
  finally show ?thesis using r(1) by simp
qed

text \<open>C16: A file that has been streamed to its end reads back as the header and then the rows of every recommendation
  of the list, in order, whatever commas, quotes, line breaks and blanks their cells hold; so no recommendation is missing.\<close>

theorem GenerateAndStreamCSV_roundtrip:
  "case GenerateAndStreamCSV decode w interval ss of
     (Streamed, t) \<Rightarrow>
       (case all_rows decode ss of Some rows \<Rightarrow> read_csv t = FlattenedCSVHeader # rows | None \<Rightarrow> False)
   | _ \<Rightarrow> True"
  using streamed_reads [of decode w interval ss] by (auto split: prod.split stream_end.split)

lemma stream_sets_fine:
  assumes "\<And>t. on_write w t = None" "\<And>t. on_flush w t = None" "n \<noteq> 0"
  shows "all_rows decode ss = Some rows \<Longrightarrow> stream_sets decode w n i ss t = (Streamed, t @ concat (map csv_record rows))"
proof (induction ss arbitrary: i t rows)
  case (Cons s ss)
  then obtain rs rest where "GenerateCSVRows decode s = Inr rs" "all_rows decode ss = Some rest" "rows = rs @ rest"
    by (auto split: sum.splits)
  with Cons.IH assms show ?case by (simp add: write_rows_fine)
qed (simp add: assms)

definition open_sink :: sink where
  "open_sink = \<lparr>on_write = \<lambda>_. None, on_flush = \<lambda>_. None\<rparr>"

lemma stream_sets_decodes: "fst (stream_sets decode w n i ss t) = Streamed \<Longrightarrow> all_rows decode ss \<noteq> None"
  using stream_sets_Streamed [of decode w n i ss t] by (cases "stream_sets decode w n i ss t") auto

text \<open>With a sink that accepts everything, streaming ends well exactly when every recommendation can be decoded and, unless
  there is none, the flush interval is not 0; an interval of 0 panics after the first recommendation.\<close>

theorem GenerateAndStreamCSV_ends:
  "(fst (GenerateAndStreamCSV decode open_sink interval ss) = Streamed)
     = (all_rows decode ss \<noteq> None \<and> (interval = 0) \<le> (ss = []))"
proof (cases ss)
  case Nil
  then show ?thesis by (simp add: GenerateAndStreamCSV_def open_sink_def Let_def)
next
  case (Cons s ss')
  show ?thesis
  proof (cases "interval = 0")
    case True
    then show ?thesis
      by (auto simp: Cons GenerateAndStreamCSV_def Let_def open_sink_def write_rows_fine split: sum.splits)
  next
    case False
    have "fst (stream_sets decode open_sink interval 0 ss t) = Streamed" if "all_rows decode ss = Some rows" for rows t
      using stream_sets_fine [OF _ _ False that, of open_sink 0 t] by (simp add: open_sink_def)
    with False stream_sets_decodes [of decode open_sink interval 0 ss] show ?thesis
      by (auto simp: GenerateAndStreamCSV_def Let_def open_sink_def)
  qed
qed

end
