(* ===== verification/Handlers.thy ===== *)
theory Handlers
  imports CsvExport Pagination Query RecommendationView Effects
begin

text \<open>
  The endpoints (\<open>internal/api/handlers.go\<close>): a request's parameters, the query, the transformation of its
  rows and the response, composed of the parts of the other theories, behind the RBAC middleware.  What is
  not the program's is in \<open>api_env\<close>: the clock, \<open>uuid.Parse\<close>, JSON, the database and the CSV response's sink.
  The identity header has been decoded; its organisation is part of the request.
\<close>

section \<open>Requests and responses\<close>

record NamespaceRecommendationSetResult =
  nr_cluster_alias :: string
  nr_cluster_uuid :: string
  nr_id :: string
  nr_last_reported :: string
  nr_project :: string
  nr_recommendations :: string
  nr_json :: "obj option"
  nr_source_id :: string
  nr_pcts :: StoredVariationPcts

record api_env =
  a_cfg :: config
  a_clock :: gotime
  a_uni :: "string \<Rightarrow> string"
  a_uuid :: "string \<Rightarrow> string option"
  a_quote :: "string \<Rightarrow> string"
  a_date_error :: string
  a_unmarshal :: "string \<Rightarrow> obj option"
  a_decode :: "obj \<Rightarrow> string + RecommendationData"
  a_sink :: sink
  a_list :: "sql_query \<Rightarrow> sql_query \<Rightarrow> string + RecommendationSetResult list \<times> int"
  a_first :: "sql_query \<Rightarrow> string + RecommendationSetResult"
  a_nslist :: "sql_query \<Rightarrow> sql_query \<Rightarrow> string + NamespaceRecommendationSetResult list \<times> int"
  a_nsfirst :: "sql_query \<Rightarrow> string + NamespaceRecommendationSetResult"

record api_request =
  hq_org :: string
  hq_permissions :: "perms option"
  hq_accept :: string
  hq_path :: string
  hq_query :: query
  hq_id :: string

text \<open>\<open>StatusJson code status message\<close> and the empty object; a stream has started with code 200.\<close>

datatype 'r response =
    StatusJson int string string
  | EmptyJson int
  | ListJson int "'r Collection"
  | RowJson int 'r
  | CsvStream string stream_end string
  | NoResponse
  | HttpError int string
  | HandlerPanic

section \<open>Error texts\<close>

definition EnableUserAPIErr :: bool where "EnableUserAPIErr = False"

definition apiErrResponse :: "int \<Rightarrow> string \<Rightarrow> 'r response" where
  "apiErrResponse status userMsg = (if EnableUserAPIErr then StatusJson status ''error'' userMsg else EmptyJson 200)"

definition list_error_text :: "api_env \<Rightarrow> list_error \<Rightarrow> string" where
  "list_error_text env e =
     (case e of
        LimitTooSmall \<Rightarrow> ''limit cannot be less than -1''
      | InvalidOrderHow s \<Rightarrow> ''invalid order_how value: '' @ s
      | InvalidOrderBy s \<Rightarrow> ''invalid order_by value: '' @ s
      | InvalidFormat s \<Rightarrow> ''invalid value for format: '' @ a_quote env s)"

definition unit_error_text :: "unit_error \<Rightarrow> string" where
  "unit_error_text e =
     (case e of InvalidCpuUnit \<Rightarrow> ''invalid cpu unit'' | InvalidMemoryUnit \<Rightarrow> ''invalid memory unit''
      | InvalidTrueUnits \<Rightarrow> ''invalid value for true-units'')"

text \<open>The text of a date error is \<open>time.Parse\<close>'s for containers.\<close>

definition param_error_text :: "api_env \<Rightarrow> bool \<Rightarrow> param_error \<Rightarrow> string" where
  "param_error_text env is_container e =
     (case e of
        EmptyValue p \<Rightarrow> ''empty value for '' @ p
      | TooLong p n \<Rightarrow> p @ '' exceeds max length '' @ itoa (int n)
      | InvalidCharacter p \<Rightarrow> ''invalid character in '' @ p @ '' value''
      | UnknownClusterMode m \<Rightarrow> ''unknown cluster filter mode: '' @ m
      | UnknownMode m \<Rightarrow> ''unknown filter mode: '' @ m
      | ExcludeExactShared p \<Rightarrow> ''exclude and exact cannot share values for '' @ p
      | ExcludeIncludeShared p \<Rightarrow> ''exclude and include cannot share values for '' @ p
      | TooManyParameters p n \<Rightarrow> ''too many '' @ p @ '' parameters, a maximum of '' @ itoa n @ '' is allowed''
      | InvalidWorkloadType v \<Rightarrow> ''invalid workload_type '' @ a_quote env v
          @ '', must be one of: daemonset, deployment, deploymentconfig, replicaset, replicationcontroller, statefulset''
      | InvalidStartDate \<Rightarrow> if is_container then a_date_error env else ''invalid start_date format, use YYYY-MM-DD''
      | InvalidEndDate \<Rightarrow> if is_container then a_date_error env else ''invalid end_date format, use YYYY-MM-DD'')"

definition param_errors_text :: "api_env \<Rightarrow> bool \<Rightarrow> param_error list \<Rightarrow> string" where
  "param_errors_text env is_container es = join [CHR 0x0A] (map (param_error_text env is_container) es)"

section \<open>Rows\<close>

text \<open>The loop that fills \<open>RecommendationsJSON\<close>; \<open>None\<close> when the transformation of a row panics.\<close>

definition present :: "api_env \<Rightarrow> string \<Rightarrow> units \<Rightarrow> bool \<Rightarrow> RecommendationSetResult \<Rightarrow> RecommendationSetResult option" where
  "present env handlerName u k8s r =
     (case UpdateRecommendationJSON handlerName u k8s (a_unmarshal env (rr_recommendations r)) (Some (rr_pcts r)) of
        NilMap \<Rightarrow> Some (r\<lparr>rr_json := None\<rparr>)
      | ApiPanic \<Rightarrow> None
      | ApiJson d \<Rightarrow> Some (r\<lparr>rr_json := Some d\<rparr>))"

definition ns_present ::
  "api_env \<Rightarrow> string \<Rightarrow> units \<Rightarrow> bool \<Rightarrow> NamespaceRecommendationSetResult \<Rightarrow> NamespaceRecommendationSetResult option" where
  "ns_present env handlerName u k8s r =
     (case UpdateRecommendationJSON handlerName u k8s (a_unmarshal env (nr_recommendations r)) (Some (nr_pcts r)) of
        NilMap \<Rightarrow> Some (r\<lparr>nr_json := None\<rparr>)
      | ApiPanic \<Rightarrow> None
      | ApiJson d \<Rightarrow> Some (r\<lparr>nr_json := Some d\<rparr>))"

fun present_all :: "('r \<Rightarrow> 'r option) \<Rightarrow> 'r list \<Rightarrow> 'r list option" where
  "present_all f [] = Some []"
| "present_all f (r # rs) =
     (case f r of None \<Rightarrow> None | Some r' \<Rightarrow> map_option (\<lambda>rest. r' # rest) (present_all f rs))"

text \<open>\<open>time.Now().Format("20060102")\<close>\<close>

definition csv_filename :: "gotime \<Rightarrow> string" where
  "csv_filename now =
     (case t_date now of (y, m, d) \<Rightarrow> ''recommendations-'' @ fmt_year y @ pad2 (nat m) @ pad2 (nat d) @ ''.csv'')"

section \<open>The endpoints\<close>

definition GetRecommendationSetList :: "api_env \<Rightarrow> api_request \<Rightarrow> RecommendationSetResult response" where
  "GetRecommendationSetList env req =
     (case ListAPIOptions (a_uni env) (hq_accept req) (hq_query req) DefaultContainerRecsDBColumn ContainerAllowedOrderBy of
        Inl e \<Rightarrow> StatusJson 400 ''error'' (list_error_text env e)
      | Inr apiListOptions \<Rightarrow>
     (case MapQueryParameters (\<lambda>s. a_uuid env s \<noteq> None) (MaxCountPerQueryParam (a_cfg env)) (a_clock env) (hq_query req) of
        Inl es \<Rightarrow> apiErrResponse 400 (param_errors_text env True es)
      | Inr queryParams \<Rightarrow>
     (case ParseUnitParams (hq_query req) ''cores'' ''bytes'' of
        Inl e \<Rightarrow> StatusJson 400 ''error'' (unit_error_text e)
      | Inr (unitChoices, setk8sUnits) \<Rightarrow>
     (case (case GetRecommendationSets (RBACEnabled (a_cfg env)) (RecordLimitCSV (a_cfg env)) (hq_org req) apiListOptions
                   queryParams (get_user_permissions (hq_permissions req)) of
              Inl e \<Rightarrow> Inl e | Inr (countQuery, query) \<Rightarrow> a_list env countQuery query) of
        Inl e \<Rightarrow> StatusJson 503 ''error'' ''unable to fetch records from database''
      | Inr (recommendationSets, count) \<Rightarrow>
     (case present_all (present env ''recommendationset-list'' unitChoices setk8sUnits) recommendationSets of
        None \<Rightarrow> HandlerPanic
      | Some sets \<Rightarrow>
          if Format apiListOptions = ''json'' then
            ListJson 200 (CollectionResponse sets (hq_path req) (hq_query req) count (Limit apiListOptions) (Offset apiListOptions))
          else if Format apiListOptions = ''csv'' then
            (case GenerateAndStreamCSV (a_decode env) (a_sink env) (CSVStreamInterval (a_cfg env)) sets of
               (outcome, text) \<Rightarrow> CsvStream (csv_filename (a_clock env)) outcome text)
          else NoResponse)))))"

definition GetRecommendationSet :: "api_env \<Rightarrow> api_request \<Rightarrow> RecommendationSetResult response" where
  "GetRecommendationSet env req =
     (case a_uuid env (hq_id req) of
        None \<Rightarrow> StatusJson 400 ''error'' ''bad recommendation_id''
      | Some recommendationUUID \<Rightarrow>
     (case ParseUnitParams (hq_query req) ''cores'' ''MiB'' of
        Inl e \<Rightarrow> StatusJson 400 ''error'' (unit_error_text e)
      | Inr (unitChoices, setk8sUnits) \<Rightarrow>
     (case (case GetRecommendationSetByID (RBACEnabled (a_cfg env)) (hq_org req) recommendationUUID
                   (get_user_permissions (hq_permissions req)) of
              Inl e \<Rightarrow> Inl e | Inr query \<Rightarrow> a_first env query) of
        Inl e \<Rightarrow> StatusJson 404 ''error'' ''unable to fetch recommendation''
      | Inr recommendationSet \<Rightarrow>
          if rr_recommendations recommendationSet \<noteq> [] then
            (case present env ''recommendationset'' unitChoices setk8sUnits recommendationSet of
               None \<Rightarrow> HandlerPanic
             | Some r \<Rightarrow> RowJson 200 r)
          else StatusJson 404 ''not_found'' ''recommendation not found'')))"

definition GetNamespaceRecommendationSetList :: "api_env \<Rightarrow> api_request \<Rightarrow> NamespaceRecommendationSetResult response" where
  "GetNamespaceRecommendationSetList env req =
     (case ListAPIOptions (a_uni env) (hq_accept req) (hq_query req) DefaultNsRecsDBColumn NsAllowedOrderBy of
        Inl e \<Rightarrow> apiErrResponse 400 (list_error_text env e)
      | Inr apiListOptions \<Rightarrow>
     (case MapNamespaceQueryParameters (\<lambda>s. a_uuid env s \<noteq> None) (MaxCountPerQueryParam (a_cfg env)) (a_clock env) (hq_query req) of
        Inl es \<Rightarrow> apiErrResponse 400 (param_errors_text env False es)
      | Inr queryParams \<Rightarrow>
     (case ParseUnitParams (hq_query req) ''cores'' ''bytes'' of
        Inl e \<Rightarrow> apiErrResponse 400 (unit_error_text e)
      | Inr (unitChoices, setk8sUnits) \<Rightarrow>
     (case (case GetNamespaceRecommendationSets (RBACEnabled (a_cfg env)) (RecordLimitCSV (a_cfg env)) (hq_org req) apiListOptions
                   queryParams (get_user_permissions (hq_permissions req)) of
              Inl e \<Rightarrow> Inl e | Inr (countQuery, query) \<Rightarrow> a_nslist env countQuery query) of
        Inl e \<Rightarrow> apiErrResponse 503 ''unable to fetch records from database''
      | Inr (namespaceRecommendationSets, count) \<Rightarrow>
     (case present_all (ns_present env ''namespace-recommendationset-list'' unitChoices setk8sUnits) namespaceRecommendationSets of
        None \<Rightarrow> HandlerPanic
      | Some sets \<Rightarrow>
          if Format apiListOptions = ''json'' then
            ListJson 200 (CollectionResponse sets (hq_path req) (hq_query req) count (Limit apiListOptions) (Offset apiListOptions))
          else if Format apiListOptions = ''csv'' then
            apiErrResponse 406 ''CSV format is not supported. Please use application/json''
          else NoResponse)))))"

definition GetNamespaceRecommendationSet :: "api_env \<Rightarrow> api_request \<Rightarrow> NamespaceRecommendationSetResult response" where
  "GetNamespaceRecommendationSet env req =
     (case a_uuid env (hq_id req) of
        None \<Rightarrow> apiErrResponse 400 ''bad recommendation-id for project''
      | Some recommendationUUID \<Rightarrow>
     (case ParseUnitParams (hq_query req) ''cores'' ''MiB'' of
        Inl e \<Rightarrow> apiErrResponse 400 (unit_error_text e)
      | Inr (unitChoices, setk8sUnits) \<Rightarrow>
     (case (case GetNamespaceRecommendationSetByID (RBACEnabled (a_cfg env)) (hq_org req) recommendationUUID
                   (get_user_permissions (hq_permissions req)) of
              Inl e \<Rightarrow> Inl e | Inr query \<Rightarrow> a_nsfirst env query) of
        Inl e \<Rightarrow> apiErrResponse 404 ''unable to fetch project recommendation''
      | Inr nsRecommendationSet \<Rightarrow>
          if nr_recommendations nsRecommendationSet \<noteq> [] then
            (case ns_present env ''namespace-recommendationset'' unitChoices setk8sUnits nsRecommendationSet of
               None \<Rightarrow> HandlerPanic
             | Some r \<Rightarrow> RowJson 200 r)
          else RowJson 200 nsRecommendationSet)))"

text \<open>A route of the versioned API: the RBAC middleware runs when it is enabled, and asking for the permissions may not
  end.  The middleware's refusal is an HTTP error of echo.\<close>

definition route ::
  "(json \<Rightarrow> string) \<Rightarrow> (nat \<Rightarrow> string \<Rightarrow> rbac_reply) \<Rightarrow> string \<Rightarrow> (api_env \<Rightarrow> api_request \<Rightarrow> 'r response) \<Rightarrow> api_env
     \<Rightarrow> api_request \<Rightarrow> 'r response option" where
  "route sprint reply base handler env req =
     (if RBACEnabled (a_cfg env) then
        map_option (\<lambda>m. case m of
            Forbidden \<Rightarrow> HttpError 403 ''User is not authorized''
          | Next permissions \<Rightarrow> handler env (req\<lparr>hq_permissions := Some permissions\<rparr>))
          (rbac_middleware sprint reply base)
      else Some (handler env (req\<lparr>hq_permissions := None\<rparr>)))"

section \<open>Who sees which rows\<close>

lemma present_keeps: "present env h u k r = Some r' \<Longrightarrow> r'\<lparr>rr_json := None\<rparr> = r\<lparr>rr_json := None\<rparr>"
  by (auto simp: present_def split: api_json.splits)

lemma ns_present_keeps: "ns_present env h u k r = Some r' \<Longrightarrow> r'\<lparr>nr_json := None\<rparr> = r\<lparr>nr_json := None\<rparr>"
  by (auto simp: ns_present_def split: api_json.splits)

lemma present_all_rows: "present_all f rs = Some rs' \<Longrightarrow> list_all2 (\<lambda>r r'. f r = Some r') rs rs'"
  by (induction rs arbitrary: rs') (auto split: option.splits)

lemma present_all_list_all:
  assumes "present_all f rs = Some rs'" "list_all P rs" "\<And>r r'. f r = Some r' \<Longrightarrow> P r \<Longrightarrow> Q r'"
  shows "list_all Q rs'"
  using present_all_rows [OF assms(1)] assms(2) by (induction rule: list_all2_induct) (auto dest: assms(3))

text \<open>What a response shows: the rows of a page, or a single row.\<close>

definition shown :: "'r response \<Rightarrow> 'r list" where
  "shown resp = (case resp of ListJson st c \<Rightarrow> cl_data c | RowJson st r \<Rightarrow> [r] | _ \<Rightarrow> [])"

text \<open>The database returns rows that satisfy the conditions of the query, with \<open>RecommendationsJSON\<close>, which is no
  column, left nil.\<close>

definition database_ok ::
  "(string \<times> qarg \<Rightarrow> RecommendationSetResult \<Rightarrow> bool) \<Rightarrow> (string \<times> qarg \<Rightarrow> NamespaceRecommendationSetResult \<Rightarrow> bool) \<Rightarrow> api_env \<Rightarrow> bool" where
  "database_ok meets nmeets env =
     ((\<forall>cq q rows n. a_list env cq q = Inr (rows, n) \<longrightarrow> list_all (\<lambda>r. selects meets q r \<and> rr_json r = None) rows)
      \<and> (\<forall>q r. a_first env q = Inr r \<longrightarrow> selects meets q r \<and> rr_json r = None)
      \<and> (\<forall>cq q rows n. a_nslist env cq q = Inr (rows, n) \<longrightarrow> list_all (\<lambda>r. selects nmeets q r \<and> nr_json r = None) rows)
      \<and> (\<forall>q r. a_nsfirst env q = Inr r \<longrightarrow> selects nmeets q r \<and> nr_json r = None))"

lemma database_okD:
  assumes "database_ok meets nmeets env"
  shows "a_list env cq q = Inr (rows, n) \<Longrightarrow> list_all (\<lambda>r. selects meets q r \<and> rr_json r = None) rows"
    "a_first env q = Inr r \<Longrightarrow> selects meets q r \<and> rr_json r = None"
    "a_nslist env cq q = Inr (nrows, n) \<Longrightarrow> list_all (\<lambda>r. selects nmeets q r \<and> nr_json r = None) nrows"
    "a_nsfirst env q = Inr nr \<Longrightarrow> selects nmeets q nr \<and> nr_json nr = None"
proof -
  show "a_list env cq q = Inr (rows, n) \<Longrightarrow> list_all (\<lambda>r. selects meets q r \<and> rr_json r = None) rows"
    using assms unfolding database_ok_def by blast
  show "a_first env q = Inr r \<Longrightarrow> selects meets q r \<and> rr_json r = None"
    using assms unfolding database_ok_def by blast
  show "a_nslist env cq q = Inr (nrows, n) \<Longrightarrow> list_all (\<lambda>r. selects nmeets q r \<and> nr_json r = None) nrows"
    using assms unfolding database_ok_def by blast
  show "a_nsfirst env q = Inr nr \<Longrightarrow> selects nmeets q nr \<and> nr_json nr = None"
    using assms unfolding database_ok_def by blast
qed

lemma list_query_row:
  assumes "rt = ResourceContainer \<or> rt = ResourceProject" "row_semantics meets org_of cluster_of project_of rt"
    and "q_where base = [(org_clause rt, QStrings [org])]"
    and "list_query base rt o1 True n opts params m = Inr (cq, q)" "selects meets q row"
  shows "org_of row = org \<and> policy_allows m (cluster_of row) (project_of row)"
  using list_query_selects [OF assms(1-3), of o1 n opts params m] assms(4,5) by auto

lemma by_id_query_row:
  assumes "rt = ResourceContainer \<or> rt = ResourceProject" "row_semantics meets org_of cluster_of project_of rt"
    and "q_where base = [(org_clause rt, QStrings [org])]"
    and "by_id_query base ic rt True rid m = Inr q" "selects meets q row"
  shows "org_of row = org \<and> policy_allows m (cluster_of row) (project_of row)"
proof -
  have "in_clause_semantics meets cluster_of project_of rt" using assms(2) by (simp add: row_semantics_def)
  from AddRBACFilter_spec [OF assms(1) this, of m] obtain cs where
    cs: "AddRBACFilter True m rt = Inr cs"
      "\<forall>row. list_all (\<lambda>c. meets c row) cs = policy_allows m (cluster_of row) (project_of row)" by blast
  from assms(4) cs(1) have "q = fold add_where cs (add_where (ic, QStrings [rid]) base)" by (simp add: by_id_query_def)
  then have "selects meets (add_where (ic, QStrings [rid]) base) row" "list_all (\<lambda>c. meets c row) cs"
    using assms(5) by (simp_all add: selects_fold)
  with assms(2,3) cs(2) show ?thesis by (simp add: selects_def row_semantics_def q_where_add_where)
qed

lemma org_where:
  "q_where (getRecommendationQuery org) = [(org_clause ResourceContainer, QStrings [org])]"
  "q_where (getNamespaceRecommendationQuery org) = [(org_clause ResourceProject, QStrings [org])]"
  by (simp_all add: getRecommendationQuery_def getNamespaceRecommendationQuery_def org_clause_def)

lemma page_data [simp]: "cl_data (CollectionResponse rows p qs n l o1) = rows"
  by (simp add: CollectionResponse_def Let_def split: prod.split)

text \<open>What a list endpoint shows is what its query returned, presented.\<close>

lemma container_list_shows:
  assumes "shown (GetRecommendationSetList env req) = r # rs"
  shows "\<exists>opts params cq q rows n f. GetRecommendationSets (RBACEnabled (a_cfg env)) (RecordLimitCSV (a_cfg env)) (hq_org req) opts params
      (get_user_permissions (hq_permissions req)) = Inr (cq, q) \<and> a_list env cq q = Inr (rows, n)
    \<and> present_all f rows = Some (r # rs) \<and> (\<exists>h u k. f = present env h u k)"
  using assms
  by (auto simp: GetRecommendationSetList_def shown_def apiErrResponse_def split: sum.splits prod.splits option.splits if_splits) blast+

lemma namespace_list_shows:
  assumes "shown (GetNamespaceRecommendationSetList env req) = r # rs"
  shows "\<exists>opts params cq q rows n f. GetNamespaceRecommendationSets (RBACEnabled (a_cfg env)) (RecordLimitCSV (a_cfg env)) (hq_org req) opts params
      (get_user_permissions (hq_permissions req)) = Inr (cq, q) \<and> a_nslist env cq q = Inr (rows, n)
    \<and> present_all f rows = Some (r # rs) \<and> (\<exists>h u k. f = ns_present env h u k)"
  using assms
  by (auto simp: GetNamespaceRecommendationSetList_def shown_def apiErrResponse_def split: sum.splits prod.splits option.splits if_splits) blast+

lemma container_row_shows:
  assumes "shown (GetRecommendationSet env req) = r' # rs"
  shows "\<exists>i q r h u k. GetRecommendationSetByID (RBACEnabled (a_cfg env)) (hq_org req) i (get_user_permissions (hq_permissions req)) = Inr q
    \<and> a_first env q = Inr r \<and> present env h u k r = Some r' \<and> rs = []"
  using assms
  by (auto simp: GetRecommendationSet_def shown_def split: sum.splits prod.splits option.splits if_splits) blast+

lemma namespace_row_shows:
  assumes "shown (GetNamespaceRecommendationSet env req) = r' # rs"
  shows "\<exists>i q r. GetNamespaceRecommendationSetByID (RBACEnabled (a_cfg env)) (hq_org req) i (get_user_permissions (hq_permissions req)) = Inr q
    \<and> a_nsfirst env q = Inr r \<and> (r' = r \<or> (\<exists>h u k. ns_present env h u k r = Some r')) \<and> rs = []"
  using assms
  by (auto simp: GetNamespaceRecommendationSet_def shown_def apiErrResponse_def split: sum.splits prod.splits option.splits if_splits) blast+

text \<open>What the database has returned for any query.\<close>

definition returned :: "api_env \<Rightarrow> RecommendationSetResult \<Rightarrow> bool" where
  "returned env row =
     ((\<exists>cq q rows n. a_list env cq q = Inr (rows, n) \<and> row \<in> set rows) \<or> (\<exists>q. a_first env q = Inr row))"

definition nreturned :: "api_env \<Rightarrow> NamespaceRecommendationSetResult \<Rightarrow> bool" where
  "nreturned env row =
     ((\<exists>cq q rows n. a_nslist env cq q = Inr (rows, n) \<and> row \<in> set rows) \<or> (\<exists>q. a_nsfirst env q = Inr row))"

text \<open>Every row of a response satisfies \<open>P\<close>, be it JSON or the stream of a download.\<close>

definition shows_only :: "(RecommendationSetResult \<Rightarrow> bool) \<Rightarrow> api_env \<Rightarrow> RecommendationSetResult response \<Rightarrow> bool" where
  "shows_only P env resp =
     (list_all P (shown resp)
      \<and> (case resp of
           CsvStream name outcome csv \<Rightarrow>
             (\<exists>sets. list_all P sets \<and> GenerateAndStreamCSV (a_decode env) (a_sink env) (CSVStreamInterval (a_cfg env)) sets = (outcome, csv))
         | _ \<Rightarrow> True))"

lemma shows_only_mono: "shows_only P env resp \<Longrightarrow> (\<And>r. P r \<Longrightarrow> Q r) \<Longrightarrow> shows_only Q env resp"
  by (auto simp: shows_only_def list_all_iff split: response.splits)

lemma shows_only_error [simp]: "shows_only P env (HttpError st m)"
  by (simp add: shows_only_def shown_def)

lemma shows_only_shown: "shows_only P env resp \<Longrightarrow> r \<in> set (shown resp) \<Longrightarrow> P r"
  by (simp add: shows_only_def list_all_iff)

lemma download_of:
  assumes "GetRecommendationSetList env req = CsvStream name outcome text"
  shows "\<exists>opts params cq q rows n sets u k. GetRecommendationSets (RBACEnabled (a_cfg env)) (RecordLimitCSV (a_cfg env)) (hq_org req) opts params
      (get_user_permissions (hq_permissions req)) = Inr (cq, q) \<and> Format opts = ''csv'' \<and> a_list env cq q = Inr (rows, n)
    \<and> present_all (present env ''recommendationset-list'' u k) rows = Some sets
    \<and> GenerateAndStreamCSV (a_decode env) (a_sink env) (CSVStreamInterval (a_cfg env)) sets = (outcome, text)"
  using assms
  by (auto simp: GetRecommendationSetList_def apiErrResponse_def split: sum.splits prod.splits option.splits if_splits) blast+

text \<open>What holds of every row that the database may return for the query of an endpoint holds of every row that it shows.\<close>

lemma presented_only:
  assumes "list_all P rows" "present_all (present env h u k) rows = Some sets" "list_all (\<lambda>r. rr_json r = None) rows"
  shows "list_all (\<lambda>r. P (r\<lparr>rr_json := None\<rparr>)) sets"
proof (rule present_all_list_all [OF assms(2)])
  show "list_all (\<lambda>r. P r \<and> rr_json r = None) rows" using assms(1,3) by (simp add: list_all_iff)
  fix r r' assume f: "present env h u k r = Some r'" and r: "P r \<and> rr_json r = None"
  have "r'\<lparr>rr_json := None\<rparr> = r" using present_keeps [OF f] r by simp
  with r show "P (r'\<lparr>rr_json := None\<rparr>)" by simp
qed

lemma ns_presented_only:
  assumes "list_all P rows" "present_all (ns_present env h u k) rows = Some sets" "list_all (\<lambda>r. nr_json r = None) rows"
  shows "list_all (\<lambda>r. P (r\<lparr>nr_json := None\<rparr>)) sets"
proof (rule present_all_list_all [OF assms(2)])
  show "list_all (\<lambda>r. P r \<and> nr_json r = None) rows" using assms(1,3) by (simp add: list_all_iff)
  fix r r' assume f: "ns_present env h u k r = Some r'" and r: "P r \<and> nr_json r = None"
  have "r'\<lparr>nr_json := None\<rparr> = r" using ns_present_keeps [OF f] r by simp
  with r show "P (r'\<lparr>nr_json := None\<rparr>)" by simp
qed

lemma container_list_only:
  assumes "database_ok meets nmeets env"
    and "\<And>opts params cq q r. GetRecommendationSets (RBACEnabled (a_cfg env)) (RecordLimitCSV (a_cfg env)) (hq_org req) opts params
        (get_user_permissions (hq_permissions req)) = Inr (cq, q) \<Longrightarrow> selects meets q r \<Longrightarrow> returned env r \<Longrightarrow> P r"
  shows "shows_only (\<lambda>r. P (r\<lparr>rr_json := None\<rparr>)) env (GetRecommendationSetList env req)"
proof -
  have rows: "list_all P rows \<and> list_all (\<lambda>r. rr_json r = None) rows"
    if "GetRecommendationSets (RBACEnabled (a_cfg env)) (RecordLimitCSV (a_cfg env)) (hq_org req) opts params
        (get_user_permissions (hq_permissions req)) = Inr (cq, q)" "a_list env cq q = Inr (rows, n)" for opts params cq q rows n
    using database_okD(1) [OF assms(1) that(2)] assms(2) [OF that(1)] that(2) unfolding list_all_iff returned_def by blast
  have "list_all (\<lambda>r. P (r\<lparr>rr_json := None\<rparr>)) (shown (GetRecommendationSetList env req))"
  proof (cases "shown (GetRecommendationSetList env req)")
    case (Cons r rs)
    from container_list_shows [OF Cons] obtain opts params cq q rows0 n f h u k where
      q: "GetRecommendationSets (RBACEnabled (a_cfg env)) (RecordLimitCSV (a_cfg env)) (hq_org req) opts params
          (get_user_permissions (hq_permissions req)) = Inr (cq, q)"
        "a_list env cq q = Inr (rows0, n)" "present_all f rows0 = Some (r # rs)" "f = present env h u k" by blast
    with rows [OF q(1,2)] presented_only show ?thesis unfolding Cons by blast
  qed simp
  moreover have "\<exists>sets. list_all (\<lambda>r. P (r\<lparr>rr_json := None\<rparr>)) sets
      \<and> GenerateAndStreamCSV (a_decode env) (a_sink env) (CSVStreamInterval (a_cfg env)) sets = (outcome, csv)"
    if d: "GetRecommendationSetList env req = CsvStream name outcome csv" for name outcome csv
  proof -
    from download_of [OF d] obtain opts params cq q rows0 n sets u k where
      q: "GetRecommendationSets (RBACEnabled (a_cfg env)) (RecordLimitCSV (a_cfg env)) (hq_org req) opts params
          (get_user_permissions (hq_permissions req)) = Inr (cq, q)" "a_list env cq q = Inr (rows0, n)"
        "present_all (present env ''recommendationset-list'' u k) rows0 = Some sets"
        "GenerateAndStreamCSV (a_decode env) (a_sink env) (CSVStreamInterval (a_cfg env)) sets = (outcome, csv)" by blast
    with rows [OF q(1,2)] presented_only show ?thesis by blast
  qed
  ultimately show ?thesis by (auto simp: shows_only_def split: response.split)
qed

lemma container_row_only:
  assumes "database_ok meets nmeets env"
    and "\<And>i q r. GetRecommendationSetByID (RBACEnabled (a_cfg env)) (hq_org req) i (get_user_permissions (hq_permissions req)) = Inr q
        \<Longrightarrow> selects meets q r \<Longrightarrow> returned env r \<Longrightarrow> P r"
  shows "shows_only (\<lambda>r. P (r\<lparr>rr_json := None\<rparr>)) env (GetRecommendationSet env req)"
proof -
  have "list_all (\<lambda>r. P (r\<lparr>rr_json := None\<rparr>)) (shown (GetRecommendationSet env req))"
  proof (cases "shown (GetRecommendationSet env req)")
    case (Cons r' rs)
    from container_row_shows [OF Cons] obtain i q r h u k where
      q: "GetRecommendationSetByID (RBACEnabled (a_cfg env)) (hq_org req) i (get_user_permissions (hq_permissions req)) = Inr q"
        "a_first env q = Inr r" "present env h u k r = Some r'" "rs = []" by blast
    have s: "selects meets q r" "rr_json r = None" using database_okD(2) [OF assms(1) q(2)] by simp_all
    have "P r" by (rule assms(2) [OF q(1) s(1)]) (use q(2) in \<open>auto simp: returned_def\<close>)
    moreover have "r'\<lparr>rr_json := None\<rparr> = r" using present_keeps [OF q(3)] s(2) by simp
    ultimately show ?thesis by (simp add: Cons q(4))
  qed simp
  then show ?thesis
    by (auto simp: shows_only_def GetRecommendationSet_def split: response.split sum.split option.split)
qed

lemma namespace_list_only:
  assumes "database_ok meets nmeets env"
    and "\<And>opts params cq q r. GetNamespaceRecommendationSets (RBACEnabled (a_cfg env)) (RecordLimitCSV (a_cfg env)) (hq_org req) opts params
        (get_user_permissions (hq_permissions req)) = Inr (cq, q) \<Longrightarrow> selects nmeets q r \<Longrightarrow> nreturned env r \<Longrightarrow> P r"
  shows "list_all (\<lambda>r. P (r\<lparr>nr_json := None\<rparr>)) (shown (GetNamespaceRecommendationSetList env req))"
proof (cases "shown (GetNamespaceRecommendationSetList env req)")
  case (Cons r rs)
  from namespace_list_shows [OF Cons] obtain opts params cq q rows n f h u k where
    q: "GetNamespaceRecommendationSets (RBACEnabled (a_cfg env)) (RecordLimitCSV (a_cfg env)) (hq_org req) opts params
        (get_user_permissions (hq_permissions req)) = Inr (cq, q)"
      "a_nslist env cq q = Inr (rows, n)" "present_all f rows = Some (r # rs)" "f = ns_present env h u k" by blast
  have "list_all P rows" "list_all (\<lambda>r. nr_json r = None) rows"
    using database_okD(3) [OF assms(1) q(2)] assms(2) [OF q(1)] q(2) unfolding list_all_iff nreturned_def by blast+
  with q(3,4) ns_presented_only show ?thesis unfolding Cons by blast
qed simp

lemma namespace_row_only:
  assumes "database_ok meets nmeets env"
    and "\<And>i q r. GetNamespaceRecommendationSetByID (RBACEnabled (a_cfg env)) (hq_org req) i (get_user_permissions (hq_permissions req)) = Inr q
        \<Longrightarrow> selects nmeets q r \<Longrightarrow> nreturned env r \<Longrightarrow> P r"
  shows "list_all (\<lambda>r. P (r\<lparr>nr_json := None\<rparr>)) (shown (GetNamespaceRecommendationSet env req))"
proof (cases "shown (GetNamespaceRecommendationSet env req)")
  case (Cons r' rs)
  from namespace_row_shows [OF Cons] obtain i q r where
    q: "GetNamespaceRecommendationSetByID (RBACEnabled (a_cfg env)) (hq_org req) i (get_user_permissions (hq_permissions req)) = Inr q"
      "a_nsfirst env q = Inr r" "rs = []" "r' = r \<or> (\<exists>h u k. ns_present env h u k r = Some r')" by blast
  have s: "selects nmeets q r" "nr_json r = None" using database_okD(4) [OF assms(1) q(2)] by simp_all
  have "P r" by (rule assms(2) [OF q(1) s(1)]) (use q(2) in \<open>auto simp: nreturned_def\<close>)
  moreover have "r'\<lparr>nr_json := None\<rparr> = r" using q(4) ns_present_keeps [of env _ _ _ r r'] s(2) by auto
  ultimately show ?thesis by (simp add: Cons q(3))
qed simp

text \<open>A row of the caller's organisation that the policy allows; \<open>clear\<close> undoes the presentation.\<close>

definition allowed :: "('r \<Rightarrow> string) \<Rightarrow> ('r \<Rightarrow> string) \<Rightarrow> ('r \<Rightarrow> string) \<Rightarrow> ('r \<Rightarrow> 'r) \<Rightarrow> string \<Rightarrow> perms \<Rightarrow> 'r \<Rightarrow> bool" where
  "allowed org_of cluster_of project_of clear org m r =
     (org_of (clear r) = org \<and> policy_allows m (cluster_of (clear r)) (project_of (clear r)))"

abbreviation container_allowed ::
  "(RecommendationSetResult \<Rightarrow> string) \<Rightarrow> string \<Rightarrow> perms \<Rightarrow> RecommendationSetResult \<Rightarrow> bool" where
  "container_allowed org_of \<equiv> allowed org_of rr_cluster_uuid rr_project (\<lambda>r. r\<lparr>rr_json := None\<rparr>)"

abbreviation namespace_allowed ::
  "(NamespaceRecommendationSetResult \<Rightarrow> string) \<Rightarrow> string \<Rightarrow> perms \<Rightarrow> NamespaceRecommendationSetResult \<Rightarrow> bool" where
  "namespace_allowed org_of \<equiv> allowed org_of nr_cluster_uuid nr_project (\<lambda>r. r\<lparr>nr_json := None\<rparr>)"

lemma containers_allowed:
  assumes "RBACEnabled (a_cfg env)" "row_semantics meets org_of rr_cluster_uuid rr_project ResourceContainer"
    and "database_ok meets nmeets env" "handler = GetRecommendationSetList \<or> handler = GetRecommendationSet"
  shows "shows_only (container_allowed org_of (hq_org req) (get_user_permissions (hq_permissions req))) env (handler env req)"
proof -
  have "shows_only (container_allowed org_of (hq_org req) (get_user_permissions (hq_permissions req))) env (GetRecommendationSetList env req)"
    unfolding allowed_def [abs_def] by (rule container_list_only [OF assms(3)])
      (rule list_query_row [OF disjI1 [OF refl] assms(2) org_where(1)], simp_all add: GetRecommendationSets_def assms(1))
  moreover have "shows_only (container_allowed org_of (hq_org req) (get_user_permissions (hq_permissions req))) env (GetRecommendationSet env req)"
    unfolding allowed_def [abs_def] by (rule container_row_only [OF assms(3)])
      (rule by_id_query_row [OF disjI1 [OF refl] assms(2) org_where(1)], simp_all add: GetRecommendationSetByID_def assms(1))
  ultimately show ?thesis using assms(4) by blast
qed

lemma namespaces_allowed:
  assumes "RBACEnabled (a_cfg env)" "row_semantics nmeets org_of nr_cluster_uuid nr_project ResourceProject"
    and "database_ok meets nmeets env" "handler = GetNamespaceRecommendationSetList \<or> handler = GetNamespaceRecommendationSet"
  shows "list_all (namespace_allowed org_of (hq_org req) (get_user_permissions (hq_permissions req))) (shown (handler env req))"
proof -
  have "list_all (namespace_allowed org_of (hq_org req) (get_user_permissions (hq_permissions req))) (shown (GetNamespaceRecommendationSetList env req))"
    unfolding allowed_def [abs_def] by (rule namespace_list_only [OF assms(3)])
      (rule list_query_row [OF disjI2 [OF refl] assms(2) org_where(2)], simp_all add: GetNamespaceRecommendationSets_def assms(1))
  moreover have "list_all (namespace_allowed org_of (hq_org req) (get_user_permissions (hq_permissions req))) (shown (GetNamespaceRecommendationSet env req))"
    unfolding allowed_def [abs_def] by (rule namespace_row_only [OF assms(3)])
      (rule by_id_query_row [OF disjI2 [OF refl] assms(2) org_where(2)], simp_all add: GetNamespaceRecommendationSetByID_def assms(1))
  ultimately show ?thesis using assms(4) by blast
qed

lemma shown_errors [simp]: "shown (HttpError st m) = []" "shown (apiErrResponse st m) = []"
  by (simp_all add: shown_def apiErrResponse_def)

lemma route_shows:
  assumes "RBACEnabled (a_cfg env)" "\<And>m. ok m (handler env (req\<lparr>hq_permissions := Some m\<rparr>))"
  shows "case route sprint reply base handler env req of
      None \<Rightarrow> rbac_middleware sprint reply base = None
    | Some resp \<Rightarrow>
        (case rbac_middleware sprint reply base of
           Some (Next m) \<Rightarrow> ok m resp
         | _ \<Rightarrow> resp = HttpError 403 ''User is not authorized'')"
  using assms by (auto simp: route_def split: option.split middleware_result.split)

text \<open>C7: With RBAC on, the container endpoints show a caller only rows of the caller's organisation whose cluster and project
  the caller's permissions, as the RBAC service answered, allow, in JSON and in downloads alike; and nothing when the middleware
  refuses.\<close>

theorem container_routes_show_allowed:
  assumes "RBACEnabled (a_cfg env)" "row_semantics meets org_of rr_cluster_uuid rr_project ResourceContainer"
    and "database_ok meets nmeets env"
    and "handler = GetRecommendationSetList \<or> handler = GetRecommendationSet"
  shows "case route sprint reply base handler env req of
      None \<Rightarrow> rbac_middleware sprint reply base = None
    | Some resp \<Rightarrow>
        (case rbac_middleware sprint reply base of
           Some (Next m) \<Rightarrow> shows_only (container_allowed org_of (hq_org req) m) env resp
         | _ \<Rightarrow> resp = HttpError 403 ''User is not authorized'')"
proof (rule route_shows [OF assms(1)])
  fix m
  show "shows_only (container_allowed org_of (hq_org req) m) env (handler env (req\<lparr>hq_permissions := Some m\<rparr>))"
    using containers_allowed [OF assms, of "req\<lparr>hq_permissions := Some m\<rparr>"] by (simp add: get_user_permissions_def)
qed

definition demo_meets :: "('r \<Rightarrow> string) \<Rightarrow> ('r \<Rightarrow> string) \<Rightarrow> ('r \<Rightarrow> string) \<Rightarrow> string \<times> qarg \<Rightarrow> 'r \<Rightarrow> bool" where
  "demo_meets org_of cluster_of project_of c r =
     (case snd c of
        QSlice vs \<Rightarrow> (if fst c = ''clusters.cluster_uuid IN (?)'' then cluster_of r else project_of r) \<in> set vs
      | QStrings vs \<Rightarrow> fst c \<notin> {''rh_accounts.org_id = ?'', ''namespace_recommendation_sets.org_id = ?''} \<or> vs = [org_of r]
      | QTime _ \<Rightarrow> True)"

lemma demo_semantics:
  "rt = ResourceContainer \<or> rt = ResourceProject \<Longrightarrow> row_semantics (demo_meets org_of cl pr) org_of cl pr rt"
  by (auto simp: row_semantics_def in_clause_semantics_def demo_meets_def project_filter_def org_clause_def)

definition demo_row :: RecommendationSetResult where
  "demo_row = \<lparr>rr_cluster_alias = ''alias'', rr_cluster_uuid = ''c1'', rr_container = ''web'', rr_id = ''id1'', rr_last_reported = [],
     rr_project = ''shop'', rr_recommendations = ''{}'', rr_json = None, rr_source_id = ''org1'', rr_workload = ''web'',
     rr_workload_type = ''deployment'', rr_pcts = no_pcts\<rparr>"

definition demo_ns_row :: NamespaceRecommendationSetResult where
  "demo_ns_row = \<lparr>nr_cluster_alias = ''alias'', nr_cluster_uuid = ''c1'', nr_id = ''id1'', nr_last_reported = [], nr_project = ''shop'',
     nr_recommendations = ''{}'', nr_json = None, nr_source_id = ''org1'', nr_pcts = no_pcts\<rparr>"

abbreviation "demo_sat \<equiv> demo_meets rr_source_id rr_cluster_uuid rr_project"
abbreviation "demo_nsat \<equiv> demo_meets nr_source_id nr_cluster_uuid nr_project"

definition demo_env :: api_env where
  "demo_env = \<lparr>a_cfg = example_config, a_clock = go_zero_time, a_uni = (\<lambda>s. s), a_uuid = (\<lambda>s. Some s), a_quote = (\<lambda>s. s),
     a_date_error = ''bad date'', a_unmarshal = (\<lambda>_. None), a_decode = (\<lambda>_. Inl ''no data''), a_sink = open_sink,
     a_list = (\<lambda>cq q. Inr (filter (selects demo_sat q) [demo_row], 1)),
     a_first = (\<lambda>q. if selects demo_sat q demo_row then Inr demo_row else Inl ''record not found''),
     a_nslist = (\<lambda>cq q. Inr (filter (selects demo_nsat q) [demo_ns_row], 1)),
     a_nsfirst = (\<lambda>q. if selects demo_nsat q demo_ns_row then Inr demo_ns_row else Inl ''record not found'')\<rparr>"

lemma demo_database: "database_ok demo_sat demo_nsat demo_env"
  by (auto simp: database_ok_def demo_env_def demo_row_def demo_ns_row_def list_all_iff split: if_splits)

definition demo_reply :: "nat \<Rightarrow> string \<Rightarrow> rbac_reply" where
  "demo_reply n url = Page [\<lparr>ac_resourceDefinitions = [JStr ''c1''], ac_permission = ''cost-management:openshift.cluster:read''\<rparr>] []"

definition demo_request :: "string \<Rightarrow> api_request" where
  "demo_request org = \<lparr>hq_org = org, hq_permissions = None, hq_accept = [], hq_path = ''/recommendations'', hq_query = [], hq_id = ''id1''\<rparr>"

lemma demo_aggregate:
  "aggregate_permissions (\<lambda>_. []) [\<lparr>ac_resourceDefinitions = [JStr ''c1''], ac_permission = ''cost-management:openshift.cluster:read''\<rparr>]
     = [(''openshift.cluster'', [''c1''])]"
  by code_simp

lemma demo_middleware:
  "rbac_middleware (\<lambda>_. []) demo_reply [] = Some (Next [(''openshift.cluster'', [''c1''])])"
  by (simp add: rbac_middleware_def get_user_permissions_from_rbac_def request_user_access.simps demo_reply_def demo_aggregate)

text \<open>The row is shown to its own organisation and not to another.\<close>

lemma demo_shown:
  "shown (GetRecommendationSet demo_env (demo_request ''org1''\<lparr>hq_permissions := Some [(''openshift.cluster'', [''c1''])]\<rparr>)) = [demo_row]"
  "shown (GetRecommendationSet demo_env (demo_request ''org2''\<lparr>hq_permissions := Some [(''openshift.cluster'', [''c1''])]\<rparr>)) = []"
  by code_simp+

theorem container_routes_show_allowed_witness:
  "RBACEnabled (a_cfg demo_env)
   \<and> (case route (\<lambda>_. []) demo_reply [] GetRecommendationSet demo_env (demo_request ''org1'') of
        Some resp \<Rightarrow> shown resp = [demo_row]
          \<and> shows_only (container_allowed rr_source_id ''org1'' [(''openshift.cluster'', [''c1''])]) demo_env resp
      | None \<Rightarrow> False)"
proof -
  have r: "RBACEnabled (a_cfg demo_env)" by (simp add: demo_env_def example_config_def)
  have "case route (\<lambda>_. []) demo_reply [] GetRecommendationSet demo_env (demo_request ''org1'') of
      None \<Rightarrow> rbac_middleware (\<lambda>_. []) demo_reply [] = None
    | Some resp \<Rightarrow>
        (case rbac_middleware (\<lambda>_. []) demo_reply [] of
           Some (Next m) \<Rightarrow> shows_only (container_allowed rr_source_id (hq_org (demo_request ''org1'')) m) demo_env resp
         | _ \<Rightarrow> resp = HttpError 403 ''User is not authorized'')"
    by (rule container_routes_show_allowed [OF r demo_semantics [OF disjI1 [OF refl]] demo_database disjI2 [OF refl]])
  then show ?thesis
    using r demo_shown(1) by (auto simp: demo_middleware route_def demo_request_def)
qed

text \<open>The same for the namespace endpoints.\<close>

theorem namespace_routes_show_allowed:
  assumes "RBACEnabled (a_cfg env)" "row_semantics nmeets org_of nr_cluster_uuid nr_project ResourceProject"
    and "database_ok meets nmeets env"
    and "handler = GetNamespaceRecommendationSetList \<or> handler = GetNamespaceRecommendationSet"
  shows "case route sprint reply base handler env req of
      None \<Rightarrow> rbac_middleware sprint reply base = None
    | Some resp \<Rightarrow>
        (case rbac_middleware sprint reply base of
           Some (Next m) \<Rightarrow> list_all (namespace_allowed org_of (hq_org req) m) (shown resp)
         | _ \<Rightarrow> resp = HttpError 403 ''User is not authorized'')"
proof (rule route_shows [OF assms(1)])
  fix m
  show "list_all (namespace_allowed org_of (hq_org req) m) (shown (handler env (req\<lparr>hq_permissions := Some m\<rparr>)))"
    using namespaces_allowed [OF assms, of "req\<lparr>hq_permissions := Some m\<rparr>"] by (simp add: get_user_permissions_def)
qed

lemma demo_ns_shown:
  "shown (GetNamespaceRecommendationSet demo_env (demo_request ''org1''\<lparr>hq_permissions := Some [(''openshift.cluster'', [''c1''])]\<rparr>)) = [demo_ns_row]"
  by code_simp

theorem namespace_routes_show_allowed_witness:
  "case route (\<lambda>_. []) demo_reply [] GetNamespaceRecommendationSet demo_env (demo_request ''org1'') of
     Some resp \<Rightarrow> shown resp = [demo_ns_row]
       \<and> list_all (namespace_allowed nr_source_id ''org1'' [(''openshift.cluster'', [''c1''])]) (shown resp)
   | None \<Rightarrow> False"
proof -
  have r: "RBACEnabled (a_cfg demo_env)" by (simp add: demo_env_def example_config_def)
  have "case route (\<lambda>_. []) demo_reply [] GetNamespaceRecommendationSet demo_env (demo_request ''org1'') of
      None \<Rightarrow> rbac_middleware (\<lambda>_. []) demo_reply [] = None
    | Some resp \<Rightarrow>
        (case rbac_middleware (\<lambda>_. []) demo_reply [] of
           Some (Next m) \<Rightarrow> list_all (namespace_allowed nr_source_id (hq_org (demo_request ''org1'')) m) (shown resp)
         | _ \<Rightarrow> resp = HttpError 403 ''User is not authorized'')"
    by (rule namespace_routes_show_allowed [OF r demo_semantics [OF disjI2 [OF refl]] demo_database disjI2 [OF refl]])
  then show ?thesis
    using r demo_ns_shown by (auto simp: demo_middleware route_def demo_request_def)
qed

section \<open>Downloads\<close>

lemma csv_limit:
  "GetRecommendationSets rbac n org opts params m = Inr (cq, q) \<Longrightarrow> Format opts = ''csv'' \<Longrightarrow> q_limit q = n"
  by (auto simp: GetRecommendationSets_def list_query_def Let_def split: sum.splits)

text \<open>C21: A CSV download that has been streamed to its end holds, after the header, the rows of every recommendation that the
  database returned for the query of the request, in the query's order.  The query is the list query for the caller's organisation
  and permissions, limited by the configured number of records, whatever the request's limit.\<close>

theorem csv_download_complete:
  "case GetRecommendationSetList env req of
     CsvStream name Streamed text \<Rightarrow>
       (\<exists>opts params cq q rows n sets lines.
          GetRecommendationSets (RBACEnabled (a_cfg env)) (RecordLimitCSV (a_cfg env)) (hq_org req) opts params
            (get_user_permissions (hq_permissions req)) = Inr (cq, q) \<and> Format opts = ''csv''
          \<and> a_list env cq q = Inr (rows, n) \<and> q_limit q = RecordLimitCSV (a_cfg env)
          \<and> list_all2 (\<lambda>r s. s\<lparr>rr_json := None\<rparr> = r\<lparr>rr_json := None\<rparr>) rows sets
          \<and> all_rows (a_decode env) sets = Some lines \<and> read_csv text = FlattenedCSVHeader # lines)
   | _ \<Rightarrow> True"
proof -
  have "\<exists>opts params cq q rows n sets lines.
      GetRecommendationSets (RBACEnabled (a_cfg env)) (RecordLimitCSV (a_cfg env)) (hq_org req) opts params
        (get_user_permissions (hq_permissions req)) = Inr (cq, q) \<and> Format opts = ''csv''
      \<and> a_list env cq q = Inr (rows, n) \<and> q_limit q = RecordLimitCSV (a_cfg env)
      \<and> list_all2 (\<lambda>r s. s\<lparr>rr_json := None\<rparr> = r\<lparr>rr_json := None\<rparr>) rows sets
      \<and> all_rows (a_decode env) sets = Some lines \<and> read_csv csv = FlattenedCSVHeader # lines"
    if d: "GetRecommendationSetList env req = CsvStream name Streamed csv" for name csv
  proof -
    from download_of [OF d] obtain opts params cq q rows n sets u k where
      q: "GetRecommendationSets (RBACEnabled (a_cfg env)) (RecordLimitCSV (a_cfg env)) (hq_org req) opts params
          (get_user_permissions (hq_permissions req)) = Inr (cq, q)" "Format opts = ''csv''" "a_list env cq q = Inr (rows, n)"
        "present_all (present env ''recommendationset-list'' u k) rows = Some sets"
        "GenerateAndStreamCSV (a_decode env) (a_sink env) (CSVStreamInterval (a_cfg env)) sets = (Streamed, csv)" by blast
    have "list_all2 (\<lambda>r s. s\<lparr>rr_json := None\<rparr> = r\<lparr>rr_json := None\<rparr>) rows sets"
      using present_all_rows [OF q(4)] by (rule list_all2_mono) (rule present_keeps)
    moreover obtain lines where "all_rows (a_decode env) sets = Some lines" "read_csv csv = FlattenedCSVHeader # lines"
      using streamed_reads [OF q(5)] by blast
    ultimately show ?thesis using q(1-3) csv_limit [OF q(1,2)] by blast
  qed
  then show ?thesis by (auto split: response.split stream_end.split)
qed

section \<open>Errors\<close>

definition answered_200 :: "'r response \<Rightarrow> bool" where
  "answered_200 resp =
     (case resp of ListJson st _ \<Rightarrow> st = 200 | RowJson st _ \<Rightarrow> st = 200 | EmptyJson st \<Rightarrow> st = 200 | HandlerPanic \<Rightarrow> True | _ \<Rightarrow> False)"

lemma answered_200_simps [simp]:
  "answered_200 (ListJson st c) = (st = 200)" "answered_200 (RowJson st r) = (st = 200)" "answered_200 HandlerPanic"
  "answered_200 (apiErrResponse st m)"
  by (simp_all add: answered_200_def apiErrResponse_def EnableUserAPIErr_def)

lemma namespace_list_200: "answered_200 (GetNamespaceRecommendationSetList env req)"
  using ListAPIOptions_Inr(5) [of "a_uni env" "hq_accept req" "hq_query req" DefaultNsRecsDBColumn NsAllowedOrderBy]
  by (auto simp: GetNamespaceRecommendationSetList_def split: sum.split prod.split option.split)

lemma namespace_row_200: "answered_200 (GetNamespaceRecommendationSet env req)"
  by (auto simp: GetNamespaceRecommendationSet_def split: sum.split prod.split option.split)

lemma container_list_empty:
  "(GetRecommendationSetList env req = EmptyJson 200) =
     (case ListAPIOptions (a_uni env) (hq_accept req) (hq_query req) DefaultContainerRecsDBColumn ContainerAllowedOrderBy of
        Inl _ \<Rightarrow> False
      | Inr _ \<Rightarrow>
          (case MapQueryParameters (\<lambda>s. a_uuid env s \<noteq> None) (MaxCountPerQueryParam (a_cfg env)) (a_clock env) (hq_query req) of
             Inl _ \<Rightarrow> True | Inr _ \<Rightarrow> False))"
  by (auto simp: GetRecommendationSetList_def apiErrResponse_def EnableUserAPIErr_def split: sum.split prod.split option.split)

text \<open>Errors that look like success: a container list answers a bad filter, and the namespace endpoints any error, the
  database's included, with status 200 and an empty object, as \<open>EnableUserAPIErr\<close> is off.\<close>

theorem errors_answered_with_200:
  "(GetRecommendationSetList env req = EmptyJson 200) =
     (case ListAPIOptions (a_uni env) (hq_accept req) (hq_query req) DefaultContainerRecsDBColumn ContainerAllowedOrderBy of
        Inl _ \<Rightarrow> False
      | Inr _ \<Rightarrow>
          (case MapQueryParameters (\<lambda>s. a_uuid env s \<noteq> None) (MaxCountPerQueryParam (a_cfg env)) (a_clock env) (hq_query req) of
             Inl _ \<Rightarrow> True | Inr _ \<Rightarrow> False))
   \<and> list_all answered_200 [GetNamespaceRecommendationSetList env req, GetNamespaceRecommendationSet env req]"
  by (simp add: container_list_empty namespace_list_200 namespace_row_200)

end
