(* ===== verification/Consumer.thy ===== *)
theory Consumer
  imports Poller
begin

text \<open>
  \<open>internal/kafka/consumer.go\<close>: the loop of \<open>StartConsumer\<close> around a handler, with the settings the clients are created
  with.  A topic partition is a list of messages; the consumer's state is the offset it reads next and the offset
  that is committed for its group.  Kafka's part is documented behaviour: committing a message sets the committed offset behind
  it, whatever came before; automatic commits may come at any time after a read; and a consumer that starts, or starts again
  after its process ended, reads from the committed offset.
\<close>

section \<open>Settings\<close>

datatype setting = SText string | SFlag bool | SNumber int

text \<open>The option with which a service overrides the configured \<open>KAFKA_AUTO_COMMIT\<close>.\<close>

definition auto_commit :: "config \<Rightarrow> bool list \<Rightarrow> bool" where
  "auto_commit cfg auto_commit_option =
     (case auto_commit_option of
        o1 # _ \<Rightarrow> if \<not> o1 then o1 else KafkaAutoCommit cfg
      | [] \<Rightarrow> KafkaAutoCommit cfg)"

definition consumer_settings :: "config \<Rightarrow> bool \<Rightarrow> (string \<times> setting) list" where
  "consumer_settings cfg ac =
     (if KafkaSASLMechanism cfg \<noteq> [] then
        [(''bootstrap.servers'', SText (KafkaBootstrapServers cfg)),
         (''group.id'', SText (KafkaConsumerGroupId cfg)),
         (''security.protocol'', SText (KafkaSecurityProtocol cfg)),
         (''sasl.mechanism'', SText (KafkaSASLMechanism cfg)),
         (''sasl.username'', SText (KafkaUsername cfg)),
         (''sasl.password'', SText (KafkaPassword cfg)),
         (''enable.auto.commit'', SFlag ac),
         (''go.logs.channel.enable'', SFlag True),
         (''allow.auto.create.topics'', SFlag True)]
        @ (if KafkaCA cfg \<noteq> [] then [(''ssl.ca.location'', SText (KafkaCA cfg))] else [])
      else
        [(''bootstrap.servers'', SText (KafkaBootstrapServers cfg)),
         (''group.id'', SText (KafkaConsumerGroupId cfg)),
         (''enable.auto.commit'', SFlag ac),
         (''go.logs.channel.enable'', SFlag True),
         (''allow.auto.create.topics'', SFlag True)])
     @ [(''session.timeout.ms'', SNumber 120000), (''heartbeat.interval.ms'', SNumber 30000)]"

definition producer_settings :: "config \<Rightarrow> (string \<times> setting) list" where
  "producer_settings cfg =
     (if KafkaSASLMechanism cfg \<noteq> [] then
        [(''bootstrap.servers'', SText (KafkaBootstrapServers cfg)),
         (''go.delivery.reports'', SFlag True),
         (''security.protocol'', SText (KafkaSecurityProtocol cfg)),
         (''sasl.mechanism'', SText (KafkaSASLMechanism cfg)),
         (''ssl.ca.location'', SText (KafkaCA cfg)),
         (''sasl.username'', SText (KafkaUsername cfg)),
         (''sasl.password'', SText (KafkaPassword cfg)),
         (''allow.auto.create.topics'', SFlag True)]
      else
        [(''bootstrap.servers'', SText (KafkaBootstrapServers cfg)),
         (''go.delivery.reports'', SFlag True),
         (''enable.auto.commit'', SFlag (KafkaAutoCommit cfg)),
         (''go.logs.channel.enable'', SFlag True),
         (''allow.auto.create.topics'', SFlag True)])"

section \<open>The loop\<close>

record consumer =
  co_pos :: nat
  co_committed :: nat
  co_history :: history

definition commit_ok :: "event \<Rightarrow> bool" where
  "commit_ok e = (e = CommitMessage None)"

text \<open>The state after the message at the position has been handled with the events \<open>es\<close>.\<close>

definition delivered :: "event list \<Rightarrow> consumer \<Rightarrow> consumer" where
  "delivered es s = \<lparr>co_pos = Suc (co_pos s),
     co_committed = (if list_ex commit_ok es then Suc (co_pos s) else co_committed s), co_history = co_history s @ es\<rparr>"

text \<open>The process ends and is started again.\<close>

definition restarted :: "consumer \<Rightarrow> consumer" where
  "restarted s = s\<lparr>co_pos := co_committed s\<rparr>"

text \<open>\<open>consumer_run auto handler msgs s ds s'\<close>: from \<open>s\<close> the consumer gets to \<open>s'\<close> with the deliveries \<open>ds\<close>, each an offset
  and the events of its handling.  An automatic commit may also come while a message is handled, before the process crashes.
  Timeouts and consumer errors leave the state as it is.\<close>

inductive consumer_run ::
  "bool \<Rightarrow> ('m \<Rightarrow> unit prog) \<Rightarrow> 'm list \<Rightarrow> consumer \<Rightarrow> (nat \<times> event list) list \<Rightarrow> consumer \<Rightarrow> bool"
  for auto handler msgs s where
  Start: "consumer_run auto handler msgs s [] s"
| Message: "consumer_run auto handler msgs s ds s' \<Longrightarrow> co_pos s' < length msgs \<Longrightarrow>
    handler (msgs ! co_pos s') (co_history s') = (Done (), es) \<Longrightarrow>
    consumer_run auto handler msgs s (ds @ [(co_pos s', es)]) (delivered es s')"
| Crash: "consumer_run auto handler msgs s ds s' \<Longrightarrow> co_pos s' < length msgs \<Longrightarrow>
    handler (msgs ! co_pos s') (co_history s') = (Crashed c, es) \<Longrightarrow>
    consumer_run auto handler msgs s (ds @ [(co_pos s', es)]) (restarted (delivered es s'))"
| CrashCommitted: "consumer_run auto handler msgs s ds s' \<Longrightarrow> auto \<Longrightarrow> co_pos s' < length msgs \<Longrightarrow>
    handler (msgs ! co_pos s') (co_history s') = (Crashed c, es) \<Longrightarrow>
    consumer_run auto handler msgs s (ds @ [(co_pos s', es)]) (restarted ((delivered es s')\<lparr>co_committed := Suc (co_pos s')\<rparr>))"
| AutoCommit: "consumer_run auto handler msgs s ds s' \<Longrightarrow> auto \<Longrightarrow>
    consumer_run auto handler msgs s ds (s'\<lparr>co_committed := co_pos s'\<rparr>)"
| Restart: "consumer_run auto handler msgs s ds s' \<Longrightarrow> consumer_run auto handler msgs s ds (restarted s')"

section \<open>Offsets\<close>

definition offsets_ok :: "'m list \<Rightarrow> consumer \<Rightarrow> bool" where
  "offsets_ok msgs s = (co_committed s \<le> co_pos s \<and> co_pos s \<le> length msgs)"

lemma offsets_ok_step:
  assumes "offsets_ok msgs s"
  shows "co_pos s < length msgs \<Longrightarrow> offsets_ok msgs (delivered es s)" "offsets_ok msgs (restarted s)"
    "offsets_ok msgs (s\<lparr>co_committed := co_pos s\<rparr>)"
  using assms by (simp_all add: offsets_ok_def delivered_def restarted_def)

lemma committed_grows:
  assumes "offsets_ok msgs s"
  shows "co_committed s \<le> co_committed (delivered es s)" "co_committed (restarted s) = co_committed s"
    "co_committed s \<le> co_committed (s\<lparr>co_committed := co_pos s\<rparr>)"
  using assms by (simp_all add: offsets_ok_def delivered_def restarted_def)

lemma run_offsets:
  "consumer_run auto handler msgs s ds s' \<Longrightarrow> offsets_ok msgs s \<Longrightarrow> offsets_ok msgs s' \<and> co_committed s \<le> co_committed s'"
proof (induction rule: consumer_run.induct)
  case (Message ds s' es)
  then show ?case using offsets_ok_step(1) [of msgs s' es] committed_grows(1) [of msgs s' es] by simp
next
  case (Crash ds s' c es)
  then show ?case
    using offsets_ok_step(1) [of msgs s' es] committed_grows(1) [of msgs s' es] offsets_ok_step(2) [of msgs "delivered es s'"]
      committed_grows(2) [of msgs "delivered es s'"] by simp
next
  case (CrashCommitted ds s' c es)
  then show ?case by (simp add: offsets_ok_def restarted_def)
next
  case (AutoCommit ds s')
  then show ?case using offsets_ok_step(3) [of msgs s'] committed_grows(3) [of msgs s'] by simp
next
  case (Restart ds s')
  then show ?case using offsets_ok_step(2) [of msgs s'] committed_grows(2) [of msgs s'] by simp
qed simp

text \<open>What is committed is not delivered again.\<close>

lemma run_delivers:
  "consumer_run auto handler msgs s ds s' \<Longrightarrow> offsets_ok msgs s \<Longrightarrow> list_all (\<lambda>(i, es). co_committed s \<le> i) ds"
proof (induction rule: consumer_run.induct)
  case (Message ds s' es)
  then show ?case using run_offsets [OF Message.hyps(1)] by (simp add: offsets_ok_def)
next
  case (Crash ds s' c es)
  then show ?case using run_offsets [OF Crash.hyps(1)] by (simp add: offsets_ok_def)
next
  case (CrashCommitted ds s' c es)
  then show ?case using run_offsets [OF CrashCommitted.hyps(1)] by (simp add: offsets_ok_def)
qed simp_all

text \<open>A commit in a delivery lifts the committed offset behind it, for good.\<close>

lemma run_commits:
  "consumer_run auto handler msgs s ds s' \<Longrightarrow> offsets_ok msgs s \<Longrightarrow>
    list_all (\<lambda>(i, es). list_ex commit_ok es \<longrightarrow> i < co_committed s') ds"
proof (induction rule: consumer_run.induct)
  case (Message ds s' es)
  have "co_committed s' \<le> co_committed (delivered es s')"
    using run_offsets [OF Message.hyps(1) Message.prems] committed_grows(1) [of msgs s' es] by blast
  then show ?case using Message by (fastforce simp: list_all_iff delivered_def)
next
  case (Crash ds s' c es)
  have "co_committed s' \<le> co_committed (restarted (delivered es s'))"
    using run_offsets [OF Crash.hyps(1) Crash.prems] committed_grows(1) [of msgs s' es] by (simp add: restarted_def)
  then show ?case using Crash by (fastforce simp: list_all_iff delivered_def restarted_def)
next
  case (CrashCommitted ds s' c es)
  then show ?case using run_offsets [OF CrashCommitted.hyps(1)] by (fastforce simp: list_all_iff offsets_ok_def restarted_def)
next
  case (AutoCommit ds s')
  then show ?case using run_offsets [OF AutoCommit.hyps(1)] by (fastforce simp: list_all_iff offsets_ok_def)
qed (simp_all add: restarted_def)

text \<open>Every delivery is an execution of the handler.\<close>

lemma run_handles:
  "consumer_run auto handler msgs s ds s' \<Longrightarrow> list_all (\<lambda>(i, es). \<exists>h r. handler (msgs ! i) h = (r, es)) ds"
  by (induction rule: consumer_run.induct) auto

text \<open>The consumer of recommendation requests turns automatic commits off, whatever the configuration says.\<close>

lemma poller_commits_manually: "\<not> auto_commit cfg [False]"
  by (simp add: auto_commit_def)

text \<open>C17: A request that failed is not handled again once a later request of its partition has been committed: it is never
  delivered again, although its delivery left no trace in the tables.\<close>

theorem failed_request_lost:
  assumes "offsets_ok msgs s" "consumer_run (auto_commit cfg [False]) (PollForRecommendations w) msgs s ds s'"
    and "(i, es) \<in> set ds" "\<not> list_ex is_commit es" "(j, es') \<in> set ds" "list_ex commit_ok es'" "i < j"
    and "consumer_run (auto_commit cfg [False]) (PollForRecommendations w) msgs s' ds' s''"
  shows "list_all (\<lambda>(k, _). k \<noteq> i) ds' \<and> db_after es (t, None) = (t, None)"
proof
  have ok: "offsets_ok msgs s'" using run_offsets [OF assms(2,1)] by blast
  have "j < co_committed s'" using run_commits [OF assms(2,1)] assms(5,6) by (auto simp: list_all_iff)
  with run_delivers [OF assms(8) ok] assms(7) show "list_all (\<lambda>(k, _). k \<noteq> i) ds'" by (auto simp: list_all_iff)
next
  obtain h r where "PollForRecommendations w (msgs ! i) h = (r, es)"
    using run_handles [OF assms(2)] assms(3) by (auto simp: list_all_iff)
  with satD [OF PollForRecommendations_ok this] assms(4) show "db_after es (t, None) = (t, None)" by (simp add: poll_ok_def)
qed

text \<open>A consumer that starts at a committed offset keeps its committed offset at or before its position, never lowers it, and
  never delivers a message again that it committed.\<close>

theorem consumer_offsets:
  assumes "offsets_ok msgs s" "consumer_run auto handler msgs s ds s'" "consumer_run auto handler msgs s' ds' s''"
  shows "offsets_ok msgs s' \<and> co_committed s \<le> co_committed s'
    \<and> list_all (\<lambda>(i, es). list_ex commit_ok es \<longrightarrow> list_all (\<lambda>(k, _). k \<noteq> i) ds') ds"
proof -
  have ok: "offsets_ok msgs s'" "co_committed s \<le> co_committed s'" using run_offsets [OF assms(2,1)] by auto
  have "list_all (\<lambda>(k, _). co_committed s' \<le> k) ds'" by (rule run_delivers [OF assms(3) ok(1)])
  with run_commits [OF assms(2,1)] ok show ?thesis by (fastforce simp: list_all_iff)
qed

text \<open>A run: Kruize does not answer the first request, and the second one is no request at all.\<close>

definition lost_request :: RecommendationKafkaMsg where
  "lost_request = \<lparr>km_request_id = ''r1'', km_metadata = \<lparr>md_org_id = ''org1'', md_workload_id = 7, md_experiment_name = ''exp'',
     md_max_endtime_report = go_zero_time, md_experiment_type = ''container''\<rparr>\<rparr>"

definition lost_world :: world where
  "lost_world = example_world\<lparr>w_http := (\<lambda>_. Inl ''timeout''), w_decode_request := (\<lambda>_. Inr lost_request)\<rparr>"

definition lost_messages :: "json option list" where
  "lost_messages = [Some JNull, None]"

definition start_state :: consumer where
  "start_state = \<lparr>co_pos = 0, co_committed = 0, co_history = []\<rparr>"

definition first_events :: "event list" where
  "first_events = snd (PollForRecommendations lost_world (Some JNull) [])"

lemma first_delivery:
  "PollForRecommendations lost_world (Some JNull) [] = (Done (), first_events)" "\<not> list_ex is_commit first_events"
  by code_simp+

lemma second_delivery: "PollForRecommendations lost_world None h = (Done (), [CommitMessage None])"
  by (simp add: PollForRecommendations_def commitKafkaMsg_def andthen_def ask_def ret_def lost_world_def example_world_def)

lemma lost_run:
  "consumer_run auto (PollForRecommendations lost_world) lost_messages start_state [(0, first_events), (1, [CommitMessage None])]
    \<lparr>co_pos = 2, co_committed = 2, co_history = first_events @ [CommitMessage None]\<rparr>"
proof -
  have "\<not> list_ex commit_ok first_events"
    using first_delivery(2) by (auto simp: list_ex_iff commit_ok_def is_commit_def split: event.splits)
  then have d: "delivered first_events start_state = \<lparr>co_pos = 1, co_committed = 0, co_history = first_events\<rparr>"
    by (simp add: delivered_def start_state_def)
  have "consumer_run auto (PollForRecommendations lost_world) lost_messages start_state ([] @ [(co_pos start_state, first_events)])
      (delivered first_events start_state)"
    by (rule consumer_run.Message [OF consumer_run.Start]) (simp_all add: start_state_def lost_messages_def first_delivery)
  then have 1: "consumer_run auto (PollForRecommendations lost_world) lost_messages start_state [(0, first_events)]
      \<lparr>co_pos = 1, co_committed = 0, co_history = first_events\<rparr>" (is "consumer_run _ _ _ _ _ ?s")
    unfolding d by (simp add: start_state_def)
  have "consumer_run auto (PollForRecommendations lost_world) lost_messages start_state
      ([(0, first_events)] @ [(co_pos ?s, [CommitMessage None])]) (delivered [CommitMessage None] ?s)"
    by (rule consumer_run.Message [OF 1]) (simp_all add: lost_messages_def second_delivery)
  then show ?thesis by (simp add: delivered_def commit_ok_def numeral_2_eq_2)
qed

lemma start_ok: "offsets_ok lost_messages start_state"
  by (simp add: offsets_ok_def lost_messages_def start_state_def)

abbreviation "lost_deliveries \<equiv> [(0, first_events), (1 :: nat, [CommitMessage None])]"

abbreviation lost_state :: consumer where
  "lost_state \<equiv> \<lparr>co_pos = 2, co_committed = 2, co_history = first_events @ [CommitMessage None]\<rparr>"

theorem failed_request_lost_witness:
  "consumer_run (auto_commit example_config [False]) (PollForRecommendations lost_world) lost_messages start_state lost_deliveries lost_state
   \<and> db_after first_events (no_tables, None) = (no_tables, None)"
proof -
  have "list_all (\<lambda>(k, _). k \<noteq> 0) ([] :: (nat \<times> event list) list) \<and> db_after first_events (no_tables, None) = (no_tables, None)"
    by (rule failed_request_lost [where i = 0 and j = 1 and es' = "[CommitMessage None]" and cfg = example_config,
          OF start_ok lost_run _ first_delivery(2) _ _ _ consumer_run.Start])
      (simp_all add: commit_ok_def)
  with lost_run show ?thesis by blast
qed

theorem consumer_offsets_witness:
  "offsets_ok lost_messages lost_state \<and> co_committed start_state \<le> co_committed lost_state
    \<and> list_all (\<lambda>(i, es). list_ex commit_ok es \<longrightarrow> list_all (\<lambda>(k, _). k \<noteq> i) ([] :: (nat \<times> event list) list)) lost_deliveries"
  by (rule consumer_offsets [OF start_ok lost_run [of True] consumer_run.Start])

end
