(* ===== verification/Settings.thy ===== *)
theory Settings
  imports Effects
begin

text \<open>
  \<open>internal/config/config.go\<close>: how the settings are put together.  The code is a sequence of calls to viper, some of which
  depend on values read back in between, so it is modelled as the list of calls made so far.  What viper answers after a list of
  calls, its conversions, and clowder's configuration of the application are parameters; \<open>viper_ok\<close> is viper's documented
  order: an explicit \<open>Set\<close>, then the environment, then the default that was set last.
\<close>

section \<open>Viper and clowder\<close>

text \<open>A value handed to viper; \<open>VRef\<close> is a pointer to a string, possibly nil.\<close>

datatype setting_value = VText string | VInt int | VBool bool | VRef "string option"

datatype viper_call =
    AutomaticEnv
  | SetDefault string setting_value
  | Override string setting_value
  | BindEnv string "string list"

text \<open>\<open>v_get\<close> is \<open>viper.Get\<close>; \<open>v_string\<close>, \<open>v_int\<close> are the conversions of \<open>GetString\<close>, \<open>GetInt\<close>; \<open>v_unmarshal\<close> is the
  value \<open>viper.Unmarshal\<close> has for a key and \<open>v_text\<close>, \<open>v_number\<close>, \<open>v_flag\<close> decode it into a field; \<open>v_struct_keys\<close> are the keys
  that \<open>mapstructure.Decode\<close> makes of the configuration, a nil pointer at that time.\<close>

record viper =
  v_get :: "viper_call list \<Rightarrow> string \<Rightarrow> setting_value option"
  v_string :: "setting_value option \<Rightarrow> string"
  v_int :: "setting_value option \<Rightarrow> int"
  v_unmarshal :: "viper_call list \<Rightarrow> string \<Rightarrow> setting_value option"
  v_text :: "setting_value \<Rightarrow> string option"
  v_number :: "setting_value \<Rightarrow> int option"
  v_flag :: "setting_value \<Rightarrow> bool option"
  v_struct_keys :: "string list"

record clowder_sasl =
  cs_username :: "string option"
  cs_password :: "string option"
  cs_mechanism :: "string option"
  cs_protocol :: "string option"

record clowder_broker =
  cb_authtype :: "string option"
  cb_cacert :: "string option"
  cb_sasl :: "clowder_sasl option"

record clowder_endpoint =
  ce_app :: string
  ce_hostname :: string
  ce_port :: int

record clowder_database =
  cd_name :: string
  cd_username :: string
  cd_password :: string
  cd_hostname :: string
  cd_port :: int
  cd_sslmode :: string
  cd_rdsca :: "string option"

record clowder_cloudwatch =
  cw_loggroup :: string
  cw_region :: string
  cw_accesskey :: string
  cw_secretkey :: string

record clowder_flags =
  cf_token :: "string option"
  cf_hostname :: string
  cf_scheme :: string
  cf_port :: int

text \<open>Nil pointers are \<open>None\<close>; a nil Kafka configuration has no brokers, and \<open>ca_kafka_ca\<close> is \<open>None\<close> for its error.\<close>

record clowder_app =
  ca_brokers :: "clowder_broker list"
  ca_servers :: "string list"
  ca_topic :: "string \<Rightarrow> string"
  ca_kafka_ca :: "clowder_broker \<Rightarrow> string option"
  ca_database :: "clowder_database option"
  ca_endpoints :: "clowder_endpoint list"
  ca_cloudwatch :: "clowder_cloudwatch option"
  ca_metrics_port :: int
  ca_flags :: "clowder_flags option"

section \<open>Putting the settings together\<close>

definition get_string :: "viper \<Rightarrow> viper_call list \<Rightarrow> string \<Rightarrow> string" where
  "get_string V calls k = v_string V (v_get V calls k)"

definition get_int :: "viper \<Rightarrow> viper_call list \<Rightarrow> string \<Rightarrow> int" where
  "get_int V calls k = v_int V (v_get V calls k)"

text \<open>\<open>Sprintf("%s://%s:%d/api/", ...)\<close> of what viper has at that point.\<close>

definition unleash_url :: "viper \<Rightarrow> viper_call list \<Rightarrow> string" where
  "unleash_url V calls =
     get_string V calls ''UnleashScheme'' @ ''://'' @ get_string V calls ''UnleashHostname'' @ '':''
       @ itoa (get_int V calls ''UnleashPort'') @ ''/api/''"

definition sasl_calls :: "clowder_broker \<Rightarrow> viper_call list option" where
  "sasl_calls broker =
     (if cb_authtype broker = None then Some []
      else map_option (\<lambda>sasl.
        [Override ''KafkaUsername'' (VRef (cs_username sasl)),
         Override ''KafkaPassword'' (VRef (cs_password sasl)),
         Override ''KafkaSASLMechanism'' (VRef (cs_mechanism sasl)),
         Override ''KafkaSecurityProtocol'' (VRef (cs_protocol sasl))]) (cb_sasl broker))"

definition ca_calls :: "clowder_app \<Rightarrow> clowder_broker \<Rightarrow> viper_call list option" where
  "ca_calls c broker =
     (if cb_cacert broker = None then Some []
      else map_option (\<lambda>caPath. [Override ''KafkaCA'' (VText caPath)]) (ca_kafka_ca c broker))"

definition database_calls :: "clowder_database \<Rightarrow> viper_call list" where
  "database_calls d =
     [SetDefault ''DBName'' (VText (cd_name d)),
      SetDefault ''DBUser'' (VText (cd_username d)),
      SetDefault ''DBPassword'' (VText (cd_password d)),
      SetDefault ''DBHost'' (VText (cd_hostname d)),
      SetDefault ''DBPort'' (VInt (cd_port d)),
      SetDefault ''DBssl'' (VText (cd_sslmode d)),
      SetDefault ''DBCACert'' (VRef (cd_rdsca d))]"

definition endpoint_calls :: "clowder_endpoint \<Rightarrow> viper_call list" where
  "endpoint_calls e =
     (if ce_app e = ''rbac'' then
        [SetDefault ''RBACHost'' (VText (ce_hostname e)),
         SetDefault ''RBACPort'' (VInt (ce_port e)),
         SetDefault ''RBACProtocol'' (VText ''http''),
         SetDefault ''RBAC_ENABLE'' (VBool True)]
      else if ce_app e = ''sources-api'' then
        [SetDefault ''SOURCES_API_BASE_URL'' (VText (''http://'' @ ce_hostname e @ '':'' @ itoa (ce_port e)))]
      else [])"

definition cloudwatch_calls :: "clowder_cloudwatch \<Rightarrow> viper_call list" where
  "cloudwatch_calls w =
     [SetDefault ''CwLogGroup'' (VText (cw_loggroup w)),
      SetDefault ''CwRegion'' (VText (cw_region w)),
      SetDefault ''CwAccessKey'' (VText (cw_accesskey w)),
      SetDefault ''CwSecretKey'' (VText (cw_secretkey w)),
      SetDefault ''CW_LOG_STREAM_NAME'' (VText ''rosocp'')]"

text \<open>The token's pointer is dereferenced.\<close>

definition flags_calls :: "viper \<Rightarrow> viper_call list \<Rightarrow> clowder_flags option \<Rightarrow> viper_call list option" where
  "flags_calls V calls flags =
     (case flags of
        None \<Rightarrow> Some []
      | Some f \<Rightarrow> map_option (\<lambda>token.
          let cs = [SetDefault ''UnleashClientAccessToken'' (VText token),
                    SetDefault ''UnleashHostname'' (VText (cf_hostname f)),
                    SetDefault ''UnleashScheme'' (VText (cf_scheme f)),
                    SetDefault ''UnleashPort'' (VInt (cf_port f))]
          in cs @ [SetDefault ''UnleashFullURL'' (VText (unleash_url V (calls @ cs)))]) (cf_token f))"

text \<open>The branch taken under clowder; \<open>None\<close> when it panics.\<close>

definition clowder_calls :: "viper \<Rightarrow> clowder_app \<Rightarrow> viper_call list option" where
  "clowder_calls V c =
     (case ca_brokers c of
        [] \<Rightarrow> None
      | broker # _ \<Rightarrow>
     (case sasl_calls broker of None \<Rightarrow> None | Some sasl \<Rightarrow>
     (case ca_calls c broker of None \<Rightarrow> None | Some ca \<Rightarrow>
     (case ca_database c of None \<Rightarrow> None | Some d \<Rightarrow>
     (case ca_cloudwatch c of None \<Rightarrow> None | Some w \<Rightarrow>
        (let calls =
           [AutomaticEnv,
            SetDefault ''LogFormater'' (VText ''json''),
            SetDefault ''KAFKA_BOOTSTRAP_SERVERS'' (VText (join '','' (ca_servers c))),
            SetDefault ''UPLOAD_TOPIC'' (VText (ca_topic c ''hccm.ros.events'')),
            SetDefault ''RECOMMENDATION_TOPIC'' (VText (ca_topic c ''rosocp.kruize.recommendations'')),
            SetDefault ''SOURCES_EVENT_TOPIC'' (VText (ca_topic c ''platform.sources.event-stream''))]
           @ sasl @ ca @ database_calls d @ concat (map endpoint_calls (ca_endpoints c)) @ cloudwatch_calls w
           @ [SetDefault ''PROMETHEUS_PORT'' (VInt (ca_metrics_port c))]
         in map_option (\<lambda>fs. calls @ fs) (flags_calls V calls (ca_flags c))))))))"

definition local_calls :: "viper_call list" where
  "local_calls =
     [AutomaticEnv,
      SetDefault ''LogFormater'' (VText ''text''),
      AutomaticEnv,
      SetDefault ''KAFKA_BOOTSTRAP_SERVERS'' (VText ''localhost:29092''),
      SetDefault ''UPLOAD_TOPIC'' (VText ''hccm.ros.events''),
      SetDefault ''RECOMMENDATION_TOPIC'' (VText ''rosocp.kruize.recommendations''),
      SetDefault ''SOURCES_EVENT_TOPIC'' (VText ''platform.sources.event-stream''),
      BindEnv ''DBHost'' [''DB_HOST''],
      SetDefault ''DBHost'' (VText ''localhost''),
      BindEnv ''DBPort'' [''DB_PORT''],
      SetDefault ''DBPort'' (VText ''15432''),
      BindEnv ''DBName'' [''DB_NAME''],
      SetDefault ''DBName'' (VText ''postgres''),
      BindEnv ''DBUser'' [''DB_USER''],
      SetDefault ''DBUser'' (VText ''postgres''),
      BindEnv ''DBPassword'' [''DB_PASSWORD''],
      SetDefault ''DBPassword'' (VText ''postgres''),
      BindEnv ''DBssl'' [''DB_SSL''],
      SetDefault ''DBssl'' (VText ''disable''),
      BindEnv ''DBCACert'' [''DB_CA_CERT''],
      SetDefault ''DBCACert'' (VText []),
      SetDefault ''RBACHost'' (VText ''localhost''),
      SetDefault ''RBACPort'' (VText ''9080''),
      SetDefault ''RBACProtocol'' (VText ''http''),
      SetDefault ''RBAC_ENABLE'' (VBool False),
      SetDefault ''PROMETHEUS_PORT'' (VText ''5005''),
      SetDefault ''SOURCES_API_BASE_URL'' (VText ''http://127.0.0.1:8002'')]"

definition common_defaults :: "viper_call list" where
  "common_defaults =
     [SetDefault ''SOURCES_API_PREFIX'' (VText ''/api/sources/v3.1''),
      SetDefault ''SERVICE_NAME'' (VText ''rosocp''),
      SetDefault ''API_PORT'' (VText ''8000''),
      SetDefault ''KRUIZE_WAIT_TIME'' (VText ''30''),
      SetDefault ''KRUIZE_MAX_BULK_CHUNK_SIZE'' (VInt 100),
      SetDefault ''KAFKA_CONSUMER_GROUP_ID'' (VText ''ros-ocp''),
      SetDefault ''KAFKA_AUTO_COMMIT'' (VBool True),
      SetDefault ''LOG_LEVEL'' (VText ''INFO''),
      SetDefault ''KRUIZE_HOST'' (VText ''localhost''),
      SetDefault ''KRUIZE_PORT'' (VText ''8080'')]"

definition kruize_url :: "viper \<Rightarrow> viper_call list \<Rightarrow> string" where
  "kruize_url V calls = ''http://'' @ get_string V calls ''KRUIZE_HOST'' @ '':'' @ get_string V calls ''KRUIZE_PORT''"

definition service_defaults :: "viper_call list" where
  "service_defaults =
     [SetDefault ''KRUIZE_PERFORMANCE_PROFILE_VERSION'' (VText ''v2.0''),
      SetDefault ''RECOMMENDATION_POLL_INTERVAL_HOURS'' (VInt 24),
      SetDefault ''DATA_RETENTION_PERIOD'' (VInt 15),
      SetDefault ''READ_HEADER_TIMEOUT'' (VInt 15),
      SetDefault ''RECORD_LIMIT_CSV'' (VInt 1000),
      SetDefault ''CSV_STREAM_INTERVAL'' (VInt 100),
      SetDefault ''DISABLE_NAMESPACE_RECOMMENDATION'' (VBool True),
      SetDefault ''MAXIMUM_COUNT_PER_QUERY_PARAM'' (VInt 5),
      SetDefault ''GLOBAL_HTTP_CLIENT_TIMEOUT_SECS'' (VInt 30)]"

definition unleash_defaults :: "viper_call list" where
  "unleash_defaults =
     [SetDefault ''UnleashClientAccessToken'' (VText ''rosocp:dev.token''),
      SetDefault ''UnleashHostname'' (VText ''0.0.0.0''),
      SetDefault ''UnleashScheme'' (VText ''http''),
      SetDefault ''UnleashPort'' (VInt 3063)]"

text \<open>The defaults set after either branch, then the loop that binds the keys of the struct.\<close>

definition later_calls :: "viper \<Rightarrow> viper_call list \<Rightarrow> viper_call list" where
  "later_calls V calls =
     (let c1 = calls @ common_defaults;
          c2 = c1 @ [SetDefault ''KRUIZE_URL'' (VText (kruize_url V c1))] @ service_defaults @ unleash_defaults
      in c2 @ [SetDefault ''UnleashFullURL'' (VText (unleash_url V c2))] @ map (\<lambda>k. BindEnv k []) (v_struct_keys V))"

section \<open>Unmarshalling\<close>

definition text_keys :: "string list" where
  "text_keys =
    [
     ''SERVICE_NAME'', ''LogFormater'', ''LOG_LEVEL'', ''KAFKA_BOOTSTRAP_SERVERS'',
     ''KAFKA_CONSUMER_GROUP_ID'', ''UPLOAD_TOPIC'', ''RECOMMENDATION_TOPIC'', ''SOURCES_EVENT_TOPIC'',
     ''KafkaUsername'', ''KafkaPassword'', ''KafkaSASLMechanism'', ''KafkaSecurityProtocol'', ''KafkaCA'',
     ''KRUIZE_URL'', ''KRUIZE_WAIT_TIME'', ''KRUIZE_PERFORMANCE_PROFILE_VERSION'', ''DBName'', ''DBUser'',
     ''DBPassword'', ''DBHost'', ''DBPort'', ''DBssl'', ''DBCACert'', ''RBACHost'', ''RBACPort'',
     ''RBACProtocol'', ''API_PORT'', ''CwLogGroup'', ''CwRegion'', ''CwAccessKey'', ''CwSecretKey'',
     ''CW_LOG_STREAM_NAME'', ''PROMETHEUS_PORT'', ''SOURCES_API_BASE_URL'', ''SOURCES_API_PREFIX'',
     ''UnleashClientAccessToken'', ''UnleashHostname'', ''UnleashScheme'', ''UnleashFullURL'']"

definition number_keys :: "string list" where
  "number_keys =
    [
     ''RECOMMENDATION_POLL_INTERVAL_HOURS'', ''DATA_RETENTION_PERIOD'', ''READ_HEADER_TIMEOUT'',
     ''RECORD_LIMIT_CSV'', ''CSV_STREAM_INTERVAL'', ''MAXIMUM_COUNT_PER_QUERY_PARAM'',
     ''GLOBAL_HTTP_CLIENT_TIMEOUT_SECS'', ''KRUIZE_MAX_BULK_CHUNK_SIZE'', ''UnleashPort'']"

definition flag_keys :: "string list" where
  "flag_keys = [''KAFKA_AUTO_COMMIT'', ''RBAC_ENABLE'', ''DISABLE_NAMESPACE_RECOMMENDATION'']"

text \<open>The struct with its keys: a field's tag, or its name where it has none.\<close>

definition config_of :: "(string \<Rightarrow> string) \<Rightarrow> (string \<Rightarrow> int) \<Rightarrow> (string \<Rightarrow> bool) \<Rightarrow> config" where
  "config_of t n b =
    \<lparr>
      ServiceName = t ''SERVICE_NAME'', LogFormater = t ''LogFormater'', LogLevel = t ''LOG_LEVEL'',
      RecommendationPollIntervalHours = n ''RECOMMENDATION_POLL_INTERVAL_HOURS'',
      DataRetentionPeriod = n ''DATA_RETENTION_PERIOD'', ReadHeaderTimeout = n ''READ_HEADER_TIMEOUT'',
      RecordLimitCSV = n ''RECORD_LIMIT_CSV'', CSVStreamInterval = n ''CSV_STREAM_INTERVAL'',
      MaxCountPerQueryParam = n ''MAXIMUM_COUNT_PER_QUERY_PARAM'',
      KafkaBootstrapServers = t ''KAFKA_BOOTSTRAP_SERVERS'',
      KafkaConsumerGroupId = t ''KAFKA_CONSUMER_GROUP_ID'', KafkaAutoCommit = b ''KAFKA_AUTO_COMMIT'',
      UploadTopic = t ''UPLOAD_TOPIC'', RecommendationTopic = t ''RECOMMENDATION_TOPIC'',
      SourcesEventTopic = t ''SOURCES_EVENT_TOPIC'', KafkaUsername = t ''KafkaUsername'',
      KafkaPassword = t ''KafkaPassword'', KafkaSASLMechanism = t ''KafkaSASLMechanism'',
      KafkaSecurityProtocol = t ''KafkaSecurityProtocol'', KafkaCA = t ''KafkaCA'',
      GlobalHTTPClientTimeoutSecs = n ''GLOBAL_HTTP_CLIENT_TIMEOUT_SECS'', KruizeUrl = t ''KRUIZE_URL'',
      KruizeWaitTime = t ''KRUIZE_WAIT_TIME'', KruizeMaxBulkChunkSize = n ''KRUIZE_MAX_BULK_CHUNK_SIZE'',
      KruizePerformanceProfileVersion = t ''KRUIZE_PERFORMANCE_PROFILE_VERSION'', DBName = t ''DBName'',
      DBUser = t ''DBUser'', DBPassword = t ''DBPassword'', DBHost = t ''DBHost'', DBPort = t ''DBPort'',
      DBssl = t ''DBssl'', DBCACert = t ''DBCACert'', RBACHost = t ''RBACHost'', RBACPort = t ''RBACPort'',
      RBACProtocol = t ''RBACProtocol'', RBACEnabled = b ''RBAC_ENABLE'', API_PORT = t ''API_PORT'',
      CwLogGroup = t ''CwLogGroup'', CwRegion = t ''CwRegion'', CwAccessKey = t ''CwAccessKey'',
      CwSecretKey = t ''CwSecretKey'', CwLogStream = t ''CW_LOG_STREAM_NAME'',
      PrometheusPort = t ''PROMETHEUS_PORT'', SourceApiBaseUrl = t ''SOURCES_API_BASE_URL'',
      SourceApiPrefix = t ''SOURCES_API_PREFIX'',
      DisableNamespaceRecommendation = b ''DISABLE_NAMESPACE_RECOMMENDATION'',
      UnleashClientAccessToken = t ''UnleashClientAccessToken'', UnleashHostname = t ''UnleashHostname'',
      UnleashPort = n ''UnleashPort'', UnleashScheme = t ''UnleashScheme'',
      UnleashFullURL = t ''UnleashFullURL''\<rparr>"

text \<open>A field whose key viper does not have keeps its zero value; a value that does not fit the field's type fails.\<close>

definition field :: "viper \<Rightarrow> (setting_value \<Rightarrow> 'a option) \<Rightarrow> 'a \<Rightarrow> viper_call list \<Rightarrow> string \<Rightarrow> 'a option" where
  "field V decode zero calls k = (case v_unmarshal V calls k of None \<Rightarrow> Some zero | Some v \<Rightarrow> decode v)"

definition unmarshal :: "viper \<Rightarrow> viper_call list \<Rightarrow> config option" where
  "unmarshal V calls =
     (if list_all (\<lambda>k. field V (v_text V) [] calls k \<noteq> None) text_keys
         \<and> list_all (\<lambda>k. field V (v_number V) 0 calls k \<noteq> None) number_keys
         \<and> list_all (\<lambda>k. field V (v_flag V) False calls k \<noteq> None) flag_keys
      then Some (config_of (\<lambda>k. the (field V (v_text V) [] calls k)) (\<lambda>k. the (field V (v_number V) 0 calls k))
                  (\<lambda>k. the (field V (v_flag V) False calls k)))
      else None)"

datatype config_outcome = ConfigReady config | ConfigPanic | ConfigExit

text \<open>\<open>clowder\<close> is \<open>None\<close> when clowder is not enabled.\<close>

definition initConfig :: "viper \<Rightarrow> clowder_app option \<Rightarrow> config_outcome" where
  "initConfig V clowder =
     (case (case clowder of None \<Rightarrow> Some local_calls | Some c \<Rightarrow> clowder_calls V c) of
        None \<Rightarrow> ConfigPanic
      | Some calls \<Rightarrow>
          (case unmarshal V (later_calls V calls) of None \<Rightarrow> ConfigExit | Some cfg \<Rightarrow> ConfigReady cfg))"

text \<open>The variable \<open>cfg\<close> is the state: once it is set it is returned as it is.\<close>

definition GetConfig :: "viper \<Rightarrow> clowder_app option \<Rightarrow> config option \<Rightarrow> config_outcome" where
  "GetConfig V clowder cfg = (case cfg of Some c \<Rightarrow> ConfigReady c | None \<Rightarrow> initConfig V clowder)"

section \<open>What viper promises\<close>

text \<open>Keys are compared without their case; an environment variable that is empty counts as unset, so \<open>env\<close> gives none.\<close>

definition upper_char :: "char \<Rightarrow> char" where
  "upper_char c =
     (if (97 :: nat) \<le> of_char c \<and> of_char c \<le> (122 :: nat) then char_of (of_char c - (32 :: nat)) else c)"

definition upper :: "string \<Rightarrow> string" where "upper s = map upper_char s"

fun override_of :: "viper_call \<Rightarrow> string \<Rightarrow> setting_value option" where
  "override_of (Override k' v) k = (if upper k' = upper k then Some v else None)"
| "override_of _ k = None"

fun default_of :: "viper_call \<Rightarrow> string \<Rightarrow> setting_value option" where
  "default_of (SetDefault k' v) k = (if upper k' = upper k then Some v else None)"
| "default_of _ k = None"

fun variables_of :: "viper_call \<Rightarrow> string \<Rightarrow> string list" where
  "variables_of (BindEnv k' es) k = (if upper k' = upper k then (if es = [] then [upper k] else es) else [])"
| "variables_of _ k = []"

fun mentions :: "viper_call \<Rightarrow> string \<Rightarrow> bool" where
  "mentions AutomaticEnv k = False"
| "mentions (SetDefault k' _) k = (upper k' = upper k)"
| "mentions (Override k' _) k = (upper k' = upper k)"
| "mentions (BindEnv k' _) k = (upper k' = upper k)"

fun first_some :: "('a \<Rightarrow> 'b option) \<Rightarrow> 'a list \<Rightarrow> 'b option" where
  "first_some f [] = None"
| "first_some f (x # xs) = (case f x of None \<Rightarrow> first_some f xs | Some y \<Rightarrow> Some y)"

definition env_value :: "(string \<Rightarrow> string option) \<Rightarrow> viper_call list \<Rightarrow> string \<Rightarrow> string option" where
  "env_value env calls k =
     first_some env ((if AutomaticEnv \<in> set calls then [upper k] else []) @ concat (map (\<lambda>c. variables_of c k) calls))"

definition documented_get :: "(string \<Rightarrow> string option) \<Rightarrow> viper_call list \<Rightarrow> string \<Rightarrow> setting_value option" where
  "documented_get env calls k =
     (case first_some (\<lambda>c. override_of c k) (rev calls) of
        Some v \<Rightarrow> Some v
      | None \<Rightarrow>
     (case env_value env calls k of
        Some s \<Rightarrow> Some (VText s)
      | None \<Rightarrow> first_some (\<lambda>c. default_of c k) (rev calls)))"

text \<open>\<open>Unmarshal\<close> knows the keys that were mentioned, not those that only the environment has.  Texts are converted by \<open>strconv\<close>,
  here \<open>num\<close> and \<open>bool\<close>.\<close>

fun text_of :: "setting_value \<Rightarrow> string" where
  "text_of (VText s) = s"
| "text_of (VInt i) = itoa i"
| "text_of (VBool b) = (if b then ''1'' else ''0'')"
| "text_of (VRef s) = (case s of None \<Rightarrow> [] | Some t \<Rightarrow> t)"

definition viper_ok :: "viper \<Rightarrow> (string \<Rightarrow> string option) \<Rightarrow> bool" where
  "viper_ok V env =
     ((\<forall>calls k. v_get V calls k = documented_get env calls k)
      \<and> (\<forall>calls k. v_unmarshal V calls k = (if list_ex (\<lambda>c. mentions c k) calls then documented_get env calls k else None))
      \<and> (\<forall>s. v_string V (Some (VText s)) = s) \<and> (\<forall>i. v_int V (Some (VInt i)) = i)
      \<and> (\<forall>v. v_text V v = Some (text_of v))
      \<and> (\<forall>i. v_number V (VInt i) = Some i) \<and> (\<forall>b. v_flag V (VBool b) = Some b)
      \<and> v_struct_keys V = [])"

section \<open>The settings outside clowder\<close>

text \<open>The keys the program uses.  No two of them differ in their case only, so they can be compared as they are.\<close>

definition setting_keys :: "string list" where
  "setting_keys =
    [
     ''UnleashScheme'', ''UnleashHostname'', ''UnleashPort'', ''KafkaUsername'', ''KafkaPassword'',
     ''KafkaSASLMechanism'', ''KafkaSecurityProtocol'', ''KafkaCA'', ''DBName'', ''DBUser'', ''DBPassword'',
     ''DBHost'', ''DBPort'', ''DBssl'', ''DBCACert'', ''RBACHost'', ''RBACPort'', ''RBACProtocol'',
     ''RBAC_ENABLE'', ''SOURCES_API_BASE_URL'', ''CwLogGroup'', ''CwRegion'', ''CwAccessKey'',
     ''CwSecretKey'', ''CW_LOG_STREAM_NAME'', ''UnleashClientAccessToken'', ''UnleashFullURL'',
     ''LogFormater'', ''KAFKA_BOOTSTRAP_SERVERS'', ''UPLOAD_TOPIC'', ''RECOMMENDATION_TOPIC'',
     ''SOURCES_EVENT_TOPIC'', ''PROMETHEUS_PORT'', ''SOURCES_API_PREFIX'', ''SERVICE_NAME'', ''API_PORT'',
     ''KRUIZE_WAIT_TIME'', ''KRUIZE_MAX_BULK_CHUNK_SIZE'', ''KAFKA_CONSUMER_GROUP_ID'',
     ''KAFKA_AUTO_COMMIT'', ''LOG_LEVEL'', ''KRUIZE_HOST'', ''KRUIZE_PORT'',
     ''KRUIZE_PERFORMANCE_PROFILE_VERSION'', ''RECOMMENDATION_POLL_INTERVAL_HOURS'',
     ''DATA_RETENTION_PERIOD'', ''READ_HEADER_TIMEOUT'', ''RECORD_LIMIT_CSV'', ''CSV_STREAM_INTERVAL'',
     ''DISABLE_NAMESPACE_RECOMMENDATION'', ''MAXIMUM_COUNT_PER_QUERY_PARAM'',
     ''GLOBAL_HTTP_CLIENT_TIMEOUT_SECS'', ''KRUIZE_URL'']"

lemmas char_value = char_of_def bit_Suc_0_iff

lemma distinct_upper: "distinct (map upper setting_keys)"
  by (simp add: setting_keys_def upper_def upper_char_def char_value)

lemma upper_eq: "k \<in> set setting_keys \<Longrightarrow> k' \<in> set setting_keys \<Longrightarrow> (upper k' = upper k) = (k' = k)"
  using distinct_upper by (auto simp: distinct_map inj_on_def)

lemma field_keys: "set text_keys \<subseteq> set setting_keys" "set number_keys \<subseteq> set setting_keys" "set flag_keys \<subseteq> set setting_keys"
  by (simp_all add: text_keys_def number_keys_def flag_keys_def setting_keys_def)

fun call_key :: "viper_call \<Rightarrow> string option" where
  "call_key AutomaticEnv = None"
| "call_key (SetDefault k _) = Some k"
| "call_key (Override k _) = Some k"
| "call_key (BindEnv k _) = Some k"

definition known_keys :: "viper_call list \<Rightarrow> bool" where
  "known_keys calls = list_all (\<lambda>c. case call_key c of None \<Rightarrow> True | Some k \<Rightarrow> k \<in> set setting_keys) calls"

text \<open>The same with keys compared as they are.\<close>

fun override_at :: "string \<Rightarrow> viper_call \<Rightarrow> setting_value option" where
  "override_at k (Override k' v) = (if k' = k then Some v else None)"
| "override_at k _ = None"

fun default_at :: "string \<Rightarrow> viper_call \<Rightarrow> setting_value option" where
  "default_at k (SetDefault k' v) = (if k' = k then Some v else None)"
| "default_at k _ = None"

lemma first_some_cong: "(\<And>x. x \<in> set xs \<Longrightarrow> f x = g x) \<Longrightarrow> first_some f xs = first_some g xs"
  by (induction xs) (auto split: option.split)

lemma first_some_append: "first_some f (xs @ ys) = (case first_some f xs of None \<Rightarrow> first_some f ys | Some y \<Rightarrow> Some y)"
  by (induction xs) (auto split: option.split)

lemma first_some_none: "first_some f xs = None \<longleftrightarrow> list_all (\<lambda>x. f x = None) xs"
  by (induction xs) (auto split: option.split)

lemma known_call:
  assumes "known_keys calls" "c \<in> set calls" "k \<in> set setting_keys"
  shows "override_of c k = override_at k c" "default_of c k = default_at k c" "mentions c k = (call_key c = Some k)"
  using assms by (cases c; auto simp: known_keys_def list_all_iff upper_eq)+

lemma documented_known:
  assumes "known_keys calls" "k \<in> set setting_keys"
  shows "documented_get env calls k =
    (case first_some (override_at k) (rev calls) of
       Some v \<Rightarrow> Some v
     | None \<Rightarrow>
    (case env_value env calls k of
       Some s \<Rightarrow> Some (VText s)
     | None \<Rightarrow> first_some (default_at k) (rev calls)))"
    "list_ex (\<lambda>c. mentions c k) calls = list_ex (\<lambda>c. call_key c = Some k) calls"
proof -
  have "first_some (\<lambda>c. override_of c k) (rev calls) = first_some (override_at k) (rev calls)"
    "first_some (\<lambda>c. default_of c k) (rev calls) = first_some (default_at k) (rev calls)"
    using known_call [OF assms(1) _ assms(2)] by (auto intro!: first_some_cong)
  then show "documented_get env calls k =
    (case first_some (override_at k) (rev calls) of
       Some v \<Rightarrow> Some v
     | None \<Rightarrow>
    (case env_value env calls k of
       Some s \<Rightarrow> Some (VText s)
     | None \<Rightarrow> first_some (default_at k) (rev calls)))"
    by (simp only: documented_get_def)
  show "list_ex (\<lambda>c. mentions c k) calls = list_ex (\<lambda>c. call_key c = Some k) calls"
    using known_call(3) [OF assms(1) _ assms(2)] by (auto simp: list_ex_iff)
qed

definition local_settings :: "string \<Rightarrow> string \<Rightarrow> viper_call list" where
  "local_settings kruize unleash =
     local_calls @ common_defaults @ [SetDefault ''KRUIZE_URL'' (VText kruize)] @ service_defaults @ unleash_defaults
       @ [SetDefault ''UnleashFullURL'' (VText unleash)]"

lemma known_append [simp]:
  "known_keys (xs @ ys) = (known_keys xs \<and> known_keys ys)"
  "known_keys (SetDefault k v # ys) = (k \<in> set setting_keys \<and> known_keys ys)"
  "known_keys (Override k v # ys) = (k \<in> set setting_keys \<and> known_keys ys)"
  "known_keys (BindEnv k es # ys) = (k \<in> set setting_keys \<and> known_keys ys)"
  "known_keys (AutomaticEnv # ys) = known_keys ys"
  "known_keys []"
  by (simp_all add: known_keys_def)

lemma known_tail:
  "known_keys common_defaults" "known_keys service_defaults" "known_keys unleash_defaults" "known_keys local_calls"
  "''KRUIZE_URL'' \<in> set setting_keys" "''UnleashFullURL'' \<in> set setting_keys"
  by (simp_all add: common_defaults_def service_defaults_def unleash_defaults_def local_calls_def setting_keys_def)

lemma known_local: "known_keys (local_settings u v)"
  by (simp add: local_settings_def known_tail)

text \<open>A list of calls as three tables.\<close>

fun default_pairs :: "viper_call list \<Rightarrow> (string \<times> setting_value) list" where
  "default_pairs [] = []"
| "default_pairs (SetDefault k v # cs) = default_pairs cs @ [(k, v)]"
| "default_pairs (_ # cs) = default_pairs cs"

fun override_pairs :: "viper_call list \<Rightarrow> (string \<times> setting_value) list" where
  "override_pairs [] = []"
| "override_pairs (Override k v # cs) = override_pairs cs @ [(k, v)]"
| "override_pairs (_ # cs) = override_pairs cs"

fun bind_pairs :: "viper_call list \<Rightarrow> (string \<times> string list) list" where
  "bind_pairs [] = []"
| "bind_pairs (BindEnv k es # cs) = (k, es) # bind_pairs cs"
| "bind_pairs (_ # cs) = bind_pairs cs"

lemma pairs_append:
  "default_pairs (xs @ ys) = default_pairs ys @ default_pairs xs"
  "override_pairs (xs @ ys) = override_pairs ys @ override_pairs xs"
  "bind_pairs (xs @ ys) = bind_pairs xs @ bind_pairs ys"
proof -
  show "default_pairs (xs @ ys) = default_pairs ys @ default_pairs xs" by (induction xs rule: default_pairs.induct) simp_all
  show "override_pairs (xs @ ys) = override_pairs ys @ override_pairs xs" by (induction xs rule: override_pairs.induct) simp_all
  show "bind_pairs (xs @ ys) = bind_pairs xs @ bind_pairs ys" by (induction xs rule: bind_pairs.induct) simp_all
qed

fun variables_at :: "string \<Rightarrow> viper_call \<Rightarrow> string list" where
  "variables_at k (BindEnv k' es) = (if k' = k then (if es = [] then [upper k] else es) else [])"
| "variables_at k _ = []"

definition bound_variables :: "(string \<times> string list) list \<Rightarrow> string \<Rightarrow> string list" where
  "bound_variables ps k = concat (map (\<lambda>(k', es). if k' = k then (if es = [] then [upper k] else es) else []) ps)"

lemma pairs_lookup:
  "first_some (default_at k) (rev cs) = map_of (default_pairs cs) k"
  "first_some (override_at k) (rev cs) = map_of (override_pairs cs) k"
  "concat (map (variables_at k) cs) = bound_variables (bind_pairs cs) k"
  "list_ex (\<lambda>c. call_key c = Some k) cs =
     (map_of (default_pairs cs) k \<noteq> None \<or> map_of (override_pairs cs) k \<noteq> None \<or> map_of (bind_pairs cs) k \<noteq> None)"
proof -
  show "first_some (default_at k) (rev cs) = map_of (default_pairs cs) k"
  proof (induction cs)
    case (Cons c cs)
    then show ?case by (cases c) (auto simp: first_some_append map_add_def split: option.split)
  qed simp
  show "first_some (override_at k) (rev cs) = map_of (override_pairs cs) k"
  proof (induction cs)
    case (Cons c cs)
    then show ?case by (cases c) (auto simp: first_some_append map_add_def split: option.split)
  qed simp
  show "concat (map (variables_at k) cs) = bound_variables (bind_pairs cs) k"
  proof (induction cs)
    case (Cons c cs)
    then show ?case by (cases c) (simp_all add: bound_variables_def)
  qed (simp add: bound_variables_def)
  show "list_ex (\<lambda>c. call_key c = Some k) cs =
     (map_of (default_pairs cs) k \<noteq> None \<or> map_of (override_pairs cs) k \<noteq> None \<or> map_of (bind_pairs cs) k \<noteq> None)"
  proof (induction cs)
    case (Cons c cs)
    then show ?case by (cases c) (auto simp: map_add_def split: option.splits)
  qed simp
qed

text \<open>Viper's answers in terms of the tables.\<close>

lemma env_value_known:
  assumes "known_keys calls" "k \<in> set setting_keys" "AutomaticEnv \<in> set calls"
  shows "env_value env calls k = first_some env (upper k # bound_variables (bind_pairs calls) k)"
proof -
  have "variables_of c k = variables_at k c" if "c \<in> set calls" for c
    using assms(1,2) that by (cases c) (auto simp: known_keys_def list_all_iff upper_eq)
  then have "concat (map (\<lambda>c. variables_of c k) calls) = concat (map (variables_at k) calls)"
    by (metis (no_types, lifting) map_eq_conv)
  then show ?thesis using assms(3) by (simp add: env_value_def pairs_lookup)
qed

lemma get_known:
  assumes "viper_ok V env" "known_keys calls" "k \<in> set setting_keys" "AutomaticEnv \<in> set calls"
  shows "v_get V calls k =
    (case map_of (override_pairs calls) k of
       Some v \<Rightarrow> Some v
     | None \<Rightarrow>
    (case first_some env (upper k # bound_variables (bind_pairs calls) k) of
       Some s \<Rightarrow> Some (VText s)
     | None \<Rightarrow> map_of (default_pairs calls) k))"
    "v_unmarshal V calls k =
      (if map_of (default_pairs calls) k \<noteq> None \<or> map_of (override_pairs calls) k \<noteq> None \<or> map_of (bind_pairs calls) k \<noteq> None
       then v_get V calls k else None)"
proof -
  have "v_get V calls k = documented_get env calls k"
    "v_unmarshal V calls k = (if list_ex (\<lambda>c. mentions c k) calls then documented_get env calls k else None)"
    using assms(1) by (simp_all only: viper_ok_def)
  then show
    "v_get V calls k =
    (case map_of (override_pairs calls) k of
       Some v \<Rightarrow> Some v
     | None \<Rightarrow>
    (case first_some env (upper k # bound_variables (bind_pairs calls) k) of
       Some s \<Rightarrow> Some (VText s)
     | None \<Rightarrow> map_of (default_pairs calls) k))"
    "v_unmarshal V calls k =
      (if map_of (default_pairs calls) k \<noteq> None \<or> map_of (override_pairs calls) k \<noteq> None \<or> map_of (bind_pairs calls) k \<noteq> None
       then v_get V calls k else None)"
    by (simp_all only: documented_known [OF assms(2,3)] env_value_known [OF assms(2-4)] pairs_lookup)
qed

lemma local_tables:
  "default_pairs (local_settings u v) = rev
    [
     (''LogFormater'', VText ''text''), (''KAFKA_BOOTSTRAP_SERVERS'', VText ''localhost:29092''),
     (''UPLOAD_TOPIC'', VText ''hccm.ros.events''),
     (''RECOMMENDATION_TOPIC'', VText ''rosocp.kruize.recommendations''),
     (''SOURCES_EVENT_TOPIC'', VText ''platform.sources.event-stream''), (''DBHost'', VText ''localhost''),
     (''DBPort'', VText ''15432''), (''DBName'', VText ''postgres''), (''DBUser'', VText ''postgres''),
     (''DBPassword'', VText ''postgres''), (''DBssl'', VText ''disable''), (''DBCACert'', VText []),
     (''RBACHost'', VText ''localhost''), (''RBACPort'', VText ''9080''), (''RBACProtocol'', VText ''http''),
     (''RBAC_ENABLE'', VBool False), (''PROMETHEUS_PORT'', VText ''5005''),
     (''SOURCES_API_BASE_URL'', VText ''http://127.0.0.1:8002''),
     (''SOURCES_API_PREFIX'', VText ''/api/sources/v3.1''), (''SERVICE_NAME'', VText ''rosocp''),
     (''API_PORT'', VText ''8000''), (''KRUIZE_WAIT_TIME'', VText ''30''),
     (''KRUIZE_MAX_BULK_CHUNK_SIZE'', VInt 100), (''KAFKA_CONSUMER_GROUP_ID'', VText ''ros-ocp''),
     (''KAFKA_AUTO_COMMIT'', VBool True), (''LOG_LEVEL'', VText ''INFO''),
     (''KRUIZE_HOST'', VText ''localhost''), (''KRUIZE_PORT'', VText ''8080''), (''KRUIZE_URL'', VText u),
     (''KRUIZE_PERFORMANCE_PROFILE_VERSION'', VText ''v2.0''),
     (''RECOMMENDATION_POLL_INTERVAL_HOURS'', VInt 24), (''DATA_RETENTION_PERIOD'', VInt 15),
     (''READ_HEADER_TIMEOUT'', VInt 15), (''RECORD_LIMIT_CSV'', VInt 1000),
     (''CSV_STREAM_INTERVAL'', VInt 100), (''DISABLE_NAMESPACE_RECOMMENDATION'', VBool True),
     (''MAXIMUM_COUNT_PER_QUERY_PARAM'', VInt 5), (''GLOBAL_HTTP_CLIENT_TIMEOUT_SECS'', VInt 30),
     (''UnleashClientAccessToken'', VText ''rosocp:dev.token''), (''UnleashHostname'', VText ''0.0.0.0''),
     (''UnleashScheme'', VText ''http''), (''UnleashPort'', VInt 3063), (''UnleashFullURL'', VText v)]"
  "override_pairs (local_settings u v) = []"
  "bind_pairs (local_settings u v) =
     [(''DBHost'', [''DB_HOST'']), (''DBPort'', [''DB_PORT'']), (''DBName'', [''DB_NAME'']), (''DBUser'', [''DB_USER'']),
      (''DBPassword'', [''DB_PASSWORD'']), (''DBssl'', [''DB_SSL'']), (''DBCACert'', [''DB_CA_CERT''])]"
  by (simp_all add: local_settings_def local_calls_def common_defaults_def service_defaults_def unleash_defaults_def)

text \<open>The keys of the settings that only clowder gives.\<close>

definition clowder_only :: "string list" where
  "clowder_only =
     [''KafkaUsername'', ''KafkaPassword'', ''KafkaSASLMechanism'', ''KafkaSecurityProtocol'', ''KafkaCA'', ''CwLogGroup'', ''CwRegion'',
      ''CwAccessKey'', ''CwSecretKey'', ''CW_LOG_STREAM_NAME'']"

text \<open>What the settings are meant to be: the variables that may set a key, in their order, and its default.\<close>

definition variables :: "string \<Rightarrow> string list" where
  "variables k = upper k #
     (case map_of [(''DBHost'', ''DB_HOST''), (''DBPort'', ''DB_PORT''), (''DBName'', ''DB_NAME''), (''DBUser'', ''DB_USER''),
        (''DBPassword'', ''DB_PASSWORD''), (''DBssl'', ''DB_SSL''), (''DBCACert'', ''DB_CA_CERT'')] k of None \<Rightarrow> [] | Some e \<Rightarrow> [e])"

definition local_defaults :: "string \<Rightarrow> string \<Rightarrow> (string \<times> string) list" where
  "local_defaults kruize unleash =
     [(''SERVICE_NAME'', ''rosocp''), (''LogFormater'', ''text''), (''LOG_LEVEL'', ''INFO''),
      (''KAFKA_BOOTSTRAP_SERVERS'', ''localhost:29092''), (''KAFKA_CONSUMER_GROUP_ID'', ''ros-ocp''), (''UPLOAD_TOPIC'', ''hccm.ros.events''),
      (''RECOMMENDATION_TOPIC'', ''rosocp.kruize.recommendations''), (''SOURCES_EVENT_TOPIC'', ''platform.sources.event-stream''),
      (''KRUIZE_URL'', kruize), (''KRUIZE_WAIT_TIME'', ''30''), (''KRUIZE_PERFORMANCE_PROFILE_VERSION'', ''v2.0''),
      (''DBName'', ''postgres''), (''DBUser'', ''postgres''), (''DBPassword'', ''postgres''), (''DBHost'', ''localhost''),
      (''DBPort'', ''15432''), (''DBssl'', ''disable''), (''DBCACert'', []), (''RBACHost'', ''localhost''), (''RBACPort'', ''9080''),
      (''RBACProtocol'', ''http''), (''API_PORT'', ''8000''), (''PROMETHEUS_PORT'', ''5005''),
      (''SOURCES_API_BASE_URL'', ''http://127.0.0.1:8002''), (''SOURCES_API_PREFIX'', ''/api/sources/v3.1''),
      (''UnleashClientAccessToken'', ''rosocp:dev.token''), (''UnleashHostname'', ''0.0.0.0''), (''UnleashScheme'', ''http''),
      (''UnleashFullURL'', unleash)]"

definition number_defaults :: "(string \<times> int) list" where
  "number_defaults = zip number_keys [24, 15, 15, 1000, 100, 5, 30, 100, 3063]"

definition flag_defaults :: "(string \<times> bool) list" where
  "flag_defaults = zip flag_keys [True, False, True]"

definition text_value :: "(string \<Rightarrow> string option) \<Rightarrow> string \<Rightarrow> string \<Rightarrow> string" where
  "text_value env k d = (case first_some env (variables k) of Some s \<Rightarrow> s | None \<Rightarrow> d)"

lemma local_lookup:
  "map (map_of (default_pairs (local_settings u v))) text_keys = map (\<lambda>k. map_option VText (map_of (local_defaults u v) k)) text_keys"
  "map (map_of (default_pairs (local_settings u v))) number_keys = map (\<lambda>k. map_option VInt (map_of number_defaults k)) number_keys"
  "map (map_of (default_pairs (local_settings u v))) flag_keys = map (\<lambda>k. map_option VBool (map_of flag_defaults k)) flag_keys"
  unfolding local_tables by code_simp+

lemma local_variables: "upper k # bound_variables (bind_pairs (local_settings u v)) k = variables k"
  by (auto simp: local_tables bound_variables_def variables_def)

text \<open>The defaults set last, seen from either branch.\<close>

definition plain_at :: "viper_call list \<Rightarrow> string \<Rightarrow> bool" where
  "plain_at calls k = (map_of (override_pairs calls) k = None \<and> bound_variables (bind_pairs calls) k = [])"

lemma plain_append: "plain_at (xs @ ys) k = (plain_at xs k \<and> plain_at ys k)"
  by (auto simp: plain_at_def pairs_append bound_variables_def map_add_None)

definition defaults_only :: "viper_call list \<Rightarrow> bool" where
  "defaults_only calls = list_all (\<lambda>c. case c of SetDefault k v \<Rightarrow> k \<in> set setting_keys | _ \<Rightarrow> False) calls"

lemma defaults_only_plain: "defaults_only calls \<Longrightarrow> plain_at calls k \<and> known_keys calls"
proof (induction calls)
  case (Cons c cs)
  then show ?case by (cases c) (simp_all add: defaults_only_def plain_at_def)
qed (simp add: plain_at_def bound_variables_def)

lemma defaults_only_lists:
  "defaults_only common_defaults" "defaults_only service_defaults" "defaults_only unleash_defaults"
  "defaults_only [SetDefault ''KRUIZE_URL'' x]" "defaults_only [SetDefault ''UnleashFullURL'' x]"
  by (simp_all add: defaults_only_def common_defaults_def service_defaults_def unleash_defaults_def setting_keys_def)

definition later_defaults :: "string \<Rightarrow> string \<Rightarrow> viper_call list" where
  "later_defaults kruize unleash =
     common_defaults @ [SetDefault ''KRUIZE_URL'' (VText kruize)] @ service_defaults @ unleash_defaults
       @ [SetDefault ''UnleashFullURL'' (VText unleash)]"

lemma later_defaults_only: "defaults_only (later_defaults u v)"
  using defaults_only_lists by (simp add: later_defaults_def defaults_only_def)

lemma get_default:
  assumes "viper_ok V env" "known_keys calls" "AutomaticEnv \<in> set calls" "plain_at calls k" "k \<in> set setting_keys" "defaults_only T"
    and "map_of (default_pairs T) k = Some d"
  shows "v_get V (calls @ T) k = Some (case env (upper k) of Some s \<Rightarrow> VText s | None \<Rightarrow> d)"
    "v_unmarshal V (calls @ T) k = Some (case env (upper k) of Some s \<Rightarrow> VText s | None \<Rightarrow> d)"
proof -
  have k: "known_keys (calls @ T)" "AutomaticEnv \<in> set (calls @ T)" "plain_at (calls @ T) k"
    using assms defaults_only_plain [OF assms(6)] by (simp_all add: plain_append)
  have d: "map_of (default_pairs (calls @ T)) k = Some d" using assms(7) by (simp add: pairs_append map_add_def)
  show "v_get V (calls @ T) k = Some (case env (upper k) of Some s \<Rightarrow> VText s | None \<Rightarrow> d)"
    using k(3) d by (simp add: get_known(1) [OF assms(1) k(1) assms(5) k(2)] plain_at_def split: option.split)
  then show "v_unmarshal V (calls @ T) k = Some (case env (upper k) of Some s \<Rightarrow> VText s | None \<Rightarrow> d)"
    using d by (simp add: get_known(2) [OF assms(1) k(1) assms(5) k(2)])
qed

definition env_or :: "(string \<Rightarrow> string option) \<Rightarrow> string \<Rightarrow> string \<Rightarrow> string" where
  "env_or env e d = (case env e of Some s \<Rightarrow> s | None \<Rightarrow> d)"

definition kruize_of :: "(string \<Rightarrow> string option) \<Rightarrow> string" where
  "kruize_of env = ''http://'' @ env_or env ''KRUIZE_HOST'' ''localhost'' @ '':'' @ env_or env ''KRUIZE_PORT'' ''8080''"

definition unleash_of :: "viper \<Rightarrow> (string \<Rightarrow> string option) \<Rightarrow> string" where
  "unleash_of V env =
     env_or env ''UNLEASHSCHEME'' ''http'' @ ''://'' @ env_or env ''UNLEASHHOSTNAME'' ''0.0.0.0'' @ '':''
       @ itoa (case env ''UNLEASHPORT'' of Some s \<Rightarrow> v_int V (Some (VText s)) | None \<Rightarrow> 3063) @ ''/api/''"

lemma upper_names:
  "upper ''KRUIZE_HOST'' = ''KRUIZE_HOST''" "upper ''KRUIZE_PORT'' = ''KRUIZE_PORT''" "upper ''UnleashScheme'' = ''UNLEASHSCHEME''"
  "upper ''UnleashHostname'' = ''UNLEASHHOSTNAME''" "upper ''UnleashPort'' = ''UNLEASHPORT''"
  "upper ''UnleashClientAccessToken'' = ''UNLEASHCLIENTACCESSTOKEN''" "upper ''UnleashFullURL'' = ''UNLEASHFULLURL''"
  by (simp_all add: upper_def upper_char_def char_value)

lemma get_string_default:
  assumes "viper_ok V env" "known_keys calls" "AutomaticEnv \<in> set calls" "plain_at calls k" "k \<in> set setting_keys" "defaults_only T"
    and "map_of (default_pairs T) k = Some (VText d)"
  shows "get_string V (calls @ T) k = env_or env (upper k) d"
proof -
  have "v_string V (Some (VText s)) = s" for s using assms(1) by (simp add: viper_ok_def)
  then show ?thesis by (simp add: get_string_def get_default(1) [OF assms] env_or_def split: option.split)
qed

lemma later_shape:
  assumes "viper_ok V env" "known_keys calls" "AutomaticEnv \<in> set calls"
    and "list_all (plain_at calls) [''KRUIZE_HOST'', ''KRUIZE_PORT'', ''UnleashScheme'', ''UnleashHostname'', ''UnleashPort'']"
  shows "later_calls V calls = calls @ later_defaults (kruize_of env) (unleash_of V env)"
proof -
  note get = get_string_default [OF assms(1-3)]
  have int: "v_int V (Some (VInt i)) = i" for i using assms(1) by (simp add: viper_ok_def)
  have c: "map_of (default_pairs common_defaults) ''KRUIZE_HOST'' = Some (VText ''localhost'')"
    "map_of (default_pairs common_defaults) ''KRUIZE_PORT'' = Some (VText ''8080'')"
    by (simp_all add: common_defaults_def)
  have keys: "set [''KRUIZE_HOST'', ''KRUIZE_PORT'', ''UnleashScheme'', ''UnleashHostname'', ''UnleashPort''] \<subseteq> set setting_keys"
    by (simp add: setting_keys_def)
  have k: "kruize_url V (calls @ common_defaults) = kruize_of env"
    using assms(4) keys by (simp add: kruize_url_def kruize_of_def get [OF _ _ defaults_only_lists(1)] c upper_names)
  define T where "T = common_defaults @ [SetDefault ''KRUIZE_URL'' (VText (kruize_of env))] @ service_defaults @ unleash_defaults"
  have T: "defaults_only T"
    using defaults_only_lists by (simp add: T_def defaults_only_def)
  have u: "map_of (default_pairs T) ''UnleashScheme'' = Some (VText ''http'')"
    "map_of (default_pairs T) ''UnleashHostname'' = Some (VText ''0.0.0.0'')"
    "map_of (default_pairs T) ''UnleashPort'' = Some (VInt 3063)"
    by (simp_all add: T_def pairs_append unleash_defaults_def map_add_def)
  have p: "get_int V (calls @ T) ''UnleashPort'' = (case env ''UNLEASHPORT'' of Some s \<Rightarrow> v_int V (Some (VText s)) | None \<Rightarrow> 3063)"
    using assms(4) keys
    by (simp add: get_int_def get_default(1) [OF assms(1-3) _ _ T u(3)] int upper_names split: option.split)
  have "unleash_url V (calls @ T) = unleash_of V env"
    using assms(4) keys by (simp add: unleash_url_def unleash_of_def get [OF _ _ T] u p upper_names)
  moreover have "v_struct_keys V = []" using assms(1) by (simp add: viper_ok_def)
  ultimately show ?thesis using k by (simp add: later_calls_def Let_def T_def later_defaults_def)
qed

lemma local_plain:
  "plain_at local_calls ''KRUIZE_HOST''" "plain_at local_calls ''KRUIZE_PORT''" "plain_at local_calls ''UnleashScheme''"
  "plain_at local_calls ''UnleashHostname''" "plain_at local_calls ''UnleashPort''"
  by (simp_all add: plain_at_def bound_variables_def local_calls_def)

lemma later_local:
  assumes "viper_ok V env"
  shows "later_calls V local_calls = local_settings (kruize_of env) (unleash_of V env)"
proof -
  have "AutomaticEnv \<in> set local_calls" by (simp add: local_calls_def)
  then show ?thesis by (simp add: later_shape [OF assms known_tail(4)] local_plain local_settings_def later_defaults_def)
qed

lemma local_mentioned:
  "list_all (\<lambda>k. (map_of (local_defaults u v) k = None) = (k \<in> set clowder_only)
     \<and> (k \<in> set clowder_only \<longrightarrow> map_of (bind_pairs (local_settings u v)) k = None)) text_keys"
  "list_all (\<lambda>k. map_of number_defaults k \<noteq> None \<and> variables k = [upper k]) number_keys"
  "list_all (\<lambda>k. map_of flag_defaults k \<noteq> None \<and> variables k = [upper k]) flag_keys"
  unfolding local_tables by code_simp+

lemma first_some_single [simp]: "first_some f [x] = f x"
  by (simp split: option.split)

lemma local_unmarshal:
  assumes "viper_ok V env" "k \<in> set setting_keys"
  shows "v_unmarshal V (local_settings u v) k =
    (if map_of (default_pairs (local_settings u v)) k = None \<and> map_of (bind_pairs (local_settings u v)) k = None then None
     else case first_some env (variables k) of
            Some s \<Rightarrow> Some (VText s) | None \<Rightarrow> map_of (default_pairs (local_settings u v)) k)"
proof -
  have a: "AutomaticEnv \<in> set (local_settings u v)" by (simp add: local_settings_def local_calls_def)
  show ?thesis
    unfolding get_known [OF assms(1) known_local assms(2) a] local_variables local_tables(2) by simp
qed

lemma local_lookupD:
  "k \<in> set text_keys \<Longrightarrow> map_of (default_pairs (local_settings u v)) k = map_option VText (map_of (local_defaults u v) k)"
  "k \<in> set number_keys \<Longrightarrow> map_of (default_pairs (local_settings u v)) k = map_option VInt (map_of number_defaults k)"
  "k \<in> set flag_keys \<Longrightarrow> map_of (default_pairs (local_settings u v)) k = map_option VBool (map_of flag_defaults k)"
  using local_lookup [of u v] unfolding map_eq_conv by blast+

definition local_text :: "viper \<Rightarrow> (string \<Rightarrow> string option) \<Rightarrow> string \<Rightarrow> string" where
  "local_text V env k =
     (case map_of (local_defaults (kruize_of env) (unleash_of V env)) k of
        None \<Rightarrow> []
      | Some d \<Rightarrow> (case first_some env (variables k) of Some s \<Rightarrow> s | None \<Rightarrow> d))"

lemma local_text_field:
  assumes "viper_ok V env" "k \<in> set text_keys"
  shows "field V (v_text V) [] (local_settings (kruize_of env) (unleash_of V env)) k = Some (local_text V env k)"
proof -
  have "k \<in> set setting_keys" using assms(2) field_keys by blast
  note u = local_unmarshal [OF assms(1) this]
  have t: "v_text V x = Some (text_of x)" for x using assms(1) by (simp add: viper_ok_def)
  show ?thesis
    using local_mentioned(1) [of "kruize_of env" "unleash_of V env"] assms(2)
    by (auto simp: field_def u local_lookupD(1) local_text_def t list_all_iff split: option.split)
qed

definition local_number :: "viper \<Rightarrow> (string \<Rightarrow> string option) \<Rightarrow> string \<Rightarrow> int option" where
  "local_number V env k = (case env (upper k) of Some s \<Rightarrow> v_number V (VText s) | None \<Rightarrow> map_of number_defaults k)"

definition local_flag :: "viper \<Rightarrow> (string \<Rightarrow> string option) \<Rightarrow> string \<Rightarrow> bool option" where
  "local_flag V env k = (case env (upper k) of Some s \<Rightarrow> v_flag V (VText s) | None \<Rightarrow> map_of flag_defaults k)"

lemma local_number_field:
  assumes "viper_ok V env" "k \<in> set number_keys"
  shows "field V (v_number V) 0 (local_settings u v) k = local_number V env k"
proof -
  have "k \<in> set setting_keys" using assms(2) field_keys by blast
  note u = local_unmarshal [OF assms(1) this]
  have n: "v_number V (VInt i) = Some i" for i using assms(1) by (simp add: viper_ok_def)
  show ?thesis
    using local_mentioned(2) assms(2)
    by (auto simp: field_def u local_lookupD(2) local_number_def n list_all_iff split: option.split)
qed

lemma local_flag_field:
  assumes "viper_ok V env" "k \<in> set flag_keys"
  shows "field V (v_flag V) False (local_settings u v) k = local_flag V env k"
proof -
  have "k \<in> set setting_keys" using assms(2) field_keys by blast
  note u = local_unmarshal [OF assms(1) this]
  have n: "v_flag V (VBool i) = Some i" for i using assms(1) by (simp add: viper_ok_def)
  show ?thesis
    using local_mentioned(3) assms(2)
    by (auto simp: field_def u local_lookupD(3) local_flag_def n list_all_iff split: option.split)
qed

lemma config_of_cong:
  assumes "\<And>k. k \<in> set text_keys \<Longrightarrow> t k = t' k" "\<And>k. k \<in> set number_keys \<Longrightarrow> n k = n' k"
    "\<And>k. k \<in> set flag_keys \<Longrightarrow> b k = b' k"
  shows "config_of t n b = config_of t' n' b'"
  unfolding config_of_def by (simp add: assms text_keys_def number_keys_def flag_keys_def)

text \<open>Outside clowder initialising the configuration never panics; it ends the process exactly if the environment has a text that is
  no number or no flag where one is needed, and otherwise every setting is its variable's value or its default.\<close>

lemma initConfig_local:
  assumes "viper_ok V env"
  shows "initConfig V None =
    (if list_all (\<lambda>k. local_number V env k \<noteq> None) number_keys \<and> list_all (\<lambda>k. local_flag V env k \<noteq> None) flag_keys
     then ConfigReady (config_of (local_text V env) (\<lambda>k. the (local_number V env k)) (\<lambda>k. the (local_flag V env k)))
     else ConfigExit)"
proof -
  let ?s = "local_settings (kruize_of env) (unleash_of V env)"
  have t: "list_all (\<lambda>k. field V (v_text V) [] ?s k \<noteq> None) text_keys"
    by (simp add: list_all_iff local_text_field [OF assms])
  have n: "list_all (\<lambda>k. field V (v_number V) 0 ?s k \<noteq> None) number_keys = list_all (\<lambda>k. local_number V env k \<noteq> None) number_keys"
    "list_all (\<lambda>k. field V (v_flag V) False ?s k \<noteq> None) flag_keys = list_all (\<lambda>k. local_flag V env k \<noteq> None) flag_keys"
    by (auto simp: list_all_iff local_number_field [OF assms] local_flag_field [OF assms])
  have c: "config_of (\<lambda>k. the (field V (v_text V) [] ?s k)) (\<lambda>k. the (field V (v_number V) 0 ?s k)) (\<lambda>k. the (field V (v_flag V) False ?s k))
      = config_of (local_text V env) (\<lambda>k. the (local_number V env k)) (\<lambda>k. the (local_flag V env k))"
    by (rule config_of_cong) (simp_all add: local_text_field [OF assms] local_number_field [OF assms] local_flag_field [OF assms])
  show ?thesis
    unfolding initConfig_def option.case later_local [OF assms] unmarshal_def c n using t by simp
qed

text \<open>A viper that behaves as documented, for examples.\<close>

definition documented_viper :: "(string \<Rightarrow> string option) \<Rightarrow> viper" where
  "documented_viper env =
     \<lparr>v_get = documented_get env,
      v_string = (\<lambda>v. case v of None \<Rightarrow> [] | Some v \<Rightarrow> text_of v),
      v_int = (\<lambda>v. case v of Some (VInt i) \<Rightarrow> i | Some (VText s) \<Rightarrow> (case atoi s of None \<Rightarrow> 0 | Some i \<Rightarrow> i) | _ \<Rightarrow> 0),
      v_unmarshal = (\<lambda>calls k. if list_ex (\<lambda>c. mentions c k) calls then documented_get env calls k else None),
      v_text = (\<lambda>v. Some (text_of v)),
      v_number = (\<lambda>v. case v of VInt i \<Rightarrow> Some i | VText s \<Rightarrow> atoi s | VBool b \<Rightarrow> Some (if b then 1 else 0) | VRef s \<Rightarrow> atoi (text_of v)),
      v_flag = (\<lambda>v. case v of VBool b \<Rightarrow> Some b | VInt i \<Rightarrow> Some (i \<noteq> 0) | _ \<Rightarrow> parse_bool (text_of v)),
      v_struct_keys = []\<rparr>"

lemma documented_viper_ok: "viper_ok (documented_viper env) env"
  by (simp add: viper_ok_def documented_viper_def)

definition default_config :: config where
  "default_config = \<lparr>ServiceName = ''rosocp'', LogFormater = ''text'', LogLevel = ''INFO'', RecommendationPollIntervalHours = 24,
     DataRetentionPeriod = 15, ReadHeaderTimeout = 15, RecordLimitCSV = 1000, CSVStreamInterval = 100, MaxCountPerQueryParam = 5,
     KafkaBootstrapServers = ''localhost:29092'', KafkaConsumerGroupId = ''ros-ocp'', KafkaAutoCommit = True,
     UploadTopic = ''hccm.ros.events'', RecommendationTopic = ''rosocp.kruize.recommendations'',
     SourcesEventTopic = ''platform.sources.event-stream'', KafkaUsername = [], KafkaPassword = [], KafkaSASLMechanism = [],
     KafkaSecurityProtocol = [], KafkaCA = [], GlobalHTTPClientTimeoutSecs = 30, KruizeUrl = ''http://localhost:8080'',
     KruizeWaitTime = ''30'', KruizeMaxBulkChunkSize = 100, KruizePerformanceProfileVersion = ''v2.0'', DBName = ''postgres'',
     DBUser = ''postgres'', DBPassword = ''postgres'', DBHost = ''localhost'', DBPort = ''15432'', DBssl = ''disable'', DBCACert = [],
     RBACHost = ''localhost'', RBACPort = ''9080'', RBACProtocol = ''http'', RBACEnabled = False, API_PORT = ''8000'',
     CwLogGroup = [], CwRegion = [], CwAccessKey = [], CwSecretKey = [], CwLogStream = [], PrometheusPort = ''5005'',
     SourceApiBaseUrl = ''http://127.0.0.1:8002'', SourceApiPrefix = ''/api/sources/v3.1'', DisableNamespaceRecommendation = True,
     UnleashClientAccessToken = ''rosocp:dev.token'', UnleashHostname = ''0.0.0.0'', UnleashPort = 3063, UnleashScheme = ''http'',
     UnleashFullURL = ''http://0.0.0.0:3063/api/''\<rparr>"

lemma itoa_3063: "itoa 3063 = ''3063''"
  by (simp add: itoa_def nat_digits.simps digit_char_def char_value)

text \<open>The settings of an empty environment.\<close>

lemma default_values:
  "config_of (local_text V (\<lambda>_. None)) (\<lambda>k. the (local_number V (\<lambda>_. None) k)) (\<lambda>k. the (local_flag V (\<lambda>_. None) k)) = default_config"
proof -
  have none: "first_some (\<lambda>_. None) xs = (None :: string option)" for xs :: "string list" by (induction xs) simp_all
  have urls: "kruize_of (\<lambda>_. None) = ''http://localhost:8080''" "unleash_of V (\<lambda>_. None) = ''http://0.0.0.0:3063/api/''"
    by (simp_all add: kruize_of_def unleash_of_def env_or_def itoa_3063)
  have t: "local_text V (\<lambda>_. None) k = (case map_of (local_defaults ''http://localhost:8080'' ''http://0.0.0.0:3063/api/'') k of
      None \<Rightarrow> [] | Some d \<Rightarrow> d)" for k
    by (simp add: local_text_def none urls split: option.split)
  have n: "the (local_number V (\<lambda>_. None) k) = the (map_of number_defaults k)" "the (local_flag V (\<lambda>_. None) k) = the (map_of flag_defaults k)" for k
    by (simp_all add: local_number_def local_flag_def)
  show ?thesis
    unfolding t n
    by code_simp
qed

text \<open>C38: Outside clowder reading the configuration never panics: it ends the process exactly if a number or a flag has a variable
  whose text cannot be converted, and otherwise every setting is the value of its variable or else its default, except those
  that only clowder gives, which are empty whatever the environment has.\<close>

theorem initConfig_local_settings:
  assumes "viper_ok V env"
  shows "initConfig V None =
    (if list_all (\<lambda>k. local_number V env k \<noteq> None) number_keys \<and> list_all (\<lambda>k. local_flag V env k \<noteq> None) flag_keys
     then ConfigReady (config_of (local_text V env) (\<lambda>k. the (local_number V env k)) (\<lambda>k. the (local_flag V env k)))
     else ConfigExit)"
  using assms by (rule initConfig_local)

lemma default_readable:
  "list_all (\<lambda>k. local_number V (\<lambda>_. None) k \<noteq> None) number_keys" "list_all (\<lambda>k. local_flag V (\<lambda>_. None) k \<noteq> None) flag_keys"
  using local_mentioned(2,3) by (auto simp: local_number_def local_flag_def list_all_iff)

theorem initConfig_local_settings_witness:
  "initConfig (documented_viper (\<lambda>_. None)) None = ConfigReady default_config
   \<and> initConfig (documented_viper [''RBAC_ENABLE'' \<mapsto> ''maybe'']) None = ConfigExit"
proof
  show "initConfig (documented_viper (\<lambda>_. None)) None = ConfigReady default_config"
    by (simp add: initConfig_local_settings [OF documented_viper_ok] default_readable [simplified] default_values)
  have "upper ''RBAC_ENABLE'' = ''RBAC_ENABLE''" by code_simp
  then have "local_flag (documented_viper [''RBAC_ENABLE'' \<mapsto> ''maybe'']) [''RBAC_ENABLE'' \<mapsto> ''maybe''] ''RBAC_ENABLE'' = None"
    by (simp add: local_flag_def documented_viper_def parse_bool_def)
  then show "initConfig (documented_viper [''RBAC_ENABLE'' \<mapsto> ''maybe'']) None = ConfigExit"
    by (simp add: initConfig_local_settings [OF documented_viper_ok] flag_keys_def)
qed

text \<open>Outside clowder Kafka is used without SASL and nothing is sent to Cloudwatch: no variable sets what these need, because the
  loop that binds the struct's keys ranges over the keys of a nil pointer.\<close>

lemma clowder_only_ignored:
  assumes "viper_ok V env" "initConfig V None = ConfigReady cfg"
  shows "KafkaSASLMechanism cfg = [] \<and> KafkaUsername cfg = [] \<and> KafkaPassword cfg = [] \<and> CwAccessKey cfg = [] \<and> CwLogStream cfg = []"
proof -
  have "local_text V env k = []" if "k \<in> set clowder_only" for k
  proof -
    have "list_all (\<lambda>k. map_of (local_defaults u v) k = None) clowder_only" for u v by code_simp
    with that show ?thesis by (simp add: local_text_def list_all_iff)
  qed
  moreover have "cfg = config_of (local_text V env) (\<lambda>k. the (local_number V env k)) (\<lambda>k. the (local_flag V env k))"
    using assms(2) by (simp add: initConfig_local [OF assms(1)] split: if_splits)
  ultimately show ?thesis by (simp add: config_of_def clowder_only_def)
qed

section \<open>The settings under clowder\<close>

text \<open>Clowder's branch sets defaults of known keys, overrides those for Kafka's SASL, and binds nothing.\<close>

definition clowder_call :: "viper_call \<Rightarrow> bool" where
  "clowder_call c =
     (case c of
        AutomaticEnv \<Rightarrow> True
      | SetDefault k v \<Rightarrow> k \<in> set setting_keys \<and> (k = ''RBAC_ENABLE'' \<longrightarrow> v = VBool True)
      | Override k v \<Rightarrow> k \<in> {''KafkaUsername'', ''KafkaPassword'', ''KafkaSASLMechanism'', ''KafkaSecurityProtocol'', ''KafkaCA''}
      | BindEnv k es \<Rightarrow> False)"

lemma clowder_parts:
  "sasl_calls b = Some cs \<Longrightarrow> list_all clowder_call cs" "ca_calls c b = Some cs \<Longrightarrow> list_all clowder_call cs"
  "list_all clowder_call (database_calls d)" "list_all clowder_call (concat (map endpoint_calls es))"
  "list_all clowder_call (cloudwatch_calls w)" "flags_calls V calls f = Some cs \<Longrightarrow> list_all clowder_call cs"
proof -
  show "sasl_calls b = Some cs \<Longrightarrow> list_all clowder_call cs"
    by (auto simp: sasl_calls_def clowder_call_def split: if_splits)
  show "ca_calls c b = Some cs \<Longrightarrow> list_all clowder_call cs"
    by (auto simp: ca_calls_def clowder_call_def split: if_splits)
  show "list_all clowder_call (database_calls d)" by (simp add: database_calls_def clowder_call_def setting_keys_def)
  have "list_all clowder_call (endpoint_calls e)" for e by (simp add: endpoint_calls_def clowder_call_def setting_keys_def)
  then show "list_all clowder_call (concat (map endpoint_calls es))" by (induction es) simp_all
  show "list_all clowder_call (cloudwatch_calls w)" by (simp add: cloudwatch_calls_def clowder_call_def setting_keys_def)
  show "flags_calls V calls f = Some cs \<Longrightarrow> list_all clowder_call cs"
    by (auto simp: flags_calls_def Let_def clowder_call_def setting_keys_def split: option.splits)
qed

lemma clowder_calls_known:
  assumes "clowder_calls V c = Some calls"
  shows "list_all clowder_call calls \<and> AutomaticEnv \<in> set calls"
  using assms
  by (auto simp: clowder_calls_def Let_def clowder_parts split: list.splits option.splits)
    (simp_all add: clowder_call_def setting_keys_def)

lemma clowder_call_plain:
  assumes "list_all clowder_call calls"
  shows "known_keys calls"
    "k \<notin> {''KafkaUsername'', ''KafkaPassword'', ''KafkaSASLMechanism'', ''KafkaSecurityProtocol'', ''KafkaCA''} \<Longrightarrow> plain_at calls k"
proof -
  have kafka: "{''KafkaUsername'', ''KafkaPassword'', ''KafkaSASLMechanism'', ''KafkaSecurityProtocol'', ''KafkaCA''} \<subseteq> set setting_keys"
    by (simp add: setting_keys_def)
  show "known_keys calls" using assms
  proof (induction calls)
    case (Cons c cs)
    with kafka show ?case by (cases c) (auto simp: clowder_call_def)
  qed simp
  show "plain_at calls k" if "k \<notin> {''KafkaUsername'', ''KafkaPassword'', ''KafkaSASLMechanism'', ''KafkaSecurityProtocol'', ''KafkaCA''}"
    using assms
  proof (induction calls)
    case (Cons c cs)
    with that show ?case by (cases c) (auto simp: clowder_call_def plain_at_def map_add_def bound_variables_def)
  qed (simp add: plain_at_def bound_variables_def)
qed

lemma clowder_unleash:
  assumes "viper_ok V env" "initConfig V (Some c) = ConfigReady cfg"
  shows "UnleashClientAccessToken cfg = env_or env ''UNLEASHCLIENTACCESSTOKEN'' ''rosocp:dev.token''
    \<and> UnleashHostname cfg = env_or env ''UNLEASHHOSTNAME'' ''0.0.0.0''
    \<and> UnleashFullURL cfg = env_or env ''UNLEASHFULLURL'' (unleash_of V env)"
proof -
  obtain calls where c: "clowder_calls V c = Some calls" and u: "unmarshal V (later_calls V calls) = Some cfg"
    using assms(2) by (auto simp: initConfig_def split: option.splits)
  note cc = clowder_calls_known [OF c]
  note plain = clowder_call_plain [OF conjunct1 [OF cc]]
  let ?T = "later_defaults (kruize_of env) (unleash_of V env)"
  have l: "later_calls V calls = calls @ ?T"
    by (rule later_shape [OF assms(1) plain(1) conjunct2 [OF cc]]) (simp add: plain(2))
  have decode: "v_text V x = Some (text_of x)" for x using assms(1) by (simp add: viper_ok_def)
  have val: "the (field V (v_text V) [] (calls @ ?T) k) = env_or env (upper k) d"
    if "k \<in> {''UnleashClientAccessToken'', ''UnleashHostname'', ''UnleashFullURL''}" "map_of (default_pairs ?T) k = Some (VText d)" for k d
  proof -
    have k: "k \<in> set setting_keys" "plain_at calls k" using that(1) by (auto simp: setting_keys_def plain(2))
    show ?thesis
      by (simp add: field_def get_default(2) [OF assms(1) plain(1) conjunct2 [OF cc] k(2,1) later_defaults_only that(2)] decode env_or_def split: option.split)
  qed
  have d: "map_of (default_pairs ?T) ''UnleashClientAccessToken'' = Some (VText ''rosocp:dev.token'')"
    "map_of (default_pairs ?T) ''UnleashHostname'' = Some (VText ''0.0.0.0'')"
    "map_of (default_pairs ?T) ''UnleashFullURL'' = Some (VText (unleash_of V env))"
    by (simp_all add: later_defaults_def pairs_append unleash_defaults_def map_add_def)
  have "cfg = config_of (\<lambda>k. the (field V (v_text V) [] (calls @ ?T) k)) (\<lambda>k. the (field V (v_number V) 0 (calls @ ?T) k))
      (\<lambda>k. the (field V (v_flag V) False (calls @ ?T) k))"
    using u unfolding l unmarshal_def by (simp split: if_splits)
  then show ?thesis
    unfolding config_of_def by (simp add: val [OF _ d(1)] val [OF _ d(2)] val [OF _ d(3)] upper_names)
qed

text \<open>C39: Under clowder the settings of the feature flag service are not clowder's: the defaults for local development are set after
  them and replace them, so that without environment variables every deployment asks \<open>http://0.0.0.0:3063/api/\<close> for its
  flags with the development token, whatever service clowder names.\<close>

theorem clowder_flags_overwritten:
  assumes "viper_ok V env" "initConfig V (Some c) = ConfigReady cfg"
  shows "UnleashClientAccessToken cfg = env_or env ''UNLEASHCLIENTACCESSTOKEN'' ''rosocp:dev.token''
    \<and> UnleashHostname cfg = env_or env ''UNLEASHHOSTNAME'' ''0.0.0.0''
    \<and> UnleashFullURL cfg = env_or env ''UNLEASHFULLURL'' (unleash_of V env)"
  using clowder_unleash [OF assms] .

definition example_clowder :: clowder_app where
  "example_clowder =
     \<lparr>ca_brokers = [\<lparr>cb_authtype = None, cb_cacert = None, cb_sasl = None\<rparr>], ca_servers = [''kafka:9092''],
      ca_topic = (\<lambda>t. t), ca_kafka_ca = (\<lambda>_. None),
      ca_database = Some \<lparr>cd_name = ''ros'', cd_username = ''ros'', cd_password = ''secret'', cd_hostname = ''db'', cd_port = 5432,
        cd_sslmode = ''require'', cd_rdsca = Some ''pem''\<rparr>,
      ca_endpoints = [\<lparr>ce_app = ''rbac'', ce_hostname = ''rbac'', ce_port = 8000\<rparr>],
      ca_cloudwatch = Some \<lparr>cw_loggroup = ''ros'', cw_region = ''us-east-1'', cw_accesskey = ''key'', cw_secretkey = ''secret''\<rparr>,
      ca_metrics_port = 9000,
      ca_flags = Some \<lparr>cf_token = Some ''production'', cf_hostname = ''unleash'', cf_scheme = ''https'', cf_port = 443\<rparr>\<rparr>"

lemma later_defaults_numbers:
  "map (map_of (default_pairs (later_defaults u v))) (number_keys @ [''KAFKA_AUTO_COMMIT'', ''DISABLE_NAMESPACE_RECOMMENDATION'', ''RBAC_ENABLE''])
   = map Some (map VInt [24, 15, 15, 1000, 100, 5, 30, 100, 3063] @ [VBool True, VBool True]) @ [None]"
  by code_simp

text \<open>Without variables clowder's configuration is always readable.\<close>

lemma clowder_ready:
  assumes "viper_ok V (\<lambda>_. None)" "clowder_calls V c = Some calls"
  shows "\<exists>cfg. initConfig V (Some c) = ConfigReady cfg"
proof -
  note cc = clowder_calls_known [OF assms(2)]
  note plain = clowder_call_plain [OF conjunct1 [OF cc]]
  let ?T = "later_defaults (kruize_of (\<lambda>_. None)) (unleash_of V (\<lambda>_. None))"
  have l: "later_calls V calls = calls @ ?T"
    by (rule later_shape [OF assms(1) plain(1) conjunct2 [OF cc]]) (simp add: plain(2))
  have dec: "v_text V x = Some (text_of x)" "v_number V (VInt i) = Some i" "v_flag V (VBool b) = Some b" for x i b
    using assms(1) by (simp_all add: viper_ok_def)
  note get = get_default(2) [OF assms(1) plain(1) conjunct2 [OF cc] plain(2) _ later_defaults_only]
  have t: "list_all (\<lambda>k. field V (v_text V) [] (calls @ ?T) k \<noteq> None) text_keys"
    by (simp add: list_all_iff field_def dec split: option.split)
  have keys: "set number_keys \<subseteq> set setting_keys" "{''KAFKA_AUTO_COMMIT'', ''DISABLE_NAMESPACE_RECOMMENDATION'', ''RBAC_ENABLE''} \<subseteq> set setting_keys"
    using field_keys by (simp_all add: flag_keys_def)
  note nums = later_defaults_numbers [of "kruize_of (\<lambda>_. None)" "unleash_of V (\<lambda>_. None)", unfolded number_keys_def, simplified list.map append.simps list.inject]
  have n: "list_all (\<lambda>k. field V (v_number V) 0 (calls @ ?T) k \<noteq> None) number_keys"
    using keys(1) nums by (simp add: number_keys_def field_def get dec)
  have r: "map_of (default_pairs calls) ''RBAC_ENABLE'' \<in> {None, Some (VBool True)}"
    using conjunct1 [OF cc]
  proof (induction calls)
    case (Cons x xs)
    then show ?case by (cases x) (auto simp: clowder_call_def map_add_def)
  qed simp
  have k: "known_keys (calls @ ?T)" "AutomaticEnv \<in> set (calls @ ?T)" "plain_at (calls @ ?T) ''RBAC_ENABLE''"
    using cc plain defaults_only_plain [OF later_defaults_only] by (simp_all add: plain_append)
  have "field V (v_flag V) False (calls @ ?T) ''RBAC_ENABLE'' \<noteq> None"
    using r keys(2) k(3) nums
    by (auto simp: field_def get_known [OF assms(1) k(1) _ k(2)] pairs_append map_add_def dec plain_at_def split: option.split)
  moreover have "field V (v_flag V) False (calls @ ?T) k \<noteq> None" if "k \<in> {''KAFKA_AUTO_COMMIT'', ''DISABLE_NAMESPACE_RECOMMENDATION''}" for k
    using that keys(2) nums by (auto simp: field_def get dec)
  ultimately have f: "list_all (\<lambda>k. field V (v_flag V) False (calls @ ?T) k \<noteq> None) flag_keys"
    by (auto simp: flag_keys_def)
  show ?thesis
    using t n f by (simp add: initConfig_def assms(2) l unmarshal_def)
qed

lemma example_clowder_ready: "\<exists>cfg. initConfig (documented_viper (\<lambda>_. None)) (Some example_clowder) = ConfigReady cfg"
proof -
  have "clowder_calls (documented_viper (\<lambda>_. None)) example_clowder \<noteq> None"
    by (simp add: clowder_calls_def example_clowder_def sasl_calls_def ca_calls_def flags_calls_def Let_def)
  then show ?thesis using clowder_ready [OF documented_viper_ok] by auto
qed

theorem clowder_flags_overwritten_witness:
  "\<exists>cfg. initConfig (documented_viper (\<lambda>_. None)) (Some example_clowder) = ConfigReady cfg
    \<and> ca_flags example_clowder = Some \<lparr>cf_token = Some ''production'', cf_hostname = ''unleash'', cf_scheme = ''https'', cf_port = 443\<rparr>
    \<and> UnleashClientAccessToken cfg = ''rosocp:dev.token'' \<and> UnleashFullURL cfg = ''http://0.0.0.0:3063/api/''"
proof -
  obtain cfg where "initConfig (documented_viper (\<lambda>_. None)) (Some example_clowder) = ConfigReady cfg"
    using example_clowder_ready by blast
  with clowder_flags_overwritten [OF documented_viper_ok this]
  show ?thesis by (auto simp: env_or_def unleash_of_def itoa_3063 example_clowder_def)
qed

end
