(* ===== verification/Server.thy ===== *)
theory Server
  imports Handlers
begin

text \<open>
  The versioned API as \<open>internal/api/server.go\<close> puts it together: the identity middleware
  (\<open>internal/api/middleware/identity.go\<close>) decodes the header \<open>X-Rh-Identity\<close>, then RBAC's runs if it is enabled, then the endpoint.
  \<open>encoding/base64\<close> is written out; turning the decoded JSON into the identity struct of the platform's library, of which the
  program reads the organisation, is the parameter \<open>unmarshal\<close>.
\<close>

section \<open>Standard base64\<close>

text \<open>Six bits as a character of the alphabet and back.\<close>

definition encode_six :: "nat \<Rightarrow> char" where
  "encode_six n =
     (if n < 26 then char_of (65 + n) else if n < 52 then char_of (71 + n) else if n < 62 then char_of (n - 4)
      else if n = 62 then CHR ''+'' else CHR ''/'')"

definition decode_six :: "char \<Rightarrow> nat option" where
  "decode_six c =
     (let n = of_char c in
        if 65 \<le> n \<and> n \<le> 90 then Some (n - 65)
        else if 97 \<le> n \<and> n \<le> 122 then Some (n - 71)
        else if 48 \<le> n \<and> n \<le> 57 then Some (n + 4)
        else if n = 43 then Some 62
        else if n = 47 then Some 63
        else None)"

text \<open>\<open>StdEncoding.DecodeString\<close>: line breaks are skipped wherever they are; then groups of four, of which only the last may be
  padded.  Bits that padding leaves over are not looked at.  \<open>None\<close> is an error.\<close>

fun decode_groups :: "string \<Rightarrow> string option" where
  "decode_groups [] = Some []"
| "decode_groups (a # b # c # d # rest) =
     (case (decode_six a, decode_six b) of
        (Some x, Some y) \<Rightarrow>
          (case (decode_six c, decode_six d) of
             (Some z, Some w) \<Rightarrow>
               map_option (\<lambda>bs. char_of (x * 4 + y div 16) # char_of (y mod 16 * 16 + z div 4) # char_of (z mod 4 * 64 + w) # bs)
                 (decode_groups rest)
           | (Some z, None) \<Rightarrow>
               if d = CHR ''='' \<and> rest = [] then Some [char_of (x * 4 + y div 16), char_of (y mod 16 * 16 + z div 4)] else None
           | (None, _) \<Rightarrow>
               if c = CHR ''='' \<and> d = CHR ''='' \<and> rest = [] then Some [char_of (x * 4 + y div 16)] else None)
      | _ \<Rightarrow> None)"
| "decode_groups _ = None"

definition DecodeString :: "string \<Rightarrow> string option" where
  "DecodeString s = decode_groups (filter (\<lambda>c. c \<noteq> CHR 0x0A \<and> c \<noteq> CHR 0x0D) s)"

text \<open>What the senders of the header do.\<close>

fun EncodeToString :: "string \<Rightarrow> string" where
  "EncodeToString [] = []"
| "EncodeToString [a] =
     (let x = of_char a in [encode_six (x div 4), encode_six (x mod 4 * 16), CHR ''='', CHR ''=''])"
| "EncodeToString [a, b] =
     (let x = of_char a; y = of_char b
      in [encode_six (x div 4), encode_six (x mod 4 * 16 + y div 16), encode_six (y mod 16 * 4), CHR ''=''])"
| "EncodeToString (a # b # c # rest) =
     (let x = of_char a; y = of_char b; z = of_char c
      in encode_six (x div 4) # encode_six (x mod 4 * 16 + y div 16) # encode_six (y mod 16 * 4 + z div 64)
           # encode_six (z mod 64) # EncodeToString rest)"

lemma of_char_encode:
  "n < 64 \<Longrightarrow> (of_char (encode_six n) :: nat) =
    (if n < 26 then 65 + n else if n < 52 then 71 + n else if n < 62 then n - 4 else if n = 62 then 43 else 47)"
  by (simp add: encode_six_def)

lemma six_bits:
  assumes "n < 64"
  shows "decode_six (encode_six n) = Some n" "encode_six n \<noteq> CHR 0x0A" "encode_six n \<noteq> CHR 0x0D" "encode_six n \<noteq> CHR ''=''"
proof -
  have e: "(of_char (encode_six n) :: nat) = of_char c \<Longrightarrow> c \<noteq> CHR 0x0A \<and> c \<noteq> CHR 0x0D \<and> c \<noteq> CHR ''=''" for c
    using assms by (auto simp: of_char_encode split: if_splits)
  show "decode_six (encode_six n) = Some n"
    using assms by (simp add: decode_six_def of_char_encode Let_def) arith
  show "encode_six n \<noteq> CHR 0x0A" "encode_six n \<noteq> CHR 0x0D" "encode_six n \<noteq> CHR ''=''"
    using e [OF refl] by blast+
qed

lemma pad_no_six: "decode_six (CHR ''='') = None"
  by (simp add: decode_six_def)

lemma byte_parts [simp]:
  fixes x y z :: char
  shows "(of_char x :: nat) div 4 < 64" "(of_char x :: nat) mod 4 * 16 + of_char y div 16 < 64" "(of_char x :: nat) mod 4 * 16 < 64"
    "(of_char y :: nat) mod 16 * 4 + of_char z div 64 < 64" "(of_char y :: nat) mod 16 * 4 < 64" "(of_char z :: nat) mod 64 < 64"
    "(of_char y :: nat) div 16 div 16 = 0" "(of_char y :: nat) div 16 mod 16 = of_char y div 16"
    "(of_char z :: nat) div 64 div 4 = 0" "(of_char z :: nat) div 64 mod 4 = of_char z div 64"
proof -
  have b: "(of_char c :: nat) < 256" for c :: char by (rule nat_of_char_less_256)
  then have d: "(of_char c :: nat) div 16 < 16" "(of_char c :: nat) div 64 < 4" for c :: char
    by (metis less_mult_imp_div_less numeral_times_numeral num_double semiring_norm(13))+
  show "(of_char x :: nat) div 4 < 64" using b [of x] by linarith
  have m: "(of_char x :: nat) mod 4 < 4" "(of_char y :: nat) mod 16 < 16" by simp_all
  show "(of_char x :: nat) mod 4 * 16 + of_char y div 16 < 64" "(of_char x :: nat) mod 4 * 16 < 64"
    using m(1) d(1) [of y] by linarith+
  show "(of_char y :: nat) mod 16 * 4 + of_char z div 64 < 64" "(of_char y :: nat) mod 16 * 4 < 64"
    using m(2) d(2) [of z] by linarith+
  show "(of_char z :: nat) mod 64 < 64" by simp
  show "(of_char y :: nat) div 16 div 16 = 0" "(of_char y :: nat) div 16 mod 16 = of_char y div 16"
    using d(1) [of y] by simp_all
  show "(of_char z :: nat) div 64 div 4 = 0" "(of_char z :: nat) div 64 mod 4 = of_char z div 64"
    using d(2) [of z] by simp_all
qed

lemma decode_encode_groups: "decode_groups (EncodeToString bs) = Some bs"
  by (induction bs rule: EncodeToString.induct) (simp_all add: Let_def six_bits pad_no_six)

lemma encoded_one_line: "filter (\<lambda>c. c \<noteq> CHR 0x0A \<and> c \<noteq> CHR 0x0D) (EncodeToString bs) = EncodeToString bs"
  by (induction bs rule: EncodeToString.induct) (simp_all add: Let_def six_bits)

text \<open>A header that a sender encoded is decoded to what was sent.\<close>

lemma DecodeString_encoded: "DecodeString (EncodeToString bs) = Some bs"
  by (simp add: DecodeString_def encoded_one_line decode_encode_groups)

section \<open>The middleware of the versioned API\<close>

text \<open>A missing header is the empty text.  The handlers read the organisation of the identity that is set here.\<close>

definition Identity :: "(string \<Rightarrow> string option) \<Rightarrow> string \<Rightarrow> (string \<Rightarrow> 'r response option) \<Rightarrow> 'r response option" where
  "Identity unmarshal encodedIdentity next1 =
     (case DecodeString encodedIdentity of
        None \<Rightarrow> Some (HttpError 401 ''Unable to decode X-Rh-Identity'')
      | Some decodedIdentity \<Rightarrow>
     (case unmarshal decodedIdentity of
        None \<Rightarrow> Some (HttpError 401 ''Unable to marshal X-Rh-Identity into struct'')
      | Some orgID \<Rightarrow> next1 orgID))"

text \<open>The RBAC service is asked with the same header.\<close>

definition serve ::
  "(string \<Rightarrow> string option) \<Rightarrow> (json \<Rightarrow> string) \<Rightarrow> (string \<Rightarrow> nat \<Rightarrow> string \<Rightarrow> rbac_reply) \<Rightarrow> string
     \<Rightarrow> (api_env \<Rightarrow> api_request \<Rightarrow> 'r response) \<Rightarrow> api_env \<Rightarrow> string \<Rightarrow> api_request \<Rightarrow> 'r response option" where
  "serve unmarshal sprint reply base handler env header req =
     Identity unmarshal header (\<lambda>orgID. route sprint (reply header) base handler env (req\<lparr>hq_org := orgID\<rparr>))"

section \<open>Who is served\<close>

lemma list_query_org:
  assumes "row_semantics meets org_of cluster_of project_of rt" "q_where base = [(org_clause rt, QStrings [org])]"
    and "list_query base rt o1 rbac n opts params m = Inr (cq, q)" "selects meets q row"
  shows "org_of row = org"
proof -
  have "(org_clause rt, QStrings [org]) \<in> set (q_where q)"
    using list_query_keeps [OF assms(3), of "(org_clause rt, QStrings [org])"] assms(2) by simp
  with assms(1,4) show ?thesis by (auto simp: selects_def row_semantics_def list_all_iff)
qed

lemma by_id_query_org:
  assumes "row_semantics meets org_of cluster_of project_of rt" "q_where base = [(org_clause rt, QStrings [org])]"
    and "by_id_query base ic rt rbac rid m = Inr q" "selects meets q row"
  shows "org_of row = org"
proof -
  from assms(3) obtain cs where "q = fold add_where cs (add_where (ic, QStrings [rid]) base)"
    by (auto simp: by_id_query_def split: sum.splits)
  with assms(1,2,4) show ?thesis by (simp add: selects_def q_where_fold q_where_add_where row_semantics_def)
qed

definition row_of_caller :: "(string \<Rightarrow> string option) \<Rightarrow> string \<Rightarrow> string \<Rightarrow> bool" where
  "row_of_caller unmarshal header org = (\<exists>decoded. DecodeString header = Some decoded \<and> unmarshal decoded = Some org)"

text \<open>With RBAC on or off, an endpoint shows rows of the organisation of its request only, and rows that the database returned.\<close>

lemma containers_shown:
  assumes "row_semantics meets org_of rr_cluster_uuid rr_project ResourceContainer" "database_ok meets nmeets env"
    and "handler = GetRecommendationSetList \<or> handler = GetRecommendationSet"
  shows "shows_only (\<lambda>r. org_of (r\<lparr>rr_json := None\<rparr>) = hq_org req \<and> returned env (r\<lparr>rr_json := None\<rparr>)) env (handler env req)"
proof -
  have "shows_only (\<lambda>r. org_of (r\<lparr>rr_json := None\<rparr>) = hq_org req \<and> returned env (r\<lparr>rr_json := None\<rparr>)) env (GetRecommendationSetList env req)"
    by (rule container_list_only [OF assms(2)])
      (metis list_query_org [OF assms(1) org_where(1)] GetRecommendationSets_def)
  moreover have "shows_only (\<lambda>r. org_of (r\<lparr>rr_json := None\<rparr>) = hq_org req \<and> returned env (r\<lparr>rr_json := None\<rparr>)) env (GetRecommendationSet env req)"
    by (rule container_row_only [OF assms(2)])
      (metis by_id_query_org [OF assms(1) org_where(1)] GetRecommendationSetByID_def)
  ultimately show ?thesis using assms(3) by blast
qed

lemma namespaces_shown:
  assumes "row_semantics nmeets org_of nr_cluster_uuid nr_project ResourceProject" "database_ok meets nmeets env"
    and "handler = GetNamespaceRecommendationSetList \<or> handler = GetNamespaceRecommendationSet"
  shows "list_all (\<lambda>r. org_of (r\<lparr>nr_json := None\<rparr>) = hq_org req \<and> nreturned env (r\<lparr>nr_json := None\<rparr>)) (shown (handler env req))"
proof -
  have "list_all (\<lambda>r. org_of (r\<lparr>nr_json := None\<rparr>) = hq_org req \<and> nreturned env (r\<lparr>nr_json := None\<rparr>)) (shown (GetNamespaceRecommendationSetList env req))"
    by (rule namespace_list_only [OF assms(2)])
      (metis list_query_org [OF assms(1) org_where(2)] GetNamespaceRecommendationSets_def)
  moreover have "list_all (\<lambda>r. org_of (r\<lparr>nr_json := None\<rparr>) = hq_org req \<and> nreturned env (r\<lparr>nr_json := None\<rparr>)) (shown (GetNamespaceRecommendationSet env req))"
    by (rule namespace_row_only [OF assms(2)])
      (metis by_id_query_org [OF assms(1) org_where(2)] GetNamespaceRecommendationSetByID_def)
  ultimately show ?thesis using assms(3) by blast
qed

text \<open>An answer of the versioned API is an error of a middleware, or the handler's for the organisation in the header.\<close>

lemma serve_cases:
  assumes "serve unmarshal sprint reply base handler env header req = Some resp"
  shows "(\<exists>code message. resp = HttpError code message)
    \<or> (\<exists>decoded orgID p. DecodeString header = Some decoded \<and> unmarshal decoded = Some orgID
         \<and> resp = handler env (req\<lparr>hq_org := orgID, hq_permissions := p\<rparr>))"
proof (cases "\<exists>decoded orgID. DecodeString header = Some decoded \<and> unmarshal decoded = Some orgID")
  case True
  then obtain decoded orgID where d: "DecodeString header = Some decoded" "unmarshal decoded = Some orgID" by blast
  with assms have r: "route sprint (reply header) base handler env (req\<lparr>hq_org := orgID\<rparr>) = Some resp"
    by (simp add: serve_def Identity_def)
  show ?thesis
  proof (cases "RBACEnabled (a_cfg env)")
    case True
    with r obtain m where "resp = (case m of Forbidden \<Rightarrow> HttpError 403 ''User is not authorized''
        | Next p \<Rightarrow> handler env (req\<lparr>hq_org := orgID, hq_permissions := Some p\<rparr>))" by (auto simp: route_def)
    with d show ?thesis by (cases m) auto
  next
    case False
    with r d show ?thesis by (auto simp: route_def)
  qed
next
  case False
  with assms show ?thesis by (auto simp: serve_def Identity_def split: option.splits)
qed

lemma serve_handled:
  assumes "\<And>req'. ok (hq_org req') (handler env req')"
    and "serve unmarshal sprint reply base handler env header req = Some resp"
  shows "(\<exists>code message. resp = HttpError code message) \<or> (\<exists>orgID. row_of_caller unmarshal header orgID \<and> ok orgID resp)"
  using serve_cases [OF assms(2)]
proof (elim disjE exE conjE)
  fix decoded orgID p
  assume d: "DecodeString header = Some decoded" "unmarshal decoded = Some orgID"
    and "resp = handler env (req\<lparr>hq_org := orgID, hq_permissions := p\<rparr>)"
  then have "ok orgID resp" using assms(1) [of "req\<lparr>hq_org := orgID, hq_permissions := p\<rparr>"] by simp
  with d show ?thesis by (auto simp: row_of_caller_def)
qed simp

lemma containers_served:
  assumes "row_semantics meets org_of rr_cluster_uuid rr_project ResourceContainer" "database_ok meets nmeets env"
    and "handler = GetRecommendationSetList \<or> handler = GetRecommendationSet"
    and "serve unmarshal sprint reply base handler env header req = Some resp"
  shows "shows_only (\<lambda>r. row_of_caller unmarshal header (org_of (r\<lparr>rr_json := None\<rparr>)) \<and> returned env (r\<lparr>rr_json := None\<rparr>)) env resp"
  using serve_handled [where ok = "\<lambda>org. shows_only (\<lambda>r. org_of (r\<lparr>rr_json := None\<rparr>) = org \<and> returned env (r\<lparr>rr_json := None\<rparr>)) env",
      OF containers_shown [OF assms(1-3)] assms(4)]
  by (auto elim: shows_only_mono)

lemma namespaces_served:
  assumes "row_semantics nmeets org_of nr_cluster_uuid nr_project ResourceProject" "database_ok meets nmeets env"
    and "handler = GetNamespaceRecommendationSetList \<or> handler = GetNamespaceRecommendationSet"
    and "serve unmarshal sprint reply base handler env header req = Some resp"
  shows "list_all (\<lambda>r. row_of_caller unmarshal header (org_of (r\<lparr>nr_json := None\<rparr>)) \<and> nreturned env (r\<lparr>nr_json := None\<rparr>)) (shown resp)"
  using serve_handled [where ok = "\<lambda>org resp. list_all (\<lambda>r. org_of (r\<lparr>nr_json := None\<rparr>) = org \<and> nreturned env (r\<lparr>nr_json := None\<rparr>)) (shown resp)",
      OF namespaces_shown [OF assms(1-3)] assms(4)]
  by (auto simp: list_all_iff)

text \<open>Whether RBAC is on or off, a row that the versioned API shows belongs to the organisation of the identity that the
  request's header holds in base64; a request whose header cannot be decoded is shown nothing.\<close>

theorem served_to_their_organisation:
  assumes "row_semantics meets org_of rr_cluster_uuid rr_project ResourceContainer" "database_ok meets nmeets env"
    and "handler = GetRecommendationSetList \<or> handler = GetRecommendationSet"
    and "serve unmarshal sprint reply base handler env header req = Some resp" "r \<in> set (shown resp)"
  shows "\<exists>decoded. DecodeString header = Some decoded \<and> unmarshal decoded = Some (org_of (r\<lparr>rr_json := None\<rparr>))"
  using shows_only_shown [OF containers_served [OF assms(1-4)] assms(5)] by (simp add: row_of_caller_def)

lemma demo_served:
  "serve Some (\<lambda>_. []) (\<lambda>_. demo_reply) [] GetRecommendationSet demo_env (EncodeToString ''org1'') (demo_request [])
   = Some (GetRecommendationSet demo_env (demo_request ''org1''\<lparr>hq_permissions := Some [(''openshift.cluster'', [''c1''])]\<rparr>))"
proof -
  have "RBACEnabled (a_cfg demo_env)" by (simp add: demo_env_def example_config_def)
  then show ?thesis
    by (simp add: serve_def Identity_def DecodeString_encoded route_def demo_middleware demo_request_def del: EncodeToString.simps)
qed

theorem served_to_their_organisation_witness:
  "\<exists>resp decoded. serve Some (\<lambda>_. []) (\<lambda>_. demo_reply) [] GetRecommendationSet demo_env (EncodeToString ''org1'') (demo_request []) = Some resp
     \<and> demo_row \<in> set (shown resp) \<and> DecodeString (EncodeToString ''org1'') = Some decoded
     \<and> decoded = rr_source_id (demo_row\<lparr>rr_json := None\<rparr>)"
proof -
  have "demo_row \<in> set (shown (GetRecommendationSet demo_env (demo_request ''org1''\<lparr>hq_permissions := Some [(''openshift.cluster'', [''c1''])]\<rparr>)))"
    by (simp add: demo_shown(1))
  from served_to_their_organisation [OF demo_semantics [OF disjI1 [OF refl]] demo_database disjI2 [OF refl] demo_served this] this demo_served
  show ?thesis by auto
qed

end
