(* ===== verification/Routes.thy ===== *)
theory Routes
  imports Server "HOL-Library.Word"
begin

text \<open>
  The set-up of the HTTP server (\<open>StartAPIServer\<close> of \<open>internal/api/server.go\<close>): the calls made to echo in their order, the table of
  routes they leave, each with the middleware its group had when it was added, and the answer to a \<open>GET\<close> request.  Finding the
  route of a path is echo's: a parameter that is assumed to choose a registered route and to prefer one that has no parameters.
\<close>

section \<open>The calls to echo\<close>

datatype middleware_fn = PrometheusMetrics string | RequestLogger | CORS "string list" | IdentityFn | RbacFn

datatype endpoint = AppStatus | OpenApiFile string | ContainerList | ContainerById | NamespaceList | NamespaceById

text \<open>\<open>app.Use\<close>, \<open>app.GET\<close> and \<open>app.File\<close>, \<open>app.Group\<close>, \<open>v1.Use\<close> and \<open>v1.GET\<close>.\<close>

datatype echo_call =
    AppUse middleware_fn
  | AppRoute string endpoint
  | OpenGroup string
  | GroupUse middleware_fn
  | GroupRoute string endpoint

record echo_route =
  er_path :: string
  er_chain :: "middleware_fn list"
  er_endpoint :: endpoint

record echo_app =
  ea_global :: "middleware_fn list"
  ea_prefix :: string
  ea_chain :: "middleware_fn list"
  ea_routes :: "echo_route list"

text \<open>A route of a group has the middleware of the group at the time of the call; that of the application runs for all.\<close>

fun echo_step :: "echo_call \<Rightarrow> echo_app \<Rightarrow> echo_app" where
  "echo_step (AppUse m) a = a\<lparr>ea_global := ea_global a @ [m]\<rparr>"
| "echo_step (AppRoute p e) a = a\<lparr>ea_routes := ea_routes a @ [\<lparr>er_path = p, er_chain = [], er_endpoint = e\<rparr>]\<rparr>"
| "echo_step (OpenGroup p) a = a\<lparr>ea_prefix := p, ea_chain := []\<rparr>"
| "echo_step (GroupUse m) a = a\<lparr>ea_chain := ea_chain a @ [m]\<rparr>"
| "echo_step (GroupRoute p e) a =
     a\<lparr>ea_routes := ea_routes a @ [\<lparr>er_path = ea_prefix a @ p, er_chain = ea_chain a, er_endpoint = e\<rparr>]\<rparr>"

definition server_calls :: "config \<Rightarrow> echo_call list" where
  "server_calls cfg =
     [AppUse (PrometheusMetrics ''rosocp''), AppUse RequestLogger, AppUse (CORS [''GET'']),
      AppRoute ''/status'' AppStatus,
      AppRoute ''/api/cost-management/v1/recommendations/openshift/openapi.json'' (OpenApiFile ''openapi.json''),
      OpenGroup ''/api/cost-management/v1'',
      GroupUse IdentityFn]
     @ (if RBACEnabled cfg then [GroupUse RbacFn] else []) @
     [GroupRoute ''/recommendations/openshift'' ContainerList,
      GroupRoute ''/recommendations/openshift/:recommendation-id'' ContainerById,
      GroupRoute ''/recommendations/openshift/namespace'' NamespaceList,
      GroupRoute ''/recommendations/openshift/namespace/:recommendation-id'' NamespaceById]"

definition api_app :: "config \<Rightarrow> echo_app" where
  "api_app cfg = fold echo_step (server_calls cfg) \<lparr>ea_global = [], ea_prefix = [], ea_chain = [], ea_routes = []\<rparr>"

section \<open>The servers\<close>

text \<open>\<open>time.Duration\<close> has 64 bits and counts nanoseconds.\<close>

record 'a http_server =
  sv_addr :: string
  sv_app :: 'a
  sv_read_header_timeout :: "64 word"

definition api_server :: "config \<Rightarrow> echo_app http_server" where
  "api_server cfg =
     \<lparr>sv_addr = '':'' @ API_PORT cfg, sv_app = api_app cfg,
      sv_read_header_timeout = word_of_int (ReadHeaderTimeout cfg) * 1000000000\<rparr>"

text \<open>The server of the metrics runs beside it and has no limits.\<close>

definition metrics_server :: "config \<Rightarrow> string list http_server" where
  "metrics_server cfg = \<lparr>sv_addr = '':'' @ PrometheusPort cfg, sv_app = [''/metrics''], sv_read_header_timeout = 0\<rparr>"

text \<open>How serving ends, if it does.  The process exits unless the server was closed; the metrics also accept that there is no error.\<close>

datatype serve_end = ServerClosed | ServeError string | NoServeError

definition StartAPIServer :: "(echo_app http_server \<Rightarrow> serve_end option) \<Rightarrow> config \<Rightarrow> unit result option" where
  "StartAPIServer listen cfg =
     map_option (\<lambda>err. if err \<noteq> ServerClosed then Crashed OsExit else Done ()) (listen (api_server cfg))"

definition serve_metrics :: "(string list http_server \<Rightarrow> serve_end option) \<Rightarrow> config \<Rightarrow> unit result option" where
  "serve_metrics listen cfg =
     map_option (\<lambda>err. if err \<noteq> NoServeError \<and> err \<noteq> ServerClosed then Crashed OsExit else Done ()) (listen (metrics_server cfg))"

text \<open>The other services' metrics (\<open>Start_prometheus_server\<close> of \<open>internal/utils/utils.go\<close>): only with a port, and however serving
  ends, the service goes on.\<close>

definition Start_prometheus_server :: "(string list http_server \<Rightarrow> serve_end option) \<Rightarrow> config \<Rightarrow> unit result option" where
  "Start_prometheus_server listen cfg =
     (if PrometheusPort cfg \<noteq> [] then
        map_option (\<lambda>_. Done ()) (listen \<lparr>sv_addr = '':'' @ PrometheusPort cfg, sv_app = [''/metrics''], sv_read_header_timeout = 0\<rparr>)
      else Some (Done ()))"

lemma metrics_exit_only_api:
  "Start_prometheus_server listen cfg \<noteq> Some (Crashed c)"
  "serve_metrics (\<lambda>_. Some (ServeError e)) cfg = Some (Crashed OsExit)"
  by (auto simp: Start_prometheus_server_def serve_metrics_def)

section \<open>Answering a request\<close>

definition GetAppStatus :: "(string \<times> string) list response" where
  "GetAppStatus = RowJson 200 [(''api-server'', ''working'')]"

text \<open>The middleware of a route in order, and then its endpoint; those of the application hand a \<open>GET\<close> request on.\<close>

fun run_chain ::
  "(string \<Rightarrow> string option) \<Rightarrow> (json \<Rightarrow> string) \<Rightarrow> (string \<Rightarrow> nat \<Rightarrow> string \<Rightarrow> rbac_reply) \<Rightarrow> string \<Rightarrow> string \<Rightarrow> middleware_fn list
     \<Rightarrow> (api_request \<Rightarrow> 'r response) \<Rightarrow> api_request \<Rightarrow> 'r response option" where
  "run_chain unmarshal sprint reply base header [] handler req = Some (handler req)"
| "run_chain unmarshal sprint reply base header (IdentityFn # ms) handler req =
     Identity unmarshal header (\<lambda>orgID. run_chain unmarshal sprint reply base header ms handler (req\<lparr>hq_org := orgID\<rparr>))"
| "run_chain unmarshal sprint reply base header (RbacFn # ms) handler req =
     (case rbac_middleware sprint (reply header) base of
        None \<Rightarrow> None
      | Some Forbidden \<Rightarrow> Some (HttpError 403 ''User is not authorized'')
      | Some (Next permissions) \<Rightarrow>
          run_chain unmarshal sprint reply base header ms handler (req\<lparr>hq_permissions := Some permissions\<rparr>))"
| "run_chain unmarshal sprint reply base header (m # ms) handler req = run_chain unmarshal sprint reply base header ms handler req"

text \<open>In the answer of the open file its name stands for its content.\<close>

datatype server_reply =
    NoRoute
  | StatusReply "(string \<times> string) list response"
  | FileReply "string response"
  | Containers "RecommendationSetResult response"
  | Namespaces "NamespaceRecommendationSetResult response"

definition answer ::
  "(echo_route list \<Rightarrow> string \<Rightarrow> (echo_route \<times> string) option) \<Rightarrow> (string \<Rightarrow> string option) \<Rightarrow> (json \<Rightarrow> string)
     \<Rightarrow> (string \<Rightarrow> nat \<Rightarrow> string \<Rightarrow> rbac_reply) \<Rightarrow> string \<Rightarrow> api_env \<Rightarrow> string \<Rightarrow> api_request \<Rightarrow> server_reply option" where
  "answer router unmarshal sprint reply base env header req =
     (let app = api_app (a_cfg env) in
      case router (ea_routes app) (hq_path req) of
        None \<Rightarrow> Some NoRoute
      | Some (r, i) \<Rightarrow>
          let chain = ea_global app @ er_chain r;
              req = req\<lparr>hq_org := [], hq_permissions := None, hq_id := i\<rparr>
          in case er_endpoint r of
               AppStatus \<Rightarrow> map_option StatusReply (run_chain unmarshal sprint reply base header chain (\<lambda>_. GetAppStatus) req)
             | OpenApiFile f \<Rightarrow> map_option FileReply (run_chain unmarshal sprint reply base header chain (\<lambda>_. RowJson 200 f) req)
             | ContainerList \<Rightarrow> map_option Containers (run_chain unmarshal sprint reply base header chain (GetRecommendationSetList env) req)
             | ContainerById \<Rightarrow> map_option Containers (run_chain unmarshal sprint reply base header chain (GetRecommendationSet env) req)
             | NamespaceList \<Rightarrow>
                 map_option Namespaces (run_chain unmarshal sprint reply base header chain (GetNamespaceRecommendationSetList env) req)
             | NamespaceById \<Rightarrow>
                 map_option Namespaces (run_chain unmarshal sprint reply base header chain (GetNamespaceRecommendationSet env) req))"

text \<open>What echo promises of its router.\<close>

definition static_route :: "echo_route \<Rightarrow> bool" where
  "static_route r = (CHR '':'' \<notin> set (er_path r))"

definition router_ok :: "(echo_route list \<Rightarrow> string \<Rightarrow> (echo_route \<times> string) option) \<Rightarrow> bool" where
  "router_ok router =
     ((\<forall>rs p r i. router rs p = Some (r, i) \<longrightarrow> r \<in> set rs)
      \<and> (\<forall>rs r. distinct (map er_path rs) \<longrightarrow> r \<in> set rs \<longrightarrow> static_route r \<longrightarrow> router rs (er_path r) = Some (r, [])))"

section \<open>The table of routes\<close>

definition protected :: "config \<Rightarrow> middleware_fn list" where
  "protected cfg = IdentityFn # (if RBACEnabled cfg then [RbacFn] else [])"

lemma api_global: "ea_global (api_app cfg) = [PrometheusMetrics ''rosocp'', RequestLogger, CORS [''GET'']]"
  by (simp add: api_app_def server_calls_def)

lemma api_routes:
  "map (\<lambda>r. (er_chain r, er_endpoint r)) (ea_routes (api_app cfg)) =
     [([], AppStatus), ([], OpenApiFile ''openapi.json''), (protected cfg, ContainerList), (protected cfg, ContainerById),
      (protected cfg, NamespaceList), (protected cfg, NamespaceById)]"
  by (simp add: api_app_def server_calls_def protected_def)

lemma api_paths:
  "map er_path (ea_routes (api_app cfg)) =
     [''/status'', ''/api/cost-management/v1/recommendations/openshift/openapi.json'',
      ''/api/cost-management/v1/recommendations/openshift'', ''/api/cost-management/v1/recommendations/openshift/:recommendation-id'',
      ''/api/cost-management/v1/recommendations/openshift/namespace'',
      ''/api/cost-management/v1/recommendations/openshift/namespace/:recommendation-id'']"
  by (simp add: api_app_def server_calls_def)

lemma route_cases:
  assumes "r \<in> set (ea_routes (api_app cfg))"
  shows "er_chain r = [] \<and> er_endpoint r \<in> {AppStatus, OpenApiFile ''openapi.json''}
    \<or> er_chain r = protected cfg \<and> er_endpoint r \<in> {ContainerList, ContainerById, NamespaceList, NamespaceById}"
proof -
  have "(er_chain r, er_endpoint r) \<in> set (map (\<lambda>r. (er_chain r, er_endpoint r)) (ea_routes (api_app cfg)))"
    using assms by auto
  then show ?thesis unfolding api_routes by auto
qed

text \<open>The middleware of the versioned group is what theory Server describes.\<close>

lemma no_permissions: "hq_permissions req = None \<Longrightarrow> req\<lparr>hq_org := g, hq_permissions := None\<rparr> = req\<lparr>hq_org := g\<rparr>"
  by (cases req) simp

lemma run_protected:
  assumes "hq_permissions req = None"
  shows "run_chain unmarshal sprint reply base header (ea_global (api_app (a_cfg env)) @ protected (a_cfg env)) (handler env) req
    = serve unmarshal sprint reply base handler env header req"
  by (auto simp: api_global protected_def serve_def route_def Identity_def no_permissions [OF assms] split: option.split middleware_result.split)

text \<open>The routes without parameters are found, whatever parameters of other routes their paths would fit.\<close>

lemma static_routes_found:
  assumes "router_ok router" "r \<in> set (ea_routes (api_app cfg))" "static_route r"
  shows "router (ea_routes (api_app cfg)) (er_path r) = Some (r, [])"
proof -
  have "distinct (map er_path (ea_routes (api_app cfg)))" unfolding api_paths by simp
  with assms show ?thesis by (simp add: router_ok_def)
qed

lemma namespace_list_not_shadowed:
  assumes "router_ok router"
  shows "\<exists>r. router (ea_routes (api_app cfg)) ''/api/cost-management/v1/recommendations/openshift/namespace'' = Some (r, [])
    \<and> er_endpoint r = NamespaceList"
    and "\<exists>r. router (ea_routes (api_app cfg)) ''/api/cost-management/v1/recommendations/openshift/openapi.json'' = Some (r, [])
    \<and> er_endpoint r = OpenApiFile ''openapi.json''"
proof -
  have "\<exists>r \<in> set (ea_routes (api_app cfg)). er_path r = ''/api/cost-management/v1/recommendations/openshift/namespace''
        \<and> er_endpoint r = NamespaceList"
    and "\<exists>r \<in> set (ea_routes (api_app cfg)). er_path r = ''/api/cost-management/v1/recommendations/openshift/openapi.json''
        \<and> er_endpoint r = OpenApiFile ''openapi.json''"
    by (simp_all add: api_app_def server_calls_def)
  then show "\<exists>r. router (ea_routes (api_app cfg)) ''/api/cost-management/v1/recommendations/openshift/namespace'' = Some (r, [])
      \<and> er_endpoint r = NamespaceList"
    and "\<exists>r. router (ea_routes (api_app cfg)) ''/api/cost-management/v1/recommendations/openshift/openapi.json'' = Some (r, [])
      \<and> er_endpoint r = OpenApiFile ''openapi.json''"
    using static_routes_found [OF assms] by (fastforce simp: static_route_def)+
qed

section \<open>What an answer holds\<close>

lemma answer_cases:
  assumes "router_ok router" "answer router unmarshal sprint reply base env header req = Some rep"
  shows "rep = NoRoute \<or> rep = StatusReply GetAppStatus \<or> rep = FileReply (RowJson 200 ''openapi.json'')
    \<or> (\<exists>q resp. rep = Containers resp \<and> (serve unmarshal sprint reply base GetRecommendationSetList env header q = Some resp
        \<or> serve unmarshal sprint reply base GetRecommendationSet env header q = Some resp))
    \<or> (\<exists>q resp. rep = Namespaces resp \<and> (serve unmarshal sprint reply base GetNamespaceRecommendationSetList env header q = Some resp
        \<or> serve unmarshal sprint reply base GetNamespaceRecommendationSet env header q = Some resp))"
proof (cases "router (ea_routes (api_app (a_cfg env))) (hq_path req)")
  case None
  with assms(2) show ?thesis by (simp add: answer_def)
next
  case (Some x)
  obtain r i where x: "x = (r, i)" by (cases x)
  define q where "q = req\<lparr>hq_org := [], hq_permissions := None, hq_id := i\<rparr>"
  have q: "hq_permissions q = None" by (simp add: q_def)
  have r: "r \<in> set (ea_routes (api_app (a_cfg env)))" using assms(1) Some x by (auto simp: router_ok_def)
  note run = run_protected [OF q, of unmarshal sprint reply base header env]
  have open_chain: "run_chain unmarshal sprint reply base header (ea_global (api_app (a_cfg env)) @ []) k q = Some (k q)" for k :: "api_request \<Rightarrow> 'r response"
    by (simp add: api_global)
  from route_cases [OF r] show ?thesis
  proof (elim disjE conjE)
    assume c: "er_chain r = []" "er_endpoint r \<in> {AppStatus, OpenApiFile ''openapi.json''}"
    then show ?thesis
      using assms(2) Some x by (auto simp: answer_def Let_def q_def [symmetric] open_chain [simplified])
  next
    assume c: "er_chain r = protected (a_cfg env)" "er_endpoint r \<in> {ContainerList, ContainerById, NamespaceList, NamespaceById}"
    then show ?thesis
      using assms(2) Some x by (auto simp: answer_def Let_def q_def [symmetric] run) blast+
  qed
qed

lemma refused_without_identity:
  assumes "DecodeString header = None" "serve unmarshal sprint reply base handler env header q = Some resp"
  shows "resp = HttpError 401 ''Unable to decode X-Rh-Identity''"
  using assms by (simp add: serve_def Identity_def)

text \<open>C6: Whatever path of the API server is requested, every row in the answer, JSON or CSV, belongs to the organisation of the identity that the
  header of the request holds; and without a readable header the answer is one of the two open pages, unknown, or a refusal.\<close>

theorem answered_to_their_organisation:
  assumes "row_semantics meets org_of rr_cluster_uuid rr_project ResourceContainer"
    and "row_semantics nmeets norg_of nr_cluster_uuid nr_project ResourceProject"
    and "database_ok meets nmeets env" "router_ok router"
    and "answer router unmarshal sprint reply base env header req = Some rep"
  shows "(case rep of
       Containers resp \<Rightarrow> shows_only (\<lambda>r. row_of_caller unmarshal header (org_of (r\<lparr>rr_json := None\<rparr>))) env resp
     | Namespaces resp \<Rightarrow> list_all (\<lambda>r. row_of_caller unmarshal header (norg_of (r\<lparr>nr_json := None\<rparr>))) (shown resp)
     | _ \<Rightarrow> True)
    \<and> (DecodeString header = None \<longrightarrow>
         rep \<in> {NoRoute, StatusReply GetAppStatus, FileReply (RowJson 200 ''openapi.json''),
                Containers (HttpError 401 ''Unable to decode X-Rh-Identity''), Namespaces (HttpError 401 ''Unable to decode X-Rh-Identity'')})"
  using answer_cases [OF assms(4,5)]
  by (elim disjE exE conjE)
    (auto intro: shows_only_mono [OF containers_served [OF assms(1,3)]] list.pred_mono_strong [OF namespaces_served [OF assms(2,3)]]
      dest: refused_without_identity)

section \<open>A router\<close>

text \<open>A path that fits no route exactly fits a route with a parameter in its last place.\<close>

definition fits :: "string \<Rightarrow> string \<Rightarrow> bool" where
  "fits p pattern = (let pre = takeWhile (\<lambda>c. c \<noteq> CHR '':'') pattern; v = drop (length pre) p in
     pre \<noteq> pattern \<and> take (length pre) p = pre \<and> v \<noteq> [] \<and> CHR ''/'' \<notin> set v)"

definition demo_router :: "echo_route list \<Rightarrow> string \<Rightarrow> (echo_route \<times> string) option" where
  "demo_router rs p =
     (case List.find (\<lambda>r. er_path r = p) rs of
        Some r \<Rightarrow> Some (r, [])
      | None \<Rightarrow> map_option (\<lambda>r. (r, drop (length (takeWhile (\<lambda>c. c \<noteq> CHR '':'') (er_path r))) p)) (List.find (\<lambda>r. fits p (er_path r)) rs))"

lemma find_in: "List.find P rs = Some r \<Longrightarrow> r \<in> set rs \<and> P r"
  by (auto simp: find_Some_iff)

lemma find_path:
  assumes "distinct (map er_path rs)" "r \<in> set rs"
  shows "List.find (\<lambda>x. er_path x = er_path r) rs = Some r"
  using assms by (induction rs) auto

lemma demo_router_ok: "router_ok demo_router"
  by (auto simp: router_ok_def demo_router_def find_path dest: find_in split: option.splits)

definition demo_call :: api_request where
  "demo_call = demo_request []\<lparr>hq_path := ''/api/cost-management/v1/recommendations/openshift/id1''\<rparr>"

lemma demo_found:
  "\<exists>r. demo_router (ea_routes (api_app (a_cfg demo_env))) (hq_path demo_call) = Some (r, ''id1'') \<and> er_endpoint r = ContainerById
     \<and> er_chain r = protected (a_cfg demo_env)"
  by (simp add: demo_router_def api_app_def server_calls_def demo_call_def demo_env_def example_config_def protected_def fits_def)

definition demo_passed :: api_request where
  "demo_passed = demo_call\<lparr>hq_org := ''org1'', hq_permissions := Some [(''openshift.cluster'', [''c1''])], hq_id := ''id1''\<rparr>"

lemma demo_passed_shown: "shown (GetRecommendationSet demo_env demo_passed) = [demo_row]"
  by code_simp

lemma demo_answered:
  "answer demo_router Some (\<lambda>_. []) (\<lambda>_. demo_reply) [] demo_env (EncodeToString ''org1'') demo_call
   = Some (Containers (GetRecommendationSet demo_env demo_passed))"
proof -
  have "RBACEnabled (a_cfg demo_env)" by (simp add: demo_env_def example_config_def)
  then have "serve Some (\<lambda>_. []) (\<lambda>_. demo_reply) [] GetRecommendationSet demo_env (EncodeToString ''org1'')
      (demo_call\<lparr>hq_org := [], hq_permissions := None, hq_id := ''id1''\<rparr>) = Some (GetRecommendationSet demo_env demo_passed)"
    by (simp add: serve_def Identity_def DecodeString_encoded route_def demo_middleware demo_passed_def demo_call_def demo_request_def
        del: EncodeToString.simps)
  then show ?thesis using demo_found by (auto simp: answer_def run_protected)
qed

theorem answered_to_their_organisation_witness:
  "\<exists>resp. answer demo_router Some (\<lambda>_. []) (\<lambda>_. demo_reply) [] demo_env (EncodeToString ''org1'') demo_call = Some (Containers resp)
     \<and> shown resp = [demo_row] \<and> row_of_caller Some (EncodeToString ''org1'') (rr_source_id (demo_row\<lparr>rr_json := None\<rparr>))"
proof -
  have "shows_only (\<lambda>r. row_of_caller Some (EncodeToString ''org1'') (rr_source_id (r\<lparr>rr_json := None\<rparr>))) demo_env
      (GetRecommendationSet demo_env demo_passed)"
    using answered_to_their_organisation [OF demo_semantics [OF disjI1 [OF refl]] demo_semantics [OF disjI2 [OF refl]] demo_database
        demo_router_ok demo_answered] by simp
  from shows_only_shown [OF this, of demo_row] demo_answered show ?thesis by (auto simp: demo_passed_shown simp del: EncodeToString.simps)
qed

end
