(* ===== verification/Pipeline.thy ===== *)
theory Pipeline
  imports ReportProcessor Consumer Housekeeper
begin

text \<open>
  The services together.  The processor's requests go through the recommendation topic to the poller, and all share one
  database.  Any number of instances of the processor, the poller and the housekeeper run at once; each handler's events take
  place one by one between those of the others, and an instance may end at any time.  What an instance is told by the outside
  is up to a world of its own, so every interleaving and every reply is among the runs.  Messages may be delivered again and in any
  order.
\<close>

section \<open>The system\<close>

record system =
  sy_history :: "event list"
  sy_topic :: "string list"
  sy_running :: "event list list"

definition same_program :: "world \<Rightarrow> world \<Rightarrow> bool" where
  "same_program w w' =
     (w_cfg w' = w_cfg w \<and> w_encode_message w' = w_encode_message w \<and> w_decode_request w' = w_decode_request w
      \<and> w_valid_report w' = w_valid_report w \<and> w_valid_request w' = w_valid_request w \<and> w_encode_data w' = w_encode_data w)"

text \<open>What an event adds to the recommendation topic.\<close>

definition topic_after :: "world \<Rightarrow> event \<Rightarrow> string list \<Rightarrow> string list" where
  "topic_after w e topic =
     (case e of
        Produce t k b Delivered \<Rightarrow> if t = RecommendationTopic (w_cfg w) then topic @ [b] else topic
      | _ \<Rightarrow> topic)"

definition started :: "event list \<Rightarrow> system \<Rightarrow> system" where
  "started es s = s\<lparr>sy_running := es # sy_running s\<rparr>"

text \<open>The events of a handler that is started now.  \<open>parse\<close> gives the JSON value of a message's bytes.\<close>

inductive begins :: "world \<Rightarrow> (string \<Rightarrow> json option) \<Rightarrow> system \<Rightarrow> event list \<Rightarrow> bool" for w parse s where
  Report: "same_program w w' \<Longrightarrow> ProcessReport w' g uni fuel msg has_consumer (sy_history s) = (r, es) \<Longrightarrow> begins w parse s es"
| Poll: "same_program w w' \<Longrightarrow> b \<in> set (sy_topic s) \<Longrightarrow> PollForRecommendations w' (parse b) (sy_history s) = (r, es) \<Longrightarrow>
    begins w parse s es"
| Sources: "same_program w w' \<Longrightarrow> sourcesListener w' app msg headers (sy_history s) = (r, es) \<Longrightarrow> begins w parse s es"

inductive system_step :: "world \<Rightarrow> (string \<Rightarrow> json option) \<Rightarrow> system \<Rightarrow> system \<Rightarrow> bool" for w parse where
  Begin: "begins w parse s es \<Longrightarrow> system_step w parse s (started es s)"
| Event: "sy_running s = xs @ (e # es) # ys \<Longrightarrow>
    system_step w parse s \<lparr>sy_history = sy_history s @ [e], sy_topic = topic_after w e (sy_topic s), sy_running = xs @ es # ys\<rparr>"
| Stop: "sy_running s = xs @ es # ys \<Longrightarrow> system_step w parse s (s\<lparr>sy_running := xs @ ys\<rparr>)"

inductive reachable :: "world \<Rightarrow> (string \<Rightarrow> json option) \<Rightarrow> system \<Rightarrow> bool" for w parse where
  Start: "reachable w parse \<lparr>sy_history = [], sy_topic = [], sy_running = []\<rparr>"
| Step: "reachable w parse s \<Longrightarrow> system_step w parse s s' \<Longrightarrow> reachable w parse s'"

text \<open>What is on the topic has been sent.\<close>

lemma topic_after_set: "b \<in> set (topic_after w e topic) \<Longrightarrow> b \<in> set topic \<or> (\<exists>t k. e = Produce t k b Delivered)"
  by (auto simp: topic_after_def split: event.splits produce_reply.splits if_splits)

lemma topic_sent: "reachable w parse s \<Longrightarrow> b \<in> set (sy_topic s) \<Longrightarrow> \<exists>t k. Produce t k b Delivered \<in> set (sy_history s)"
proof (induction rule: reachable.induct)
  case Start
  then show ?case by simp
next
  case (Step s s')
  from Step.hyps(2) Step.IH Step.prems show ?case
    by (induction rule: system_step.induct) (auto simp: started_def dest!: topic_after_set)
qed

section \<open>Laws of events\<close>

text \<open>A law says of an event, given the events before it, whether it may happen.  The events of a program are lawful if each obeys the
  law after those before it.\<close>

fun lawful :: "(event set \<Rightarrow> event \<Rightarrow> bool) \<Rightarrow> event set \<Rightarrow> event list \<Rightarrow> bool" where
  "lawful J H [] = True"
| "lawful J H (e # es) = (J H e \<and> lawful J (insert e H) es)"

definition lawfully :: "(event set \<Rightarrow> event \<Rightarrow> bool) \<Rightarrow> 'a prog \<Rightarrow> bool" where
  "lawfully J p = (\<forall>h H. sat p h (\<lambda>r es. lawful J H es))"

definition laws_hold :: "(event set \<Rightarrow> event \<Rightarrow> bool) \<Rightarrow> system \<Rightarrow> bool" where
  "laws_hold J s = (lawful J {} (sy_history s) \<and> list_all (lawful J (set (sy_history s))) (sy_running s))"

named_theorems lawful_rules

lemma lawful_append: "lawful J H (es @ es') = (lawful J H es \<and> lawful J (H \<union> set es) es')"
  by (induction es arbitrary: H) auto

lemma lawful_split: "lawful J H (pre @ e # suf) \<Longrightarrow> J (H \<union> set pre) e"
  by (simp add: lawful_append)

lemma lawfullyD: "lawfully J p \<Longrightarrow> sat p h (\<lambda>r es. lawful J H es)"
  by (simp add: lawfully_def)

lemma lawfully_andthen [lawful_rules]: "lawfully J p \<Longrightarrow> (\<And>a. lawfully J (f a)) \<Longrightarrow> lawfully J (andthen p f)"
  unfolding lawfully_def [of _ "andthen p f"] sat_andthen
  by (intro allI, rule sat_mono [OF lawfullyD]) (auto split: result.split simp: lawful_append intro!: sat_mono [OF lawfullyD])

lemma lawfully_ret [lawful_rules]: "lawfully J (ret a)"
  by (simp add: lawfully_def sat_ret)

lemma lawfully_seq [lawful_rules]: "lawfully J p \<Longrightarrow> lawfully J q \<Longrightarrow> lawfully J (seq p q)"
  by (simp add: seq_def lawfully_andthen)

lemma lawfully_each [lawful_rules]: "(\<And>x. lawfully J (f x)) \<Longrightarrow> lawfully J (each xs f)"
  by (induction xs) (simp_all add: lawful_rules)

lemma lawfully_if [lawful_rules]: "lawfully J p \<Longrightarrow> lawfully J q \<Longrightarrow> lawfully J (if b then p else q)"
  by simp

text \<open>A law that further events before do not break.  Then it is enough that every handler is lawful when it begins, however the
  handlers interleave.\<close>

locale event_law =
  fixes J :: "event set \<Rightarrow> event \<Rightarrow> bool"
  assumes mono: "J H e \<Longrightarrow> H \<subseteq> H' \<Longrightarrow> J H' e"
begin

lemma lawful_mono: "lawful J H es \<Longrightarrow> H \<subseteq> H' \<Longrightarrow> lawful J H' es"
proof (induction es arbitrary: H H')
  case (Cons e es)
  then show ?case using mono [of H e H'] Cons.IH [of "insert e H" "insert e H'"] by auto
qed simp

lemma lawful_all: "list_all (J H) es \<Longrightarrow> lawful J H es"
proof (induction es arbitrary: H)
  case (Cons e es)
  then have "list_all (J (insert e H)) es" by (auto simp: list_all_iff intro: mono)
  with Cons show ?case by simp
qed simp

lemma lawful_member: "lawful J H es \<Longrightarrow> e \<in> set es \<Longrightarrow> J (H \<union> set es) e"
  by (auto simp: in_set_conv_decomp [of e es] dest!: lawful_split intro: mono)

lemma lawfully_only:
  assumes "only (J {}) p"
  shows "lawfully J p"
  unfolding lawfully_def
proof (intro allI, rule sat_mono [OF only_sat [OF assms]], rule lawful_all)
  fix H es assume "list_all (J {}) es"
  then show "list_all (J H) es" using mono [of "{}" _ H] by (simp add: list_all_iff)
qed

lemma laws_event:
  assumes "laws_hold J s" "sy_running s = xs @ (e # es) # ys"
  shows "laws_hold J \<lparr>sy_history = sy_history s @ [e], sy_topic = t, sy_running = xs @ es # ys\<rparr>"
proof -
  let ?H = "set (sy_history s)"
  have "lawful J (insert e ?H) es'" if "es' \<in> set (xs @ ys)" for es'
    using assms that by (auto simp: laws_hold_def list_all_iff intro: lawful_mono [of ?H])
  with assms show ?thesis by (auto simp: laws_hold_def lawful_append list_all_iff)
qed

lemma reachable_laws:
  assumes "reachable w parse s"
    and "\<And>s es. reachable w parse s \<Longrightarrow> laws_hold J s \<Longrightarrow> begins w parse s es \<Longrightarrow> lawful J (set (sy_history s)) es"
  shows "laws_hold J s"
  using assms(1)
proof (induction rule: reachable.induct)
  case Start
  then show ?case by (simp add: laws_hold_def)
next
  case (Step s s')
  from Step.hyps(2) Step.IH Step.hyps(1) show ?case
  proof (induction rule: system_step.induct)
    case (Begin s es)
    with assms(2) show ?case by (simp add: laws_hold_def started_def)
  next
    case (Event s xs e es ys)
    then show ?case by (blast intro: laws_event)
  next
    case (Stop s xs es ys)
    then show ?case by (simp add: laws_hold_def)
  qed
qed

end

section \<open>What justifies an event\<close>

text \<open>Among the events \<open>H\<close> a workload was saved with the given organisation, identifier and experiment.\<close>

definition saved_workload :: "event set \<Rightarrow> string \<Rightarrow> nat \<Rightarrow> string \<Rightarrow> bool" where
  "saved_workload H org i en = (\<exists>wl. SaveWorkload wl (Inr i) \<in> H \<and> wl_org_id wl = org \<and> wl_experiment_name wl = en)"

definition saved_for :: "event set \<Rightarrow> RecommendationMetadata \<Rightarrow> bool" where
  "saved_for H md = saved_workload H (md_org_id md) (md_workload_id md) (md_experiment_name md)"

text \<open>A row made of a document for a request: the document's text is stored beside the columns extracted from it.\<close>

definition row_from :: "world \<Rightarrow> RecommendationMetadata \<Rightarrow> RecommendationSet \<Rightarrow> bool" where
  "row_from w md r = (\<exists>name v t now. w_encode_data w v = Inr t \<and> r = stamp_set now (recommendation_row md name v t))"

definition history_from :: "world \<Rightarrow> RecommendationMetadata \<Rightarrow> HistoricalRecommendationSet \<Rightarrow> bool" where
  "history_from w md r = (\<exists>name v t now. w_encode_data w v = Inr t \<and> r = stamp_hist now (historical_row md name v t))"

definition nrow_from :: "world \<Rightarrow> RecommendationMetadata \<Rightarrow> NamespaceRecommendationSet \<Rightarrow> bool" where
  "nrow_from w md r = (\<exists>name v t now. w_encode_data w v = Inr t \<and> r = namespace_row md name v t now)"

definition nhistory_from :: "world \<Rightarrow> RecommendationMetadata \<Rightarrow> HistoricalNamespaceRecommendationSet \<Rightarrow> bool" where
  "nhistory_from w md r = (\<exists>name v t. w_encode_data w v = Inr t \<and> r = namespace_historical_row md name v t)"

text \<open>A row as the poller makes it, with no time yet, is among these, and so is it with a time.\<close>

lemma row_from_made:
  "w_encode_data w v = Inr t \<Longrightarrow> row_from w md (recommendation_row md name v t)"
  "w_encode_data w v = Inr t \<Longrightarrow> history_from w md (historical_row md name v t)"
proof -
  have "recommendation_row md name v t = stamp_set go_zero_time (recommendation_row md name v t)"
    "historical_row md name v t = stamp_hist go_zero_time (historical_row md name v t)"
    by (simp_all add: stamp_set_def stamp_hist_def fill_time_def recommendation_row_def historical_row_def)
  then show "w_encode_data w v = Inr t \<Longrightarrow> row_from w md (recommendation_row md name v t)"
    "w_encode_data w v = Inr t \<Longrightarrow> history_from w md (historical_row md name v t)"
    unfolding row_from_def history_from_def by metis+
qed

lemma stamp_twice:
  "stamp_set now' (stamp_set now r) = stamp_set (fill_time now' now) r" "stamp_hist now' (stamp_hist now h) = stamp_hist (fill_time now' now) h"
  by (simp_all add: stamp_set_def stamp_hist_def fill_time_def)

lemma row_from_stamped:
  "row_from w md r \<Longrightarrow> row_from w md (stamp_set now r)" "history_from w md h \<Longrightarrow> history_from w md (stamp_hist now h)"
  unfolding row_from_def history_from_def by (metis stamp_twice)+

lemma row_from_request:
  "row_from w md r \<Longrightarrow> rset_workload_id r = md_workload_id md"
  "history_from w md h \<Longrightarrow> hist_workload_id h = md_workload_id md \<and> hist_org_id h = md_org_id md"
  "nrow_from w md n \<Longrightarrow> nset_workload_id n = md_workload_id md \<and> nset_org_id n = md_org_id md"
  "nhistory_from w md nh \<Longrightarrow> nhist_workload_id nh = md_workload_id md \<and> nhist_org_id nh = md_org_id md"
  by (auto simp: row_from_def history_from_def nrow_from_def nhistory_from_def recommendation_row_def historical_row_def
      namespace_row_def namespace_historical_row_def stamp_set_def stamp_hist_def)

text \<open>A request is sent, and a recommendation is saved, only for a workload that was saved before.\<close>

definition justified :: "world \<Rightarrow> event set \<Rightarrow> event \<Rightarrow> bool" where
  "justified w H e =
     (case e of
        Produce t k b q \<Rightarrow> (\<exists>m. w_encode_message w m = Inr b \<and> saved_for H (km_metadata m))
      | SaveSet r q \<Rightarrow> (\<exists>md. saved_for H md \<and> row_from w md r)
      | SaveHistory r q \<Rightarrow> (\<exists>md. saved_for H md \<and> history_from w md r)
      | SaveNamespaceSet r q \<Rightarrow> (\<exists>md. saved_for H md \<and> nrow_from w md r)
      | SaveNamespaceHistory r q \<Rightarrow> (\<exists>md. saved_for H md \<and> nhistory_from w md r)
      | _ \<Rightarrow> True)"

lemma saved_for_mono: "saved_for H md \<Longrightarrow> H \<subseteq> H' \<Longrightarrow> saved_for H' md"
  by (auto simp: saved_for_def saved_workload_def)

lemma justified_mono: "justified w H e \<Longrightarrow> H \<subseteq> H' \<Longrightarrow> justified w H' e"
  by (cases e) (auto simp: justified_def intro: saved_for_mono)

interpretation justification: event_law "justified w" for w
  by unfold_locales (rule justified_mono)

lemma same_justified:
  assumes "same_program w w'"
  shows "justified w' = justified w"
  using assms by (auto simp: fun_eq_iff justified_def same_program_def row_from_def history_from_def nrow_from_def nhistory_from_def
      split: event.split)

section \<open>The processor is lawful\<close>

lemma silent_justified: "silent e \<Longrightarrow> justified w H e"
  by (cases e) (simp_all add: silent_def justified_def)

lemma stored_first_lawful:
  assumes "stored_first w msg wl t ty es" "wl_org_id wl = rp_org_id msg"
  shows "lawful (justified w) H es"
proof -
  have l: "lawful (justified w) (insert (SaveWorkload wl (Inr i)) H) rest"
    if "list_all (is_request w (request_message msg i t (wl_experiment_name wl) ty)) rest" for i rest
  proof (rule justification.lawful_all, unfold list_all_iff, rule ballI)
    fix e assume "e \<in> set rest"
    with that have e: "is_request w (request_message msg i t (wl_experiment_name wl) ty) e" by (auto simp: list_all_iff)
    have s: "saved_for (insert (SaveWorkload wl (Inr i)) H) (km_metadata (request_message msg i t (wl_experiment_name wl) ty))"
      using assms(2) by (auto simp: saved_for_def saved_workload_def request_message_def)
    show "justified w (insert (SaveWorkload wl (Inr i)) H) e"
    proof (cases "silent e")
      case False
      with e s show ?thesis by (cases e) (auto simp: is_request_def justified_def)
    qed (simp add: silent_justified)
  qed
  have q: "lawful (justified w) H' rest" if "list_all silent rest" for H' rest
    using that by (auto intro!: justification.lawful_all simp: list_all_iff silent_justified)
  show ?thesis
    using assms(1) unfolding stored_first_def
    by (auto split: list.splits event.splits sum.splits simp: justified_def l q)
qed

lemma group_lawful: "group_order w msg ty es \<Longrightarrow> lawful (justified w) H es"
proof -
  have q: "list_all silent es \<Longrightarrow> lawful (justified w) H es" for H es
    by (auto intro!: justification.lawful_all simp: list_all_iff silent_justified)
  show "group_order w msg ty es \<Longrightarrow> lawful (justified w) H es"
    unfolding group_order_def by (auto simp: lawful_append q stored_first_lawful)
qed

lemma groups_lawful [lawful_rules]:
  "lawfully (justified w) (process_container_group w g fuel msg i v)"
  "lawfully (justified w) (process_namespace_group w g fuel msg i v)"
  unfolding lawfully_def
  by (auto intro!: sat_mono [OF container_group_order] sat_mono [OF namespace_group_order] group_lawful)

lemma justified_simps [simp]:
  "justified w H (Inc c)" "justified w H (Clock t)" "justified w H (Download u r)" "justified w H (CommitMessage x)"
  "justified w H (SaveAccount a r1)" "justified w H (SaveCluster c1 r2)" "justified w H (Http m u q b r3)"
  "justified w H (FirstCluster i r4)" "justified w H (FindWorkloads k r5)" "justified w H (DeleteCluster i r6)"
  by (simp_all add: justified_def)

lemma file_parts_lawful [lawful_rules]:
  "lawfully (justified w) (ReadCSVFromUrl w url)" "lawfully (justified w) (Aggregate_data g uni ty df)" "lawfully (justified w) (ensure_account w msg acc)"
  "lawfully (justified w) (ensure_cluster w msg t cl)" "lawfully (justified w) (emit (Inc c))"
  unfolding ReadCSVFromUrl_def Aggregate_data_def ensure_account_def CreateRHAccount_def ensure_cluster_def CreateCluster_def
  by (auto intro!: justification.lawfully_only only_rules simp: Let_def split: option.split sum.split prod.split)

lemma process_file_lawful [lawful_rules]: "lawfully (justified w) (process_file w g uni fuel msg st file)"
  unfolding process_file_def Let_def by (auto intro!: lawful_rules split: sum.split option.split)

lemma process_files_lawful [lawful_rules]: "lawfully (justified w) (process_files w g uni fuel msg st files)"
  by (induction files arbitrary: st) (auto intro!: lawful_rules)

lemma ProcessReport_lawful: "lawfully (justified w) (ProcessReport w g uni fuel msg has_consumer)"
proof -
  have c: "lawfully (justified w) (commitOnPermanentFailure w has_consumer)"
    unfolding commitOnPermanentFailure_def by (auto intro!: justification.lawfully_only only_rules)
  show ?thesis
    unfolding ProcessReport_def by (auto intro!: lawful_rules c split: option.split sum.split)
qed


section \<open>The poller is lawful\<close>

text \<open>A row is made of a document for the request.\<close>

definition for_request :: "world \<Rightarrow> RecommendationMetadata \<Rightarrow> event \<Rightarrow> bool" where
  "for_request w md e =
     (case e of
        Produce t k b q \<Rightarrow> False
      | SaveSet r q \<Rightarrow> row_from w md r
      | SaveHistory r q \<Rightarrow> history_from w md r
      | SaveNamespaceSet r q \<Rightarrow> nrow_from w md r
      | SaveNamespaceHistory r q \<Rightarrow> nhistory_from w md r
      | SaveAccount a q \<Rightarrow> False
      | SaveCluster c q \<Rightarrow> False
      | SaveWorkload wl q \<Rightarrow> False
      | _ \<Rightarrow> True)"

lemma for_request_simps [simp]:
  "for_request w md (Inc c)" "for_request w md (Clock t)" "for_request w md (CommitMessage x)" "for_request w md (Http m u q b r3)"
  "for_request w md (BeginTx x)" "for_request w md (CommitTx x)" "for_request w md RollbackTx" "for_request w md (FirstSet k fs)"
  "for_request w md (FirstNamespaceSet k fn)" "for_request w md (FirstWorkload k fw)"
  by (simp_all add: for_request_def)

lemma for_request_justified: "saved_for H md \<Longrightarrow> for_request w md e \<Longrightarrow> justified w H e"
  by (cases e) (auto simp: for_request_def justified_def)

definition row_ok :: "world \<Rightarrow> RecommendationMetadata \<Rightarrow> RecommendationSet \<times> HistoricalRecommendationSet \<Rightarrow> bool" where
  "row_ok w md p = (case p of (r, h) \<Rightarrow> row_from w md r \<and> history_from w md h)"

definition nrow_ok :: "world \<Rightarrow> RecommendationMetadata \<Rightarrow> NamespaceRecommendationSet \<times> HistoricalNamespaceRecommendationSet \<Rightarrow> bool" where
  "nrow_ok w md p = (case p of (r, h) \<Rightarrow> nrow_from w md r \<and> nhistory_from w md h)"

lemma container_rows_ok: "list_all (row_ok w md) (container_rows w md name ds)"
  by (induction w md name ds rule: container_rows.induct)
    (auto simp: row_ok_def row_from_made split: sum.split)

text \<open>A program whose events are for the request, with a result that satisfies \<open>R\<close>.\<close>

definition yields :: "world \<Rightarrow> RecommendationMetadata \<Rightarrow> ('a \<Rightarrow> bool) \<Rightarrow> 'a prog \<Rightarrow> bool" where
  "yields w md R p = (\<forall>h. sat p h (\<lambda>r es. list_all (for_request w md) es \<and> (case r of Done a \<Rightarrow> R a | _ \<Rightarrow> True)))"

named_theorems yields_rules

lemma yieldsD: "yields w md R p \<Longrightarrow> sat p h (\<lambda>r es. list_all (for_request w md) es \<and> (case r of Done a \<Rightarrow> R a | _ \<Rightarrow> True))"
  by (simp add: yields_def)

lemma yields_andthen: "yields w md R p \<Longrightarrow> (\<And>a. R a \<Longrightarrow> yields w md R' (f a)) \<Longrightarrow> yields w md R' (andthen p f)"
  unfolding yields_def [of _ _ _ "andthen p f"] sat_andthen
  by (intro allI, rule sat_mono [OF yieldsD]) (auto split: result.splits intro!: sat_mono [OF yieldsD])

lemma yields_ret [yields_rules]: "R a \<Longrightarrow> yields w md R (ret a)"
  by (simp add: yields_def sat_ret)

lemma yields_stop [yields_rules]: "yields w md R (stop c)"
  by (simp add: yields_def sat_stop)

lemma yields_only: "only (for_request w md) p \<Longrightarrow> yields w md (\<lambda>_. True) p"
  by (auto simp: yields_def split: result.split intro!: sat_mono [OF only_sat])

lemma yields_then [yields_rules]: "only (for_request w md) p \<Longrightarrow> (\<And>a. yields w md R (f a)) \<Longrightarrow> yields w md R (andthen p f)"
  by (rule yields_andthen [OF yields_only])

lemma yields_inc [yields_rules]: "yields w md R p \<Longrightarrow> yields w md R (seq (emit (Inc c)) p)"
  unfolding seq_def by (rule yields_then) (simp_all add: only_emit)

lemma fetch_for_request [only_rules]: "only (for_request w md) (fetchRecommendationFromKruize w en t ty)"
  unfolding fetchRecommendationFromKruize_def Update_recommendations_def Let_def
  by (rule onlyI) (simp add: sat_rules split: option.split sum.split)

lemma valid_for_request [only_rules]: "only (for_request w md) (IsValidRecommendation rec t ty)"
  unfolding IsValidRecommendation_def by (auto intro!: only_rules split: option.split)

lemma containers_loop_yields: "yields w md (\<lambda>(b, rows). list_all (row_ok w md) rows) (containers_loop w md cs)"
proof (induction cs)
  case (Cons c cs)
  show ?case
    unfolding containers_loop.simps
    by (intro yields_then valid_for_request yields_andthen [OF Cons.IH])
      (auto intro!: yields_ret simp: container_rows_ok)
qed (simp add: yields_ret)

lemma namespace_row_ok: "w_encode_data w v = Inr d \<Longrightarrow> nrow_ok w md (namespace_row md name v d t, namespace_historical_row md name v d)"
  by (auto simp: nrow_ok_def nrow_from_def nhistory_from_def)

lemma namespace_rows_yields: "yields w md (list_all (nrow_ok w md)) (namespace_rows w md name ds)"
proof (induction ds)
  case (Cons d ds)
  obtain k v where d: "d = (k, v)" by (cases d)
  show ?case
    unfolding d namespace_rows.simps
    by (auto intro!: yields_then only_ask yields_andthen [OF Cons.IH] yields_ret Cons.IH split: sum.split
        simp: namespace_row_ok)
qed (simp add: yields_ret)

lemma container_half_yields:
  "yields w md (\<lambda>x. case x of None \<Rightarrow> True | Some (b, rows) \<Rightarrow> list_all (row_ok w md) rows) (container_half w md)"
  unfolding container_half_def
  by (auto intro!: yields_rules fetch_for_request yields_andthen [OF containers_loop_yields]
      split: sum.split recommendations.split list.split)

lemma namespace_half_yields:
  "yields w md (\<lambda>x. case x of None \<Rightarrow> True | Some (b, rows) \<Rightarrow> list_all (nrow_ok w md) rows) (namespace_half w md b)"
  unfolding namespace_half_def
  by (auto intro!: yields_rules fetch_for_request valid_for_request yields_andthen [OF namespace_rows_yields]
      split: sum.split recommendations.split list.split)

lemma save_each_for: "(\<And>r. r \<in> set rs \<Longrightarrow> only (for_request w md) (save r)) \<Longrightarrow> only (for_request w md) (save_each save rs)"
  by (induction rs) (auto intro!: only_rules split: option.split)

lemma create_for_request:
  "row_from w md r \<Longrightarrow> only (for_request w md) (CreateRecommendationSet w r)"
  "history_from w md hr \<Longrightarrow> only (for_request w md) (CreateHistoricalRecommendationSet w hr)"
  "nrow_from w md n \<Longrightarrow> only (for_request w md) (CreateNamespaceRecommendationSet w n)"
  "nhistory_from w md nh \<Longrightarrow> only (for_request w md) (CreateHistoricalNamespaceRecommendationSet w nh)"
  unfolding CreateRecommendationSet_def CreateHistoricalRecommendationSet_def CreateNamespaceRecommendationSet_def
    CreateHistoricalNamespaceRecommendationSet_def
  by (auto intro!: only_rules split: db_reply.split) (simp_all add: for_request_def row_from_stamped)

lemma transactions_for_request:
  "list_all (row_ok w md) rows \<Longrightarrow> only (for_request w md) (transactionForContainerRecommendation w (map fst rows) (map snd rows))"
  "list_all (nrow_ok w md) nrows \<Longrightarrow> only (for_request w md) (transactionForNamespaceRecommendation w (map fst nrows) (map snd nrows))"
  unfolding transactionForContainerRecommendation_def transactionForNamespaceRecommendation_def
  by (auto intro!: only_rules save_each_for create_for_request split: option.split simp: list_all_iff row_ok_def nrow_ok_def) fastforce+

lemma save_half_for: "only (for_request w md) (tx (map fst rows) (map snd rows)) \<Longrightarrow> only (for_request w md) (save_half tx c rows b)"
  unfolding save_half_def by (auto intro!: only_rules split: option.split)

lemma only_yields: "yields w md (\<lambda>_. True) p \<Longrightarrow> only (for_request w md) p"
  by (rule onlyI, rule sat_mono [OF yieldsD]) auto

lemma request_for: "only (for_request w md) (requestAndSaveRecommendation w md)"
proof -
  have s: "yields w md (\<lambda>_. True) (andthen (save_half (transactionForContainerRecommendation w) c rows i)
      (save_half (transactionForNamespaceRecommendation w) c' nrows))"
    if "list_all (row_ok w md) rows" "list_all (nrow_ok w md) nrows" for rows nrows c c' i
    using that by (intro yields_only only_andthen save_half_for transactions_for_request)
  have n: "yields w md (\<lambda>_. True) (andthen (namespace_half w md i) (\<lambda>second. case second of
        None \<Rightarrow> ret i
      | Some (i', nrows) \<Rightarrow> andthen (save_half (transactionForContainerRecommendation w) c rows i')
          (save_half (transactionForNamespaceRecommendation w) c' nrows)))"
    if "list_all (row_ok w md) rows" for rows c c' i
    by (rule yields_andthen [OF namespace_half_yields]) (auto intro!: yields_ret s that split: option.splits)
  show ?thesis
    unfolding requestAndSaveRecommendation_def
    by (rule only_yields, rule yields_andthen [OF container_half_yields]) (auto intro!: yields_ret n split: option.splits)
qed

lemma commit_for [only_rules]: "only (for_request w md) (commitKafkaMsg w)"
  unfolding commitKafkaMsg_def by (auto intro!: only_rules)

lemma poll_workload_for: "only (for_request w md) (poll_workload w md stored)"
  unfolding poll_workload_def WorkloadExistsByID_def Let_def
  by (auto intro!: only_rules request_for split: sum.split option.split)

text \<open>Everything the poller does for a request is for its workload; for other messages it saves nothing.\<close>

lemma PollForRecommendations_for:
  "only (case msg of None \<Rightarrow> is_commit | Some j \<Rightarrow> (case w_decode_request w j of Inl err \<Rightarrow> is_commit | Inr m \<Rightarrow> for_request w (km_metadata m)))
    (PollForRecommendations w msg)"
  unfolding PollForRecommendations_def Let_def commitKafkaMsg_def GetFirstRecommendationSetsByWorkloadID_def
    GetFirstNamespaceRecommendationSetsByWorkloadID_def
  by (auto intro!: only_rules poll_workload_for split: option.split sum.split)

lemma Poll_lawful:
  assumes "w_decode_request w j = Inr m" "saved_for H (km_metadata m)" "PollForRecommendations w (Some j) h = (r, es)"
  shows "lawful (justified w) H es"
proof (rule justification.lawful_all)
  have "list_all (for_request w (km_metadata m)) es"
    using satD [OF only_sat [OF PollForRecommendations_for] assms(3)] assms(1) by simp
  then show "list_all (justified w H) es"
    by (auto simp: list_all_iff intro: for_request_justified [OF assms(2)])
qed


section \<open>The housekeeper is lawful\<close>

text \<open>It only reads and deletes.\<close>

definition cleaning :: "event \<Rightarrow> bool" where
  "cleaning e =
     (case e of
        Http _ _ _ _ _ \<Rightarrow> True | FirstCluster _ _ \<Rightarrow> True | FindWorkloads _ _ \<Rightarrow> True | DeleteCluster _ _ \<Rightarrow> True | Inc _ \<Rightarrow> True
      | _ \<Rightarrow> False)"

lemma cleaning_simps [simp]:
  "cleaning (Http m u q b r)" "cleaning (FirstCluster i r1)" "cleaning (FindWorkloads k r2)" "cleaning (DeleteCluster i r3)" "cleaning (Inc c)"
  by (simp_all add: cleaning_def)

lemma delete_cleaning [only_rules]: "only cleaning (delete_cluster w i)" "only cleaning (DeleteExperimentFromKruize w en)"
  unfolding delete_cluster_def DeleteExperimentFromKruize_def Let_def
  by (auto intro!: only_rules split: option.split sum.split)

lemma sourcesListener_cleaning: "only cleaning (sourcesListener w app msg headers)"
proof (induction headers arbitrary: app msg)
  case (Cons hd1 headers)
  obtain key v where h: "hd1 = (key, v)" by (cases hd1)
  show ?case
    unfolding h sourcesListener.simps
    by (auto intro!: only_rules Cons.IH split: option.split sum.split lookup.split)
qed (simp add: only_ret)

lemma cleaning_justified: "cleaning e \<Longrightarrow> justified w H e"
  by (cases e) (simp_all add: cleaning_def justified_def)

lemma sourcesListener_lawful: "lawfully (justified w) (sourcesListener w app msg headers)"
  by (rule justification.lawfully_only [OF only_weaken [OF sourcesListener_cleaning cleaning_justified]])

section \<open>The invariant of the system\<close>

definition codec_ok :: "world \<Rightarrow> (string \<Rightarrow> json option) \<Rightarrow> bool" where
  "codec_ok w parse = (\<forall>m b. w_encode_message w m = Inr b \<longrightarrow> (\<exists>j. parse b = Some j \<and> w_decode_request w j = Inr m))"

text \<open>What is on the topic was asked for a saved workload.\<close>

lemma topic_justified:
  assumes "reachable w parse s" "laws_hold (justified w) s" "b \<in> set (sy_topic s)"
  shows "\<exists>m. w_encode_message w m = Inr b \<and> saved_for (set (sy_history s)) (km_metadata m)"
proof -
  obtain t k where "Produce t k b Delivered \<in> set (sy_history s)" using topic_sent [OF assms(1,3)] by blast
  with assms(2) have "justified w (set (sy_history s)) (Produce t k b Delivered)"
    using justification.lawful_member [of w "{}" "sy_history s"] by (simp add: laws_hold_def)
  then show ?thesis by (simp add: justified_def)
qed

lemma begins_justified:
  assumes "codec_ok w parse" "reachable w parse s" "laws_hold (justified w) s" "begins w parse s es"
  shows "lawful (justified w) (set (sy_history s)) es"
  using assms(4)
proof cases
  case (Report w' g uni fuel msg has_consumer r)
  from satD [OF lawfullyD [OF ProcessReport_lawful] Report(2)] show ?thesis by (simp add: same_justified [OF Report(1)])
next
  case (Poll w' b r)
  from topic_justified [OF assms(2,3) Poll(2)] obtain m where
    m: "w_encode_message w m = Inr b" "saved_for (set (sy_history s)) (km_metadata m)" by blast
  with assms(1) obtain j where j: "parse b = Some j" "w_decode_request w j = Inr m" by (auto simp: codec_ok_def)
  then have "w_decode_request w' j = Inr m" using Poll(1) by (simp add: same_program_def)
  from Poll_lawful [OF this m(2) Poll(3) [unfolded j(1)]] show ?thesis by (simp add: same_justified [OF Poll(1)])
next
  case (Sources w' app msg headers r)
  from satD [OF lawfullyD [OF sourcesListener_lawful] Sources(2)] show ?thesis by (simp add: same_justified [OF Sources(1)])
qed

lemma reachable_justified: "reachable w parse s \<Longrightarrow> codec_ok w parse \<Longrightarrow> laws_hold (justified w) s"
  by (rule justification.reachable_laws, assumption, rule begins_justified)

text \<open>C2: However the services interleave, crash and repeat messages, every recommendation that is saved, and its history, is for a
  workload that the processor saved before, and the history carries that workload's organisation; and every message on the
  recommendation topic can be decoded and asks for a workload that was saved.\<close>

theorem saved_recommendations_have_workloads:
  assumes "codec_ok w parse" "reachable w parse s"
  shows "(\<forall>pre r q suf. sy_history s = pre @ SaveSet r q # suf \<longrightarrow>
        (\<exists>wl. SaveWorkload wl (Inr (rset_workload_id r)) \<in> set pre))
    \<and> (\<forall>pre r q suf. sy_history s = pre @ SaveHistory r q # suf \<longrightarrow>
        (\<exists>wl. SaveWorkload wl (Inr (hist_workload_id r)) \<in> set pre \<and> wl_org_id wl = hist_org_id r))
    \<and> (\<forall>pre r q suf. sy_history s = pre @ SaveNamespaceSet r q # suf \<longrightarrow>
        (\<exists>wl. SaveWorkload wl (Inr (nset_workload_id r)) \<in> set pre \<and> wl_org_id wl = nset_org_id r))
    \<and> (\<forall>b \<in> set (sy_topic s). \<exists>j m wl. parse b = Some j \<and> w_decode_request w j = Inr m
        \<and> SaveWorkload wl (Inr (md_workload_id (km_metadata m))) \<in> set (sy_history s)
        \<and> wl_org_id wl = md_org_id (km_metadata m) \<and> wl_experiment_name wl = md_experiment_name (km_metadata m))"
proof -
  have ok: "laws_hold (justified w) s" by (rule reachable_justified [OF assms(2,1)])
  then have l: "lawful (justified w) {} (sy_history s)" by (simp add: laws_hold_def)
  have "\<exists>wl. SaveWorkload wl (Inr (rset_workload_id r)) \<in> set pre" if "sy_history s = pre @ SaveSet r q # suf" for pre r q suf
    using lawful_split [OF l [unfolded that]] by (auto simp: justified_def saved_for_def saved_workload_def dest!: row_from_request(1))
  moreover have "\<exists>wl. SaveWorkload wl (Inr (hist_workload_id r)) \<in> set pre \<and> wl_org_id wl = hist_org_id r"
    if "sy_history s = pre @ SaveHistory r q # suf" for pre r q suf
    using lawful_split [OF l [unfolded that]] by (auto simp: justified_def saved_for_def saved_workload_def dest!: row_from_request(2))
  moreover have "\<exists>wl. SaveWorkload wl (Inr (nset_workload_id r)) \<in> set pre \<and> wl_org_id wl = nset_org_id r"
    if "sy_history s = pre @ SaveNamespaceSet r q # suf" for pre r q suf
    using lawful_split [OF l [unfolded that]] by (auto simp: justified_def saved_for_def saved_workload_def dest!: row_from_request(3))
  moreover have "\<exists>j m wl. parse b = Some j \<and> w_decode_request w j = Inr m
        \<and> SaveWorkload wl (Inr (md_workload_id (km_metadata m))) \<in> set (sy_history s)
        \<and> wl_org_id wl = md_org_id (km_metadata m) \<and> wl_experiment_name wl = md_experiment_name (km_metadata m)"
    if "b \<in> set (sy_topic s)" for b
    using topic_justified [OF assms(2) ok that] assms(1) unfolding codec_ok_def saved_for_def saved_workload_def by metis
  ultimately show ?thesis by blast
qed

section \<open>A run\<close>

text \<open>A report with one namespace is processed, and its request is polled.\<close>

lemma reachable_plays:
  "reachable w parse s \<Longrightarrow> sy_running s = [es] \<Longrightarrow>
    reachable w parse \<lparr>sy_history = sy_history s @ es, sy_topic = fold (topic_after w) es (sy_topic s), sy_running = []\<rparr>"
proof (induction es arbitrary: s)
  case Nil
  have "system_step w parse s (s\<lparr>sy_running := [] @ []\<rparr>)"
    by (rule system_step.Stop [where es = "[]"]) (simp add: Nil.prems(2))
  with Nil.prems have "reachable w parse (s\<lparr>sy_running := []\<rparr>)" by (auto intro: reachable.Step)
  then show ?case by (cases s) simp
next
  case (Cons e es)
  let ?s = "\<lparr>sy_history = sy_history s @ [e], sy_topic = topic_after w e (sy_topic s), sy_running = [] @ es # []\<rparr>"
  have "system_step w parse s ?s" by (rule system_step.Event) (simp add: Cons.prems(2))
  with Cons.prems(1) have "reachable w parse ?s" by (rule reachable.Step)
  from Cons.IH [OF this] show ?case by simp
qed

definition run_gota :: gota where
  "run_gota = \<lparr>g_load = (\<lambda>cols records. \<lparr>fr_names = map fst cols,
       fr_rows = [[(''interval_end'', CStr ''2024-01-01 00:00:00 +0000 UTC''), (''namespace'', CStr ''shop'')]]\<rparr>),
     g_filter = (\<lambda>fs df. df), g_set_column = (\<lambda>k f df. df), g_group = (\<lambda>cols df. [df]),
     g_aggregate = (\<lambda>aggs dfs. hd dfs), g_regroup = (\<lambda>cols rows. [])\<rparr>"

definition run_report :: KafkaMsg where
  "run_report = \<lparr>rp_request_id = ''r1'', rp_b64_identity = ''id'', rp_account = ''a1'', rp_org_id = ''org1'', rp_source_id = ''s1'',
     rp_cluster_uuid = ''c1'', rp_cluster_alias = ''alias'', rp_files = [''namespace.csv'']\<rparr>"

definition run_request :: RecommendationKafkaMsg where
  "run_request = \<lparr>km_request_id = ''r1'', km_metadata = \<lparr>md_org_id = ''org1'', md_workload_id = 1,
     md_experiment_name = ''org1|s1|c1|namespace|shop'',
     md_max_endtime_report = \<lparr>t_ns = 63839664000000000000, t_off = 0, t_zone = ''UTC''\<rparr>, md_experiment_type = ''namespace''\<rparr>\<rparr>"

definition run_recommendation :: NamespaceExperiment where
  "run_recommendation = \<lparr>ne_cluster_name = ''org1;c1'', ne_experiment_type = ''namespace'', ne_kubernetes_objects =
       [\<lparr>nk_namespace = ''shop'', nk_containers = [], nk_namespaces = \<lparr>no_namespace = ''shop'', no_recommendations =
          \<lparr>rm_version = [], rm_data = [(''2024-01-01T00:00:00.000Z'', zero_data)],
           rm_notifications = [(''111000'', \<lparr>nt_type = ''info'', nt_message = [], nt_code = 111000\<rparr>)]\<rparr>\<rparr>\<rparr>],
     ne_version = [], ne_experiment_name = ''org1|s1|c1|namespace|shop''\<rparr>"

definition run_world :: world where
  "run_world = example_world\<lparr>w_decode_report := (\<lambda>_. Inr run_report), w_decode_request := (\<lambda>_. Inr run_request),
     w_encode_message := (\<lambda>m. if m = run_request then Inr ''request'' else Inl ''another''),
     w_decode_namespaces := (\<lambda>_. Inr [run_recommendation])\<rparr>"

definition run_parse :: "string \<Rightarrow> json option" where
  "run_parse b = Some JNull"

definition report_events :: "event list" where
  "report_events = snd (ProcessReport run_world run_gota id 1 (Some JNull) True [])"

definition run_saved :: "event \<Rightarrow> bool" where
  "run_saved e =
     (case e of
        SaveNamespaceSet r DbOk \<Rightarrow> nset_org_id r = ''org1'' \<and> nset_workload_id r = 1 \<and> nset_namespace r = ''shop'' \<and> nset_recommendations r = ''{}''
      | _ \<Rightarrow> False)"

lemma run_savedD:
  "run_saved e \<Longrightarrow> \<exists>r. e = SaveNamespaceSet r DbOk \<and> nset_org_id r = ''org1'' \<and> nset_workload_id r = 1 \<and> nset_namespace r = ''shop''
     \<and> nset_recommendations r = ''{}''"
  by (auto simp: run_saved_def split: event.splits db_reply.splits)

lemma run_topic: "fold (topic_after run_world) report_events [] = [''request'']"
  by code_simp

lemma run_saves: "list_ex run_saved (snd (PollForRecommendations run_world (Some JNull) h))"
  by code_simp

lemma run_codec: "codec_ok run_world run_parse"
  by (auto simp: codec_ok_def run_world_def run_parse_def split: if_splits)

definition poll_events :: "event list" where
  "poll_events = snd (PollForRecommendations run_world (run_parse ''request'') report_events)"

lemma run_reached:
  "reachable run_world run_parse \<lparr>sy_history = report_events @ poll_events,
     sy_topic = fold (topic_after run_world) poll_events [''request''], sy_running = []\<rparr>"
proof -
  let ?s0 = "\<lparr>sy_history = [], sy_topic = [], sy_running = []\<rparr>"
  have same: "same_program run_world run_world" by (simp add: same_program_def)
  obtain r0 where "ProcessReport run_world run_gota id 1 (Some JNull) True (sy_history ?s0) = (r0, report_events)"
    unfolding report_events_def by (cases "ProcessReport run_world run_gota id 1 (Some JNull) True []") simp
  from reachable.Step [OF reachable.Start system_step.Begin [OF begins.Report [OF same this]]]
  have "reachable run_world run_parse (started report_events ?s0)" .
  from reachable_plays [OF this]
  have 1: "reachable run_world run_parse \<lparr>sy_history = report_events, sy_topic = [''request''], sy_running = []\<rparr>" (is "reachable _ _ ?s1")
    by (simp add: started_def run_topic)
  obtain r1 where p: "PollForRecommendations run_world (run_parse ''request'') (sy_history ?s1) = (r1, poll_events)"
    unfolding poll_events_def by (cases "PollForRecommendations run_world (run_parse ''request'') report_events") simp
  have "''request'' \<in> set (sy_topic ?s1)" by simp
  from reachable.Step [OF 1 system_step.Begin [OF begins.Poll [where parse = run_parse and b = "''request''", OF same this p]]]
  have "reachable run_world run_parse (started poll_events ?s1)" .
  from reachable_plays [OF this] show ?thesis by (simp add: started_def)
qed

lemma poll_saved: "\<exists>e \<in> set poll_events. run_saved e"
  using run_saves [of report_events] by (simp add: poll_events_def run_parse_def list_ex_iff)

lemma run_reachable:
  "\<exists>s pre r q suf. reachable run_world run_parse s \<and> sy_history s = pre @ SaveNamespaceSet r q # suf"
proof -
  obtain r q where "SaveNamespaceSet r q \<in> set poll_events" using poll_saved by (auto dest: run_savedD)
  then obtain pre r q suf where "poll_events = pre @ SaveNamespaceSet r q # suf" by (auto simp: in_set_conv_decomp)
  then have "\<exists>pre r q suf. report_events @ poll_events = pre @ SaveNamespaceSet r q # suf" by (metis append_assoc)
  then show ?thesis
    by (intro exI [of _ "\<lparr>sy_history = report_events @ poll_events, sy_topic = fold (topic_after run_world) poll_events [''request''], sy_running = []\<rparr>"])
      (use run_reached in simp)
qed

theorem saved_recommendations_have_workloads_witness:
  "\<exists>s pre r q suf wl. reachable run_world run_parse s \<and> sy_history s = pre @ SaveNamespaceSet r q # suf
     \<and> SaveWorkload wl (Inr (nset_workload_id r)) \<in> set pre \<and> wl_org_id wl = nset_org_id r"
proof -
  obtain s pre r q suf where s: "reachable run_world run_parse s" "sy_history s = pre @ SaveNamespaceSet r q # suf"
    using run_reachable by blast
  with saved_recommendations_have_workloads [OF run_codec s(1)] show ?thesis by blast
qed

end
