(* ===== verification/Services.thy ===== *)
theory Services
  imports Settings Housekeeper ReportProcessor Consumer
begin

text \<open>
  \<open>cmd/start.go\<close>: the services that consume messages, from their start to the loop of theory Consumer, and what the
  loop then makes of a handler that crashes and of one that never does.  The Kafka client is a parameter; starting the Prometheus
  server and the feature flag client, whose errors are only logged, is left out.
\<close>

section \<open>Starting a consumer\<close>

text \<open>Creating the client and subscribing to a topic; a text is an error.\<close>

record kafka_client =
  kc_new :: "(string \<times> setting) list \<Rightarrow> string option"
  kc_subscribe :: "string \<Rightarrow> string option"

text \<open>A consumer before its loop.\<close>

record consuming =
  cn_topic :: string
  cn_auto :: bool
  cn_settings :: "(string \<times> setting) list"

definition StartConsumer :: "world \<Rightarrow> kafka_client \<Rightarrow> string \<Rightarrow> bool list \<Rightarrow> consuming prog" where
  "StartConsumer w k kafka_topic auto_commit_option =
     (let ac = auto_commit (w_cfg w) auto_commit_option;
          configMap = consumer_settings (w_cfg w) ac
      in case kc_new k configMap of
           Some err \<Rightarrow> stop OsExit
         | None \<Rightarrow>
             (case kc_subscribe k kafka_topic of
                Some err \<Rightarrow> stop OsExit
              | None \<Rightarrow> ret \<lparr>cn_topic = kafka_topic, cn_auto = ac, cn_settings = configMap\<rparr>))"

section \<open>The services\<close>

text \<open>The handlers are \<open>ProcessReport\<close>, \<open>PollForRecommendations\<close> and \<open>sourcesListener\<close>.\<close>

definition processor :: "world \<Rightarrow> kafka_client \<Rightarrow> consuming prog" where
  "processor w k = seq (Setup_kruize_performance_profile w) (StartConsumer w k (UploadTopic (w_cfg w)) [])"

definition recommendation_poller :: "world \<Rightarrow> kafka_client \<Rightarrow> consuming prog" where
  "recommendation_poller w k = StartConsumer w k (RecommendationTopic (w_cfg w)) [False]"

text \<open>The application id is kept for the listener.\<close>

definition StartSourcesListenerService :: "world \<Rightarrow> kafka_client \<Rightarrow> (int \<times> consuming) prog" where
  "StartSourcesListenerService w k =
     andthen (GetCostApplicationID w) (\<lambda>r.
       case r of
         Inl err \<Rightarrow> stop OsExit
       | Inr cost_app_id \<Rightarrow>
           andthen (StartConsumer w k (SourcesEventTopic (w_cfg w)) []) (\<lambda>c. ret (cost_app_id, c)))"

text \<open>The two flags.  The listener does not return, so the partitions are only reached without it.\<close>

definition housekeeper :: "world \<Rightarrow> kafka_client \<Rightarrow> bool \<Rightarrow> bool \<Rightarrow> (int \<times> consuming) option prog" where
  "housekeeper w k sourcesFlag partitionFlag =
     (if sourcesFlag then andthen (StartSourcesListenerService w k) (\<lambda>c. ret (Some c))
      else if partitionFlag then seq (DeletePartitions w) (ret None)
      else ret None)"

section \<open>How a service starts\<close>

definition profile_reply :: "world \<Rightarrow> event \<Rightarrow> int option" where
  "profile_reply w e =
     (case e of
        Http m url q (ProfileBody b) (Inr r) \<Rightarrow>
          if m = ''POST'' \<and> url = KruizeUrl (w_cfg w) @ ''/createPerformanceProfile'' then Some (hr_status r) else None
      | _ \<Rightarrow> None)"

definition profile_known :: "world \<Rightarrow> event \<Rightarrow> bool" where
  "profile_known w e = (profile_reply w e = Some 201 \<or> profile_reply w e = Some 409)"

lemma profile_attempts_outcome:
  "sat (profile_attempts w n) h (\<lambda>r es. r \<noteq> OutOfFuel
     \<and> (r = Done () \<longrightarrow> es \<noteq> [] \<and> profile_known w (last es) \<or> length (filter (\<lambda>e. e = Sleep 10) es) = n \<and> list_all (\<lambda>e. \<not> profile_known w e) es))"
proof (induction n arbitrary: h)
  case 0
  show ?case by (simp add: sat_rules)
next
  case (Suc n)
  have ih: "sat (profile_attempts w n) h (\<lambda>r es'. r \<noteq> OutOfFuel
     \<and> (r = Done () \<longrightarrow> es @ es' \<noteq> [] \<and> profile_known w (last (es @ es'))
        \<or> length (filter (\<lambda>e. e = Sleep 10) (es @ es')) = Suc n \<and> list_all (\<lambda>e. \<not> profile_known w e) (es @ es')))"
    if "length (filter (\<lambda>e. e = Sleep 10) es) = 1" "list_all (\<lambda>e. \<not> profile_known w e) es" for h es
    by (rule sat_mono [OF Suc.IH]) (use that in auto)
  have quiet: "\<not> profile_known w (Sleep 10)" "\<not> profile_known w (Http ''GET'' u q NoBody rep)" for u q rep
    by (simp_all add: profile_known_def profile_reply_def)
  show ?case
    by (auto simp: sat_rules post_def quiet profile_known_def profile_reply_def ih split: sum.split option.split
        intro!: sat_mono [OF ih [of "[_, _]", simplified]] sat_mono [OF ih [of "[_, _, _]", simplified]])
qed

lemma poller_starts:
  "sat (recommendation_poller w k) h (\<lambda>r es. es = [] \<and> r \<in> {Crashed OsExit, Done \<lparr>cn_topic = RecommendationTopic (w_cfg w),
      cn_auto = False, cn_settings = consumer_settings (w_cfg w) False\<rparr>})"
  by (simp add: recommendation_poller_def StartConsumer_def Let_def auto_commit_def sat_rules split: option.split)

definition configured :: "config \<Rightarrow> string \<Rightarrow> consuming" where
  "configured cfg topic = \<lparr>cn_topic = topic, cn_auto = KafkaAutoCommit cfg, cn_settings = consumer_settings cfg (KafkaAutoCommit cfg)\<rparr>"

lemma StartConsumer_configured: "sat (StartConsumer w k t []) h (\<lambda>r es. es = [] \<and> r \<in> {Crashed OsExit, Done (configured (w_cfg w) t)})"
  by (simp add: StartConsumer_def Let_def auto_commit_def configured_def sat_rules split: option.split)

lemma processor_starts:
  "sat (processor w k) h (\<lambda>r es. r \<noteq> OutOfFuel
      \<and> (\<forall>c. r = Done c \<longrightarrow> c = configured (w_cfg w) (UploadTopic (w_cfg w))
          \<and> (es \<noteq> [] \<and> profile_known w (last es)
             \<or> length (filter (\<lambda>e. e = Sleep 10) es) = 5 \<and> list_all (\<lambda>e. \<not> profile_known w e) es)))"
  unfolding processor_def sat_seq Setup_kruize_performance_profile_def
  by (rule sat_mono [OF profile_attempts_outcome]) (auto intro!: sat_mono [OF StartConsumer_configured] split: result.split)

lemma listener_starts:
  "sat (StartSourcesListenerService w k) h (\<lambda>r es. \<forall>i c. r = Done (i, c) \<longrightarrow>
      c = configured (w_cfg w) (SourcesEventTopic (w_cfg w))
      \<and> (\<exists>m u q b reply. es = [Http m u q b (Inr reply)] \<and> hr_status reply = 200))"
  by (auto simp: StartSourcesListenerService_def GetCostApplicationID_def sat_rules split: option.split sum.split json.split list.split
      intro!: sat_mono [OF StartConsumer_configured])

text \<open>A service that consumes has subscribed to its own topic with the settings of the configuration; the poller's turn
  automatic commits off, the listener's application id came from an answer of the sources service, and the processor starts only
  after Kruize has its profile or after five attempts, ten seconds apart, none of which found that it has it.\<close>

theorem services_start:
  "sat (recommendation_poller w k) h (\<lambda>r es. es = [] \<and> r \<in> {Crashed OsExit, Done \<lparr>cn_topic = RecommendationTopic (w_cfg w),
      cn_auto = False, cn_settings = consumer_settings (w_cfg w) False\<rparr>})
   \<and> sat (processor w k) h (\<lambda>r es. r \<noteq> OutOfFuel
      \<and> (\<forall>c. r = Done c \<longrightarrow> c = configured (w_cfg w) (UploadTopic (w_cfg w))
          \<and> (es \<noteq> [] \<and> profile_known w (last es)
             \<or> length (filter (\<lambda>e. e = Sleep 10) es) = 5 \<and> list_all (\<lambda>e. \<not> profile_known w e) es)))
   \<and> sat (StartSourcesListenerService w k) h (\<lambda>r es. \<forall>i c. r = Done (i, c) \<longrightarrow>
      c = configured (w_cfg w) (SourcesEventTopic (w_cfg w))
      \<and> (\<exists>m u q b reply. es = [Http m u q b (Inr reply)] \<and> hr_status reply = 200))"
  by (intro conjI poller_starts processor_starts listener_starts)

definition willing_client :: kafka_client where
  "willing_client = \<lparr>kc_new = (\<lambda>_. None), kc_subscribe = (\<lambda>_. None)\<rparr>"

lemma processor_example:
  "fst (processor example_world willing_client []) = Done (configured example_config (UploadTopic example_config))"
  "fst (recommendation_poller example_world willing_client []) \<noteq> Crashed OsExit"
  by code_simp+

theorem services_start_witness:
  "\<exists>es. processor example_world willing_client [] = (Done (configured example_config (UploadTopic example_config)), es)
     \<and> (profile_known example_world (last es) \<or> length (filter (\<lambda>e. e = Sleep 10) es) = 5)"
  using services_start [of example_world willing_client "[]"] processor_example
  by (cases "processor example_world willing_client []") (auto simp: sat_def)

section \<open>Handlers that always return\<close>

text \<open>\<open>gives P p\<close>: whatever happened before and whatever the services answer, \<open>p\<close> neither crashes nor runs out of fuel, and its
  value satisfies \<open>P\<close>.\<close>

definition gives :: "('a \<Rightarrow> bool) \<Rightarrow> 'a prog \<Rightarrow> bool" where
  "gives P p = (\<forall>h. sat p h (\<lambda>r es. \<exists>a. r = Done a \<and> P a))"

abbreviation completes :: "'a prog \<Rightarrow> bool" where
  "completes p \<equiv> gives (\<lambda>_. True) p"

named_theorems gives_rules

lemma gives_sat: "gives P p \<Longrightarrow> sat p h (\<lambda>r es. \<exists>a. r = Done a \<and> P a)"
  by (simp add: gives_def)

lemma givesD: "gives P p \<Longrightarrow> \<exists>a es. p h = (Done a, es) \<and> P a"
  using satD [OF gives_sat] by (metis prod.collapse)

lemma gives_mono: "gives P p \<Longrightarrow> (\<And>a. P a \<Longrightarrow> Q a) \<Longrightarrow> gives Q p"
  unfolding gives_def by (blast intro: sat_mono)

lemma gives_ret [gives_rules]: "P a \<Longrightarrow> gives P (ret a)"
  by (simp add: gives_def sat_rules)

lemma gives_ask [gives_rules]: "(\<And>h. P (f h)) \<Longrightarrow> gives P (ask e f)"
  by (simp add: gives_def sat_rules)

lemma gives_emit [gives_rules]: "P () \<Longrightarrow> gives P (emit e)"
  by (simp add: gives_def sat_rules)

lemma gives_andthen:
  assumes "gives P p" "\<And>a. P a \<Longrightarrow> gives Q (f a)"
  shows "gives Q (andthen p f)"
  unfolding gives_def sat_andthen
proof
  fix h
  show "sat p h (\<lambda>r es. case r of
      Done a \<Rightarrow> sat (f a) (h @ es) (\<lambda>r' es'. \<exists>b. r' = Done b \<and> Q b)
    | Crashed c \<Rightarrow> \<exists>b. Crashed c = Done b \<and> Q b | OutOfFuel \<Rightarrow> \<exists>b. OutOfFuel = Done b \<and> Q b)"
  proof (rule sat_mono [OF gives_sat [OF assms(1)]], elim exE conjE)
    fix r es a assume "r = Done a" "P a"
    then show "case r of
      Done a \<Rightarrow> sat (f a) (h @ es) (\<lambda>r' es'. \<exists>b. r' = Done b \<and> Q b)
    | Crashed c \<Rightarrow> \<exists>b. Crashed c = Done b \<and> Q b | OutOfFuel \<Rightarrow> \<exists>b. OutOfFuel = Done b \<and> Q b"
      by (simp add: gives_sat [OF assms(2)])
  qed
qed

lemma gives_seq [gives_rules]: "completes p \<Longrightarrow> gives Q q \<Longrightarrow> gives Q (seq p q)"
  unfolding seq_def by (rule gives_andthen)

lemma gives_recovering [gives_rules]: "gives P p \<Longrightarrow> gives P (recovering cl z p)"
  unfolding gives_def sat_recovering by (auto intro: sat_mono [OF gives_sat [unfolded gives_def]])

lemma completes_andthen [gives_rules]: "completes p \<Longrightarrow> (\<And>a. completes (f a)) \<Longrightarrow> completes (andthen p f)"
  by (rule gives_andthen)

lemma completes_each [gives_rules]: "(\<And>x. completes (f x)) \<Longrightarrow> completes (each xs f)"
  by (induction xs) (simp_all add: gives_ret gives_seq)

text \<open>A consumer whose handler always returns.\<close>

locale steady_handler =
  fixes handler :: "'m \<Rightarrow> unit prog"
  assumes handler_completes: "completes (handler m)"
begin

text \<open>It can get through its topic, handling every message once and in order.\<close>

lemma gets_through:
  "co_pos s \<le> n \<Longrightarrow> n \<le> length msgs \<Longrightarrow> \<exists>ds s'. consumer_run auto handler msgs s ds s' \<and> co_pos s' = n \<and> map fst ds = [co_pos s..<n]"
proof (induction n)
  case 0
  then show ?case using consumer_run.Start by fastforce
next
  case (Suc n)
  show ?case
  proof (cases "co_pos s = Suc n")
    case True
    then show ?thesis using consumer_run.Start by fastforce
  next
    case False
    with Suc obtain ds s' where run: "consumer_run auto handler msgs s ds s'" "co_pos s' = n" "map fst ds = [co_pos s..<n]" by auto
    obtain es where "handler (msgs ! n) (co_history s') = (Done (), es)"
      using givesD [OF handler_completes, of "msgs ! n" "co_history s'"] by auto
    with run Suc.prems have "consumer_run auto handler msgs s (ds @ [(n, es)]) (delivered es s')"
      using consumer_run.Message [OF run(1), of es] by simp
    moreover have "co_pos (delivered es s') = Suc n" using run(2) by (simp add: delivered_def)
    ultimately show ?thesis using run(3) Suc.prems False by (intro exI conjI) (assumption, auto)
  qed
qed

text \<open>It never takes a step that crashes.\<close>

lemma never_crashes: "handler m h \<noteq> (Crashed c, es)"
  using givesD [OF handler_completes, of m h] by auto

end

lemma delete_completes [gives_rules]: "completes (DeleteExperimentFromKruize w n)" "completes (delete_cluster w i)"
  by (auto simp: DeleteExperimentFromKruize_def delete_cluster_def Let_def split: option.split sum.split intro!: gives_rules)

lemma sourcesListener_completes: "completes (sourcesListener w app msg headers)"
  by (induction headers) (auto split: option.split sum.split lookup.split intro!: gives_rules)

interpretation listener: steady_handler "\<lambda>(msg, headers). sourcesListener w cost_app_id msg headers" for w cost_app_id
  by unfold_locales (simp add: sourcesListener_completes split: prod.split)

text \<open>C22: The sources listener never crashes, whatever the database and Kruize answer, so that it can get through any messages
  that follow its position, handling each of them once and in order.\<close>

theorem listener_gets_through:
  assumes "co_pos s \<le> length msgs"
  shows "(\<exists>ds s'. consumer_run auto (\<lambda>(msg, headers). sourcesListener w cost_app_id msg headers) msgs s ds s'
        \<and> co_pos s' = length msgs \<and> map fst ds = [co_pos s..<length msgs])
    \<and> (\<forall>msg headers h c es. sourcesListener w cost_app_id msg headers h \<noteq> (Crashed c, es))"
  using listener.gets_through [OF assms order_refl] listener.never_crashes by (auto split: prod.splits)

lemma upto_two: "[0..<2] = [0, 1]"
  by (simp add: numeral_2_eq_2 upt_rec)

theorem listener_gets_through_witness:
  "\<exists>ds s'. consumer_run True (\<lambda>(msg, headers). sourcesListener example_world 3 msg headers)
      [(None, [(''event_type'', ''Application.destroy'')]), (Some JNull, [])] start_state ds s'
    \<and> co_pos s' = 2 \<and> map fst ds = [0, 1]"
proof -
  from upto_two listener_gets_through [of start_state "[(None, [(''event_type'', ''Application.destroy'')]), (Some JNull, [])]" True example_world 3]
  show ?thesis by (simp add: start_state_def numeral_2_eq_2)
qed

section \<open>Handlers that crash\<close>

text \<open>A handler that crashes on some messages before it commits them.\<close>

locale crashing_handler =
  fixes handler :: "'m \<Rightarrow> unit prog" and bad :: "'m \<Rightarrow> bool"
  assumes crashes: "bad m \<Longrightarrow> \<exists>c. fst (handler m h) = Crashed c"
    and commits_nothing: "bad m \<Longrightarrow> list_all (\<lambda>e. \<not> is_commit e) (snd (handler m h))"
begin

lemma no_commit_ok: "bad m \<Longrightarrow> handler m h = (r, es) \<Longrightarrow> \<not> list_ex commit_ok es"
  using commits_nothing [of m h] by (auto simp: list_all_iff list_ex_iff commit_ok_def)

text \<open>Without automatic commits such a message is never passed.\<close>

lemma never_passed:
  "consumer_run False handler msgs s ds s' \<Longrightarrow> offsets_ok msgs s \<Longrightarrow> co_pos s \<le> i \<Longrightarrow> i < length msgs \<Longrightarrow> bad (msgs ! i) \<Longrightarrow>
    co_pos s' \<le> i \<and> co_committed s' \<le> i \<and> list_all (\<lambda>(k, _). k \<le> i) ds"
proof (induction rule: consumer_run.induct)
  case Start
  then show ?case by (simp add: offsets_ok_def)
next
  case (Message ds s' es)
  have "co_pos s' \<noteq> i"
    using crashes [OF Message.prems(4), of "co_history s'"] Message.hyps(3) by auto
  with Message show ?case by (simp add: delivered_def)
next
  case (Crash ds s' c es)
  have "\<not> list_ex commit_ok es" if "co_pos s' = i"
    using no_commit_ok [OF Crash.prems(4)] Crash.hyps(3) that by blast
  with Crash show ?case by (cases "co_pos s' = i") (auto simp: delivered_def restarted_def)
next
  case (Restart ds s')
  then show ?case by (simp add: restarted_def)
qed simp_all

end

text \<open>A valid request for containers on which nothing is stored yet and that Kruize refuses without saying why.\<close>

definition refused_request :: "world \<Rightarrow> json option \<Rightarrow> bool" where
  "refused_request w msg =
     ((\<exists>j m. msg = Some j \<and> w_decode_request w j = Inr m \<and> w_valid_request w m = None
        \<and> md_experiment_type (km_metadata m) = ''container''
        \<and> (\<exists>t. ConvertDateToISO8601 (fmt_string (md_max_endtime_report (km_metadata m))) = Inr t))
      \<and> w_bad_url w (KruizeUrl (w_cfg w) @ ''/updateRecommendations'') = None
      \<and> (\<forall>h. w_first_set w h = NotFound) \<and> (\<forall>h. w_first_workload w h = Found ())
      \<and> (\<forall>h. \<exists>reply d. w_http w h = Inr reply \<and> hr_status reply = 400 \<and> object_of (hr_body reply) = Some d \<and> str_at ''message'' d = None))"

lemma refused_crash:
  assumes "refused_request w msg"
  shows "sat (PollForRecommendations w msg) h (\<lambda>r es. r = Crashed (GoPanic ''interface conversion'') \<and> list_all (\<lambda>e. \<not> is_commit e) es)"
proof -
  from assms obtain j m t where m: "msg = Some j" "w_decode_request w j = Inr m" "w_valid_request w m = None"
      "md_experiment_type (km_metadata m) = ''container''"
      "ConvertDateToISO8601 (fmt_string (md_max_endtime_report (km_metadata m))) = Inr t"
    and w: "w_bad_url w (KruizeUrl (w_cfg w) @ ''/updateRecommendations'') = None" "\<And>h. w_first_set w h = NotFound"
      "\<And>h. w_first_workload w h = Found ()"
    unfolding refused_request_def by blast
  have r: "\<exists>reply d. w_http w h = Inr reply \<and> hr_status reply = 400 \<and> object_of (hr_body reply) = Some d \<and> str_at ''message'' d = None" for h
    using assms unfolding refused_request_def by blast
  show ?thesis
    using r [of "h @ [FirstSet (md_workload_id (km_metadata m)) NotFound, FirstWorkload (md_workload_id (km_metadata m)) (Found ())]"]
    by (auto simp: PollForRecommendations_def GetFirstRecommendationSetsByWorkloadID_def poll_workload_def WorkloadExistsByID_def
        requestAndSaveRecommendation_def container_half_def fetchRecommendationFromKruize_def Update_recommendations_def Let_def
        m w sat_rules)
qed

interpretation poller: crashing_handler "PollForRecommendations w" "refused_request w" for w
proof
  fix m h assume "refused_request w m"
  from refused_crash [OF this, of h]
  show "\<exists>c. fst (PollForRecommendations w m h) = Crashed c" "list_all (\<lambda>e. \<not> is_commit e) (snd (PollForRecommendations w m h))"
    by (auto simp: sat_def split: prod.splits)
qed

text \<open>C20: A request that Kruize refuses without a message blocks its partition: the poller panics on the missing message before
  it commits, so that after any number of restarts it is at that request or before it, and nothing behind it is ever handled.\<close>

theorem refused_request_blocks:
  assumes "offsets_ok msgs s" "co_pos s \<le> i" "i < length msgs" "refused_request w (msgs ! i)"
    and "consumer_run (auto_commit cfg [False]) (PollForRecommendations w) msgs s ds s'"
  shows "co_pos s' \<le> i \<and> co_committed s' \<le> i \<and> list_all (\<lambda>(k, _). k \<le> i) ds"
  using poller.never_passed [OF _ assms(1-4)] assms(5) poller_commits_manually [of cfg] by simp

definition refusing_world :: world where
  "refusing_world = lost_world\<lparr>w_http := (\<lambda>_. Inr \<lparr>hr_status = 400, hr_body = Some (JObj [])\<rparr>)\<rparr>"

lemma refusing_refuses: "refused_request refusing_world (Some JNull)"
proof -
  have "\<exists>t. ConvertDateToISO8601 (fmt_string (md_max_endtime_report (km_metadata lost_request))) = Inr t"
    unfolding lost_request_def by (rule exI [of _ "''0001-01-01T00:00:00.000Z''"]) code_simp
  then show ?thesis
    by (auto simp: refused_request_def refusing_world_def lost_world_def example_world_def lost_request_def str_at_def jget_def)
qed

theorem refused_request_blocks_witness:
  "\<exists>es s'. consumer_run (auto_commit default_config [False]) (PollForRecommendations refusing_world) [Some JNull, None] start_state [(0, es)] s'
     \<and> co_pos s' = 0 \<and> co_committed s' = 0"
proof -
  obtain c es where h: "PollForRecommendations refusing_world (Some JNull) [] = (Crashed c, es)"
    using poller.crashes [OF refusing_refuses, of "[]"] by (metis prod.collapse)
  have run: "consumer_run auto (PollForRecommendations refusing_world) [Some JNull, None] start_state
      ([] @ [(co_pos start_state, es)]) (restarted (delivered es start_state))" for auto
    by (rule consumer_run.Crash [OF consumer_run.Start]) (simp_all add: start_state_def h)
  have "offsets_ok [Some JNull, None] start_state" by (simp add: offsets_ok_def start_state_def)
  from refused_request_blocks [where i = 0 and cfg = default_config, OF this _ _ _ run]
  have "co_pos (restarted (delivered es start_state)) = 0 \<and> co_committed (restarted (delivered es start_state)) = 0"
    by (simp add: start_state_def refusing_refuses)
  with run [of "auto_commit default_config [False]"] show ?thesis by (auto simp: start_state_def)
qed

section \<open>What the poller's commits mean\<close>

lemma manual_commit_from:
  "consumer_run False handler msgs s ds s' \<Longrightarrow>
    co_committed s' = co_committed s \<or> (\<exists>i es. (i, es) \<in> set ds \<and> co_committed s' = Suc i \<and> list_ex commit_ok es)"
  by (induction rule: consumer_run.induct) (auto simp: delivered_def restarted_def)

text \<open>C19: The poller's committed offset only moves to just behind a request that was handled to its end.  In its handling either no
  call to Kruize or to the database failed; or the only failures were those that the source swallows (a save that panicked, or an
  error while the workload was looked up), and then its handling left the recommendation tables as they were.\<close>

theorem poller_commits_handled:
  assumes "consumer_run (auto_commit cfg [False]) (PollForRecommendations w) msgs s ds s'"
  shows "co_committed s' = co_committed s
    \<or> (\<exists>i es. (i, es) \<in> set ds \<and> co_committed s' = Suc i \<and> list_all (\<lambda>e. failed e \<longrightarrow> swallowed e) es
        \<and> (list_all (\<lambda>e. \<not> failed e) es \<or> (\<forall>t. db_after es (t, None) = (t, None))))"
proof -
  have run: "consumer_run False (PollForRecommendations w) msgs s ds s'" using assms poller_commits_manually [of cfg] by simp
  have "list_all (\<lambda>e. failed e \<longrightarrow> swallowed e) es \<and> (list_all (\<lambda>e. \<not> failed e) es \<or> (\<forall>t. db_after es (t, None) = (t, None)))"
    if d: "(i, es) \<in> set ds" "list_ex commit_ok es" for i es
  proof -
    obtain h r where "PollForRecommendations w (msgs ! i) h = (r, es)"
      using run_handles [OF run] d(1) by (auto simp: list_all_iff)
    from satD [OF PollForRecommendations_ok this] have ok: "poll_ok t r es" for t .
    have "list_ex is_commit es" using d(2) by (auto simp: list_ex_iff commit_ok_def intro: bexI [of _ "CommitMessage None"])
    with ok have f: "es \<noteq> []" "is_commit (last es)" "list_all fine (butlast es)"
      and c: "list_all clean (butlast es) \<or> db_after es (t, None) = (t, None)" for t by (auto simp: poll_ok_def)
    have l: "\<not> failed (last es)" using f(2) by (cases "last es") (simp_all add: is_commit_def failed_def)
    have es: "es = butlast es @ [last es]" using f(1) by simp
    have "list_all (\<lambda>e. failed e \<longrightarrow> swallowed e) (butlast es @ [last es])"
      using f(3) l by (simp add: list_all_iff fine_def)
    moreover have "list_all (\<lambda>e. \<not> failed e) (butlast es @ [last es])" if "list_all clean (butlast es)"
      using that l by (simp add: list_all_iff clean_def)
    ultimately show ?thesis using c es by metis
  qed
  with manual_commit_from [OF run] show ?thesis by blast
qed

theorem poller_commits_handled_witness:
  "co_committed lost_state = co_committed start_state
    \<or> (\<exists>i es. (i, es) \<in> set lost_deliveries \<and> co_committed lost_state = Suc i \<and> list_all (\<lambda>e. failed e \<longrightarrow> swallowed e) es
        \<and> (list_all (\<lambda>e. \<not> failed e) es \<or> (\<forall>t. db_after es (t, None) = (t, None))))"
  by (rule poller_commits_handled [where cfg = example_config, OF lost_run])

end
