(* ===== verification/Progress.thy ===== *)
theory Progress
  imports Services
begin

text \<open>
  That the poller gets on: while the database and Kruize answer as they should, every message is handled to its end and committed,
  so that the poller works off its topic.
\<close>

section \<open>Saving\<close>

definition database_answers :: "world \<Rightarrow> bool" where
  "database_answers w =
     ((\<forall>h. w_exec w h = None) \<and> (\<forall>h. w_save w h = DbOk)
      \<and> (\<forall>h e. w_first_set w h \<noteq> LookupErr e) \<and> (\<forall>h e. w_first_nset w h \<noteq> LookupErr e))"

lemma saves_give:
  assumes "database_answers w"
  shows "gives (\<lambda>e. e = None) (CreateRecommendationSet w r)" "gives (\<lambda>e. e = None) (CreateHistoricalRecommendationSet w hr)"
    "gives (\<lambda>e. e = None) (CreateNamespaceRecommendationSet w n)" "gives (\<lambda>e. e = None) (CreateHistoricalNamespaceRecommendationSet w hn)"
  using assms
  by (simp_all add: gives_def database_answers_def sat_rules CreateRecommendationSet_def CreateHistoricalRecommendationSet_def
      CreateNamespaceRecommendationSet_def CreateHistoricalNamespaceRecommendationSet_def)

lemma save_each_gives: "(\<And>r. gives (\<lambda>e. e = None) (save r)) \<Longrightarrow> gives (\<lambda>e. e = None) (save_each save rs)"
proof (induction rs)
  case (Cons r rs)
  show ?case unfolding save_each.simps by (rule gives_andthen [OF Cons.prems]) (simp add: Cons.IH [OF Cons.prems])
qed (simp add: gives_ret)

lemma transactions_give:
  assumes "database_answers w"
  shows "gives (\<lambda>e. e = None) (transactionForContainerRecommendation w rs hs)"
    "gives (\<lambda>e. e = None) (transactionForNamespaceRecommendation w ns nhs)"
proof -
  have b: "gives (\<lambda>e. e = None) (ask BeginTx (w_exec w))" "gives (\<lambda>e. e = None) (ask CommitTx (w_exec w))"
    using assms by (simp_all add: gives_ask database_answers_def)
  have loops: "gives (\<lambda>e. e = None) (andthen p (\<lambda>e1. case e1 of Some err \<Rightarrow> ret (Some err)
      | None \<Rightarrow> andthen q (\<lambda>e2. case e2 of Some err \<Rightarrow> ret (Some err) | None \<Rightarrow> ask CommitTx (w_exec w))))"
    if "gives (\<lambda>e. e = None) p" "gives (\<lambda>e. e = None) q" for p q
    by (rule gives_andthen [OF that(1)], simp, rule gives_andthen [OF that(2)], simp add: b(2))
  show "gives (\<lambda>e. e = None) (transactionForContainerRecommendation w rs hs)"
    unfolding transactionForContainerRecommendation_def
    by (rule gives_andthen [OF b(1)], rule gives_recovering)
      (simp add: loops [OF save_each_gives [OF saves_give(1)] save_each_gives [OF saves_give(2)]] assms)
  show "gives (\<lambda>e. e = None) (transactionForNamespaceRecommendation w ns nhs)"
    unfolding transactionForNamespaceRecommendation_def
    by (rule gives_andthen [OF b(1)], rule gives_recovering)
      (simp add: loops [OF save_each_gives [OF saves_give(3)] save_each_gives [OF saves_give(4)]] assms)
qed

text \<open>Saving leaves a poll cycle complete if it was or if there is something to save.\<close>

lemma save_half_gives:
  assumes "gives (\<lambda>e. e = None) (tx (map fst rows) (map snd rows))" "rows \<noteq> [] \<or> b"
  shows "gives (\<lambda>b. b) (save_half tx c rows b)"
  unfolding save_half_def using assms
  by (auto intro!: gives_ret gives_andthen [OF assms(1)] gives_seq gives_emit)

section \<open>Recommendations\<close>

lemma IsValid_gives: "gives (\<lambda>v. v \<longrightarrow> rm_data r \<noteq> []) (IsValidRecommendation r t ty)"
  by (auto simp: IsValidRecommendation_def intro!: gives_rules split: option.split)

lemma container_rows_nonempty:
  assumes "\<And>d. \<exists>t. w_encode_data w d = Inr t" "ds \<noteq> []"
  shows "container_rows w md name ds \<noteq> []"
proof -
  obtain k v rest where ds: "ds = (k, v) # rest" using assms(2) by (cases ds) auto
  obtain t where "w_encode_data w v = Inr t" using assms(1) by blast
  then show ?thesis by (simp add: ds)
qed

lemma containers_loop_gives:
  assumes "\<And>d. \<exists>t. w_encode_data w d = Inr t"
  shows "gives (\<lambda>p. cs \<noteq> [] \<longrightarrow> snd p \<noteq> [] \<or> fst p) (containers_loop w md cs)"
proof (induction cs)
  case Nil
  show ?case by (simp add: gives_ret)
next
  case (Cons c cs)
  show ?case unfolding containers_loop.simps
  proof (rule gives_andthen [OF IsValid_gives], rule gives_andthen [OF Cons.IH])
    fix v and p :: "bool \<times> (RecommendationSet \<times> HistoricalRecommendationSet) list" assume v: "v \<longrightarrow> rm_data (ct_recommendations c) \<noteq> []"
    obtain b rows where "p = (b, rows)" by (cases p)
    with v show "gives (\<lambda>p. c # cs \<noteq> [] \<longrightarrow> snd p \<noteq> [] \<or> fst p) (case p of
        (b, rows) \<Rightarrow> if v then ret (b, container_rows w md (ct_name c) (rm_data (ct_recommendations c)) @ rows) else ret (True, rows))"
      by (auto intro!: gives_ret dest: container_rows_nonempty [OF assms])
  qed
qed

lemma namespace_rows_gives:
  assumes "\<And>d. \<exists>t. w_encode_data w d = Inr t"
  shows "gives (\<lambda>rows. ds \<noteq> [] \<longrightarrow> rows \<noteq> []) (namespace_rows w md name ds)"
proof (induction ds)
  case (Cons d ds)
  obtain k v where d: "d = (k, v)" by (cases d)
  obtain t where "w_encode_data w v = Inr t" using assms by blast
  then show ?case
    by (auto simp: d intro!: gives_andthen [OF gives_ask] gives_andthen [OF Cons.IH] gives_ret)
qed (simp add: gives_ret)

section \<open>A poll cycle\<close>

text \<open>A reply to a request for containers, and to one for a namespace, that has what the poller looks for.\<close>

definition recommends :: "world \<Rightarrow> http_reply \<Rightarrow> bool" where
  "recommends w res =
     (hr_status res \<noteq> 400
      \<and> (\<exists>r rs k ks. decode_body (w_decode_recommendations w) (hr_body res) = Inr (r # rs) \<and> lr_kubernetes_objects r = k # ks
           \<and> lr_experiment_type r = ''container'' \<and> ko_containers k \<noteq> []))"

definition recommends_namespace :: "world \<Rightarrow> http_reply \<Rightarrow> bool" where
  "recommends_namespace w res =
     (hr_status res \<noteq> 400
      \<and> (\<exists>r rs k ks. decode_body (w_decode_namespaces w) (hr_body res) = Inr (r # rs) \<and> ne_kubernetes_objects r = k # ks
           \<and> ne_experiment_type r = ''namespace''))"

text \<open>Kruize knows from the request before it which kind is asked for.\<close>

definition kruize_answers :: "world \<Rightarrow> bool" where
  "kruize_answers w =
     (w_bad_url w (KruizeUrl (w_cfg w) @ ''/updateRecommendations'') = None \<and> (\<forall>d. \<exists>t. w_encode_data w d = Inr t)
      \<and> (\<forall>h i x j y. \<exists>res. w_http w (h @ [FirstSet i x, FirstWorkload j y]) = Inr res \<and> recommends w res)
      \<and> (\<forall>h i x j y. \<exists>res. w_http w (h @ [FirstNamespaceSet i x, FirstWorkload j y]) = Inr res \<and> recommends_namespace w res))"

text \<open>The interval of every valid request can be written as the request wants it.\<close>

definition requests_dated :: "world \<Rightarrow> bool" where
  "requests_dated w =
     (\<forall>j m. w_decode_request w j = Inr m \<longrightarrow> w_valid_request w m = None \<longrightarrow>
        (\<exists>t. ConvertDateToISO8601 (fmt_string (md_max_endtime_report (km_metadata m))) = Inr t))"

lemma fetch_container:
  assumes "w_bad_url w (KruizeUrl (w_cfg w) @ ''/updateRecommendations'') = None" "ConvertDateToISO8601 (fmt_string t) = Inr isoText"
    and "w_http w h = Inr res" "hr_status res \<noteq> 400"
  shows "decode_body (w_decode_recommendations w) (hr_body res) = Inr rs \<Longrightarrow>
      sat (fetchRecommendationFromKruize w en t ''container'') h (\<lambda>r es. r = Done (Inr (ContainerResponse rs)))"
    and "decode_body (w_decode_namespaces w) (hr_body res) = Inr ns \<Longrightarrow>
      sat (fetchRecommendationFromKruize w en t ''namespace'') h (\<lambda>r es. r = Done (Inr (NamespaceResponse ns)))"
  using assms by (simp_all add: fetchRecommendationFromKruize_def Update_recommendations_def Let_def sat_rules)

lemma request_container:
  assumes "database_answers w" "kruize_answers w" "md_experiment_type md = ''container''"
    and "ConvertDateToISO8601 (fmt_string (md_max_endtime_report md)) = Inr isoText" "w_http w h = Inr res" "recommends w res"
  shows "sat (requestAndSaveRecommendation w md) h (\<lambda>r es. r = Done True)"
proof -
  from assms(6) obtain r rs k ks where d: "hr_status res \<noteq> 400" "decode_body (w_decode_recommendations w) (hr_body res) = Inr (r # rs)"
      "lr_kubernetes_objects r = k # ks" "lr_experiment_type r = ''container''" "ko_containers k \<noteq> []"
    unfolding recommends_def by blast
  have enc: "\<And>d. \<exists>t. w_encode_data w d = Inr t" and url: "w_bad_url w (KruizeUrl (w_cfg w) @ ''/updateRecommendations'') = None"
    using assms(2) by (simp_all add: kruize_answers_def)
  have half: "sat (container_half w md) h (\<lambda>r es. \<exists>b rows. r = Done (Some (b, rows)) \<and> (rows \<noteq> [] \<or> b))"
    unfolding container_half_def using assms(3) d(3-5)
    by (simp add: sat_andthen, intro sat_mono [OF fetch_container(1) [OF url assms(4,5) d(1,2)]])
      (auto simp: sat_rules intro!: sat_mono [OF gives_sat [OF containers_loop_gives [OF enc]]])
  have save: "gives (\<lambda>b. b) (andthen (save_half (transactionForContainerRecommendation w) c rows b)
      (save_half (transactionForNamespaceRecommendation w) c' []))" if "rows \<noteq> [] \<or> b" for rows b c c'
    by (rule gives_andthen [OF save_half_gives [OF transactions_give(1) [OF assms(1)] that]]) (simp add: save_half_def gives_ret)
  show ?thesis
    unfolding requestAndSaveRecommendation_def sat_andthen [of "container_half w md"]
    by (rule sat_mono [OF half])
      (auto simp: namespace_half_def assms(3) andthen_ret_left intro!: sat_mono [OF gives_sat [OF save]])
qed

lemma request_namespace:
  assumes "database_answers w" "kruize_answers w" "md_experiment_type md = ''namespace''" "\<not> DisableNamespaceRecommendation (w_cfg w)"
    and "ConvertDateToISO8601 (fmt_string (md_max_endtime_report md)) = Inr isoText" "w_http w h = Inr res" "recommends_namespace w res"
  shows "sat (requestAndSaveRecommendation w md) h (\<lambda>r es. r = Done True)"
proof -
  from assms(7) obtain r rs k ks where d: "hr_status res \<noteq> 400" "decode_body (w_decode_namespaces w) (hr_body res) = Inr (r # rs)"
      "ne_kubernetes_objects r = k # ks" "ne_experiment_type r = ''namespace''"
    unfolding recommends_namespace_def by blast
  have enc: "\<And>d. \<exists>t. w_encode_data w d = Inr t" and url: "w_bad_url w (KruizeUrl (w_cfg w) @ ''/updateRecommendations'') = None"
    using assms(2) by (simp_all add: kruize_answers_def)
  have rows: "gives (\<lambda>s. \<exists>b nrows. s = Some (b, nrows) \<and> (nrows \<noteq> [] \<or> b))
      (andthen (IsValidRecommendation rec t ''namespace'') (\<lambda>valid.
         if valid then andthen (namespace_rows w md name (rm_data rec)) (\<lambda>rows. ret (Some (c, rows))) else ret (Some (True, []))))" for rec t name c
    by (rule gives_andthen [OF IsValid_gives])
      (auto intro!: gives_andthen [OF namespace_rows_gives [OF enc]] gives_ret)
  have half: "sat (namespace_half w md c) h (\<lambda>r es. \<exists>b nrows. r = Done (Some (b, nrows)) \<and> (nrows \<noteq> [] \<or> b))" for c
    unfolding namespace_half_def using assms(3,4) d(3,4)
    by (simp add: sat_andthen [of "fetchRecommendationFromKruize _ _ _ _"], intro sat_mono [OF fetch_container(2) [OF url assms(5,6) d(1,2)]])
      (auto simp: sat_seq sat_emit intro!: sat_mono [OF gives_sat [OF rows]])
  have save: "gives (\<lambda>b. b) (andthen (save_half (transactionForContainerRecommendation w) c [] b)
      (save_half (transactionForNamespaceRecommendation w) c' nrows))" if "nrows \<noteq> [] \<or> b" for nrows b c c'
    using save_half_gives [OF transactions_give(2) [OF assms(1)] that] by (simp add: save_half_def [of _ _ "[]"] andthen_ret_left)
  have c: "container_half w md = ret (Some (False, []))" using assms(3) by (simp add: container_half_def)
  show ?thesis
    unfolding requestAndSaveRecommendation_def c andthen_ret_left option.case prod.case sat_andthen [of "namespace_half w md False"]
    by (rule sat_mono [OF half]) (auto intro!: sat_mono [OF gives_sat [OF save]])
qed

section \<open>A message\<close>

definition committed_last :: "unit result \<Rightarrow> event list \<Rightarrow> bool" where
  "committed_last r es = (r = Done () \<and> es \<noteq> [] \<and> last es = CommitMessage None)"

lemma commit_last:
  assumes "database_answers w"
  shows "sat (commitKafkaMsg w) h (\<lambda>r es'. committed_last r (es @ es'))"
  using assms by (simp add: commit_sat committed_last_def database_answers_def)

lemma request_commit_last:
  assumes "database_answers w" "sat (requestAndSaveRecommendation w md) h (\<lambda>r es. r = Done True)"
  shows "sat (andthen (requestAndSaveRecommendation w md) (\<lambda>b. if b then commitKafkaMsg w else ret ())) h (\<lambda>r es'. committed_last r (es @ es'))"
  unfolding sat_andthen
  by (rule sat_mono [OF assms(2)]) (simp add: commit_last [OF assms(1), of _ "es @ _", simplified append_assoc])

lemma poll_workload_commits:
  assumes "database_answers w" "\<And>e. stored \<noteq> Inl e"
    and "\<And>x. sat (requestAndSaveRecommendation w md) (h @ [FirstWorkload (md_workload_id md) x]) (\<lambda>r es. r = Done True)"
  shows "sat (poll_workload w md stored) h (\<lambda>r es'. committed_last r (es @ es'))"
proof -
  have c: "sat (commitKafkaMsg w) h' (\<lambda>r es'. committed_last r (es @ e # es'))" for h' e
    using commit_last [OF assms(1), of h' "es @ [e]"] by simp
  have q: "sat (andthen (requestAndSaveRecommendation w md) (\<lambda>b. if b then commitKafkaMsg w else ret ()))
      (h @ [FirstWorkload (md_workload_id md) x]) (\<lambda>r es'. committed_last r (es @ e # es'))" for x e
    using request_commit_last [OF assms(1) assms(3), of x "es @ [e]"] by simp
  obtain found where "stored = Inr found" using assms(2) by (cases stored) auto
  then show ?thesis
    using c q by (auto simp: poll_workload_def WorkloadExistsByID_def sat_andthen [of "ask _ _"] sat_andthen [of "andthen (ask _ _) _"]
        sat_ask sat_ret Let_def split: option.split lookup.split)
qed

lemma poll_commits:
  assumes "database_answers w" "kruize_answers w" "requests_dated w"
  shows "sat (PollForRecommendations w msg) h committed_last"
proof -
  have commit: "sat (commitKafkaMsg w) h committed_last" for h using commit_last [OF assms(1), of h "[]"] by simp
  have valid: "sat (if md_experiment_type (km_metadata m) = ''container'' then
        andthen (GetFirstRecommendationSetsByWorkloadID w (md_workload_id (km_metadata m))) (poll_workload w (km_metadata m))
      else if md_experiment_type (km_metadata m) = ''namespace'' \<and> \<not> DisableNamespaceRecommendation (w_cfg w) then
        andthen (GetFirstNamespaceRecommendationSetsByWorkloadID w (md_workload_id (km_metadata m))) (poll_workload w (km_metadata m))
      else commitKafkaMsg w) h committed_last"
    if m: "w_decode_request w j = Inr m" "w_valid_request w m = None" for j m
  proof -
    from assms(3) m obtain iso1 where iso: "ConvertDateToISO8601 (fmt_string (md_max_endtime_report (km_metadata m))) = Inr iso1"
      unfolding requests_dated_def by blast
    have k: "\<exists>res. w_http w (h @ [FirstSet i x, FirstWorkload j' y]) = Inr res \<and> recommends w res"
      "\<exists>res. w_http w (h @ [FirstNamespaceSet i z, FirstWorkload j' y]) = Inr res \<and> recommends_namespace w res" for h i x j' y z
      using assms(2) by (simp_all add: kruize_answers_def)
    have one: "sat (requestAndSaveRecommendation w (km_metadata m)) (h @ [FirstSet i x, FirstWorkload j' y]) (\<lambda>r es. r = Done True)"
      if "md_experiment_type (km_metadata m) = ''container''" for i x j' y
      using request_container [OF assms(1,2) that iso] k(1) by blast
    have two: "sat (requestAndSaveRecommendation w (km_metadata m)) (h @ [FirstNamespaceSet i z, FirstWorkload j' y]) (\<lambda>r es. r = Done True)"
      if "md_experiment_type (km_metadata m) = ''namespace''" "\<not> DisableNamespaceRecommendation (w_cfg w)" for i z j' y
      using request_namespace [OF assms(1,2) that iso] k(2) by blast
    have db: "w_first_set w h \<noteq> LookupErr e" "w_first_nset w h \<noteq> LookupErr e" for e using assms(1) by (simp_all add: database_answers_def)
    have pw: "sat (poll_workload w (km_metadata m) stored) (h @ [e]) (\<lambda>r es'. committed_last r (e # es'))"
      if "\<And>err. stored \<noteq> Inl err"
        "\<And>x. sat (requestAndSaveRecommendation w (km_metadata m)) (h @ [e, FirstWorkload (md_workload_id (km_metadata m)) x]) (\<lambda>r es. r = Done True)"
      for stored e
      using poll_workload_commits [OF assms(1) that(1), of "km_metadata m" "h @ [e]" "[e]"] that(2) by simp
    show ?thesis
      using db by (auto simp: GetFirstRecommendationSetsByWorkloadID_def GetFirstNamespaceRecommendationSetsByWorkloadID_def
          sat_andthen [of "ask _ _"] sat_andthen [of "andthen (ask _ _) _"] sat_ask sat_ret commit one two
          split: lookup.split intro!: pw)
  qed
  show ?thesis
    by (auto simp: PollForRecommendations_def Let_def commit valid split: option.split sum.split split del: if_split)
qed

section \<open>The topic\<close>

text \<open>C18: While the database and Kruize answer as they should, the poller handles and commits every message: from any position it can work
  off its topic, each message once and in order, and then the committed offset is the end of the topic.\<close>

theorem poller_works_off_topic:
  assumes "database_answers w" "kruize_answers w" "requests_dated w" "offsets_ok msgs s"
  shows "\<exists>ds s'. consumer_run (auto_commit cfg [False]) (PollForRecommendations w) msgs s ds s' \<and> map fst ds = [co_pos s..<length msgs]
    \<and> list_all (\<lambda>(k, es). es \<noteq> [] \<and> last es = CommitMessage None) ds
    \<and> co_pos s' = length msgs \<and> (co_pos s < length msgs \<longrightarrow> co_committed s' = length msgs)"
proof -
  have commits: "committed_last r es" if "PollForRecommendations w msg h = (r, es)" for msg h r es
    using satD [OF poll_commits [OF assms(1-3)] that] .
  have steady: "steady_handler (PollForRecommendations w)"
    by unfold_locales (auto simp: gives_def committed_last_def intro: sat_mono [OF poll_commits [OF assms(1-3)]])
  have "co_pos s \<le> length msgs" using assms(4) by (simp add: offsets_ok_def)
  from steady_handler.gets_through [OF steady this order_refl, of False] obtain ds s' where
    run: "consumer_run False (PollForRecommendations w) msgs s ds s'" "co_pos s' = length msgs" "map fst ds = [co_pos s..<length msgs]" by blast
  have last: "list_all (\<lambda>(k, es). es \<noteq> [] \<and> last es = CommitMessage None) ds"
    using run_handles [OF run(1)] commits by (fastforce simp: list_all_iff committed_last_def)
  have "co_committed s' = length msgs" if "co_pos s < length msgs"
  proof -
    have "length msgs - 1 \<in> set (map fst ds)" using that run(3) by auto
    then obtain es where es: "(length msgs - 1, es) \<in> set ds" by auto
    with last have "es \<noteq> []" "last es = CommitMessage None" by (auto simp: list_all_iff)
    then have "CommitMessage None \<in> set es" using last_in_set by metis
    then have "list_ex commit_ok es" by (auto simp: list_ex_iff commit_ok_def intro: bexI [of _ "CommitMessage None"])
    with run_commits [OF run(1) assms(4)] es have "length msgs - 1 < co_committed s'" by (auto simp: list_all_iff)
    moreover have "co_committed s' \<le> length msgs" using run_offsets [OF run(1) assms(4)] run(2) by (simp add: offsets_ok_def)
    ultimately show ?thesis by simp
  qed
  with run last show ?thesis using poller_commits_manually [of cfg] by (auto intro!: exI [of _ ds] exI [of _ s'])
qed

text \<open>A world that answers: a recommendation for one container, or for one namespace, whichever was looked up.\<close>

definition answered :: Recommendation where
  "answered = \<lparr>rm_version = [], rm_data = [(''0001-01-01T00:00:00.000Z'', zero_data)],
     rm_notifications = [(''111000'', \<lparr>nt_type = ''info'', nt_message = [], nt_code = 111000\<rparr>)]\<rparr>"

definition answered_container :: ListRecommendations where
  "answered_container = \<lparr>lr_cluster_name = [], lr_experiment_name = [], lr_experiment_type = ''container'', lr_version = [],
     lr_kubernetes_objects = [\<lparr>ko_type = [], ko_name = [], ko_namespace = [], ko_containers =
       [\<lparr>ct_image_name = [], ct_name = ''c'', ct_metrics = [], ct_recommendations = answered\<rparr>]\<rparr>]\<rparr>"

definition answered_namespace :: NamespaceExperiment where
  "answered_namespace = \<lparr>ne_cluster_name = [], ne_experiment_type = ''namespace'', ne_kubernetes_objects =
       [\<lparr>nk_namespace = ''n'', nk_containers = [], nk_namespaces = \<lparr>no_namespace = ''n'', no_recommendations = answered\<rparr>\<rparr>],
     ne_version = [], ne_experiment_name = []\<rparr>"

definition asked_namespace :: "history \<Rightarrow> bool" where
  "asked_namespace h = (case rev h of _ # FirstNamespaceSet _ _ # _ \<Rightarrow> True | _ \<Rightarrow> False)"

definition answering_world :: world where
  "answering_world = lost_world\<lparr>
     w_http := (\<lambda>h. Inr \<lparr>hr_status = 200, hr_body = Some (JStr (if asked_namespace h then ''n'' else ''c''))\<rparr>),
     w_decode_recommendations := (\<lambda>j. if j = JStr ''c'' then Inr [answered_container] else Inl ''another type''),
     w_decode_namespaces := (\<lambda>j. if j = JStr ''n'' then Inr [answered_namespace] else Inl ''another type'')\<rparr>"

lemma answering: "database_answers answering_world" "kruize_answers answering_world" "requests_dated answering_world"
proof -
  show "database_answers answering_world"
    by (simp add: database_answers_def answering_world_def lost_world_def example_world_def)
  show "kruize_answers answering_world"
    by (simp add: kruize_answers_def recommends_def recommends_namespace_def answering_world_def lost_world_def example_world_def
        asked_namespace_def decode_body_def answered_container_def answered_namespace_def)
  have "\<exists>t. ConvertDateToISO8601 (fmt_string (md_max_endtime_report (km_metadata lost_request))) = Inr t"
    unfolding lost_request_def by (rule exI [of _ "''0001-01-01T00:00:00.000Z''"]) code_simp
  then show "requests_dated answering_world"
    by (simp add: requests_dated_def answering_world_def lost_world_def example_world_def)
qed

theorem poller_works_off_topic_witness:
  "\<exists>ds s'. consumer_run (auto_commit default_config [False]) (PollForRecommendations answering_world) lost_messages start_state ds s'
     \<and> map fst ds = [0, 1] \<and> co_committed s' = 2"
proof -
  obtain ds s' where "consumer_run (auto_commit default_config [False]) (PollForRecommendations answering_world) lost_messages start_state ds s'"
      "map fst ds = [co_pos start_state..<length lost_messages]"
      "co_pos start_state < length lost_messages \<longrightarrow> co_committed s' = length lost_messages"
    using poller_works_off_topic [OF answering start_ok, of default_config] by blast
  moreover have "co_pos start_state = 0" "length lost_messages = 2" by (simp_all add: start_state_def lost_messages_def)
  ultimately show ?thesis using upto_two by (intro exI [of _ ds] exI [of _ s']) simp
qed

end
