(* ===== verification/Validation.thy ===== *)
theory Validation
  imports Pipeline
begin

text \<open>
  The validation tags of the messages (\<open>internal/types/kafkaMsg.go\<close>), which the other theories leave to the world: what a
  processor asks of the poller passes the poller's own validation.
\<close>

section \<open>The tags\<close>

text \<open>\<open>validate:"required"\<close>: a text is not empty, a number is not 0, and a time is not the zero time in UTC.\<close>

definition required_time :: "gotime \<Rightarrow> bool" where
  "required_time t = (\<not> (is_zero_time t \<and> t_off t = 0))"

definition required_request :: "RecommendationKafkaMsg \<Rightarrow> bool" where
  "required_request m =
     (km_request_id m \<noteq> [] \<and> md_org_id (km_metadata m) \<noteq> [] \<and> md_workload_id (km_metadata m) \<noteq> 0
      \<and> md_experiment_name (km_metadata m) \<noteq> [] \<and> required_time (md_max_endtime_report (km_metadata m))
      \<and> md_experiment_type (km_metadata m) \<noteq> [])"

text \<open>\<open>uuid_ok\<close> is the tag \<open>uuid\<close>.  The list of files is required not to be nil; a list of the model does not tell.\<close>

definition required_report :: "(string \<Rightarrow> bool) \<Rightarrow> KafkaMsg \<Rightarrow> bool" where
  "required_report uuid_ok m =
     (rp_request_id m \<noteq> [] \<and> rp_b64_identity m \<noteq> [] \<and> rp_org_id m \<noteq> [] \<and> rp_source_id m \<noteq> []
      \<and> rp_cluster_uuid m \<noteq> [] \<and> uuid_ok (rp_cluster_uuid m) \<and> rp_cluster_alias m \<noteq> [])"

text \<open>What the validator promises for the two types.\<close>

definition validator_ok :: "world \<Rightarrow> (string \<Rightarrow> bool) \<Rightarrow> bool" where
  "validator_ok w uuid_ok =
     ((\<forall>m. (w_valid_request w m = None) = required_request m)
      \<and> (\<forall>m. w_valid_report w m = None \<longrightarrow> required_report uuid_ok m))"

section \<open>What the processor asks for\<close>

definition asked_for :: "world \<Rightarrow> KafkaMsg \<Rightarrow> event \<Rightarrow> bool" where
  "asked_for w msg e =
     (case e of
        Produce t k b q \<Rightarrow> t = RecommendationTopic (w_cfg w)
          \<and> (\<exists>i end1 ty. ty \<in> {''container'', ''namespace''} \<and> k \<noteq> [] \<and> w_encode_message w (request_message msg i end1 k ty) = Inr b)
      | _ \<Rightarrow> True)"

lemma silent_asked: "silent e \<Longrightarrow> asked_for w msg e"
  by (cases e) (simp_all add: silent_def asked_for_def)

lemma asked_simps [simp]:
  "asked_for w msg (Inc c)" "asked_for w msg (Clock t)" "asked_for w msg (Download u r)" "asked_for w msg (SaveAccount a r1)"
  "asked_for w msg (SaveCluster c1 r2)" "asked_for w msg (SaveWorkload wl r3)" "asked_for w msg (CommitMessage x)"
  by (simp_all add: asked_for_def)

lemma request_asked:
  assumes "ty \<in> {''container'', ''namespace''}" "en \<noteq> []"
  shows "only (asked_for w msg) (request_recommendation w (request_message msg i t en ty))"
proof (rule only_weaken [OF request_recommendation_only])
  fix e assume "is_request w (request_message msg i t en ty) e"
  with assms silent_asked show "asked_for w msg e"
    by (cases e) (auto simp: is_request_def asked_for_def request_message_def)
qed

lemma store_asked:
  assumes "ty \<in> {''container'', ''namespace''}" "wl_experiment_name wl \<noteq> []" "\<And>c i. only silent (send_chunk c i)"
  shows "only (asked_for w msg) (store_and_request w msg wl t ty payload send_chunk)"
  unfolding store_and_request_def CreateWorkload_def
  by (auto intro!: only_rules request_asked assms(1,2) only_weaken [OF assms(3) silent_asked] split: sum.split option.split)

lemma groups_asked [only_rules]:
  "only (asked_for w msg) (process_container_group w g fuel msg i v)"
  "only (asked_for w msg) (process_namespace_group w g fuel msg i v)"
  unfolding process_container_group_def process_namespace_group_def Let_def
  by (auto intro!: only_rules store_asked chunk_silent only_weaken [OF create_silent(1) silent_asked]
      only_weaken [OF create_silent(2) silent_asked]
      simp: GenerateExperimentName_def GenerateNamespaceExperimentName_def split: outcome.split list.split option.split sum.split)

lemma file_parts_asked [only_rules]:
  "only (asked_for w msg) (ReadCSVFromUrl w u)" "only (asked_for w msg) (Aggregate_data g uni c df)"
  "only (asked_for w msg) (ensure_account w msg a)" "only (asked_for w msg) (ensure_cluster w msg n cl)"
  by (auto simp: ReadCSVFromUrl_def Aggregate_data_def ensure_account_def CreateRHAccount_def ensure_cluster_def CreateCluster_def Let_def
      intro!: only_rules split: sum.split option.split prod.split)

lemma file_asked [only_rules]: "only (asked_for w msg) (process_file w g uni fuel msg st csv)"
  unfolding process_file_def Let_def by (intro only_rules | simp split: sum.split option.split | intro allI impI conjI)+

lemma files_asked: "only (asked_for w msg) (process_files w g uni fuel msg st files)"
  by (induction files arbitrary: st) (auto intro!: only_rules)

text \<open>A message that the poller's validation takes, unless the database gave the workload the identifier 0 or the rows end at the
  zero time.\<close>

definition acceptable :: "world \<Rightarrow> string \<Rightarrow> bool" where
  "acceptable w b =
     (\<exists>m. w_encode_message w m = Inr b \<and> md_experiment_type (km_metadata m) \<in> {''container'', ''namespace''}
        \<and> (md_workload_id (km_metadata m) \<noteq> 0 \<longrightarrow> required_time (md_max_endtime_report (km_metadata m)) \<longrightarrow> w_valid_request w m = None))"

definition sends_acceptable :: "world \<Rightarrow> event \<Rightarrow> bool" where
  "sends_acceptable w e = (case e of Produce t k b q \<Rightarrow> acceptable w b | _ \<Rightarrow> True)"

lemma asked_acceptable:
  assumes "validator_ok w uuid_ok" "w_valid_report w msg = None" "asked_for w msg e"
  shows "sends_acceptable w e"
proof (cases "\<exists>t k b q. e = Produce t k b q")
  case True
  then obtain t k b q where e: "e = Produce t k b q" by blast
  with assms(3) obtain i end1 ty where m: "ty \<in> {''container'', ''namespace''}" "k \<noteq> []"
      "w_encode_message w (request_message msg i end1 k ty) = Inr b"
    unfolding asked_for_def by auto
  have "required_report uuid_ok msg" using assms(1,2) by (simp add: validator_ok_def)
  moreover have "w_valid_request w m' = None" if "required_request m'" for m' using assms(1) that by (simp add: validator_ok_def)
  ultimately have "i \<noteq> 0 \<longrightarrow> required_time (to_utc end1) \<longrightarrow> w_valid_request w (request_message msg i end1 k ty) = None"
    using m(1,2) by (auto simp: required_report_def required_request_def request_message_def)
  with m have "acceptable w b"
    unfolding acceptable_def by (intro exI [of _ "request_message msg i end1 k ty"]) (simp add: request_message_def)
  then show ?thesis by (simp add: e sends_acceptable_def)
next
  case False
  then show ?thesis by (cases e) (simp_all add: sends_acceptable_def)
qed

lemma report_acceptable:
  assumes "validator_ok w uuid_ok"
  shows "sat (ProcessReport w g uni fuel msg has_consumer) h (\<lambda>r es. list_all (sends_acceptable w) es)"
proof -
  have c: "only (sends_acceptable w) (commitOnPermanentFailure w has_consumer)"
    unfolding commitOnPermanentFailure_def by (intro only_rules) (simp_all add: sends_acceptable_def)
  have f: "only (sends_acceptable w) (process_files w g uni fuel m nothing_saved (rp_files m))" if "w_valid_report w m = None" for m
    by (rule only_weaken [OF files_asked asked_acceptable [OF assms that]])
  show ?thesis
    unfolding ProcessReport_def by (rule only_sat) (auto intro: c f split: option.split sum.split)
qed

text \<open>The other services send nothing to the topic.\<close>

lemma poll_acceptable: "sat (PollForRecommendations w msg) h (\<lambda>r es. list_all (sends_acceptable w) es)"
proof (rule sat_mono [OF only_sat [OF PollForRecommendations_for]])
  fix es :: "event list"
  have "is_commit e \<Longrightarrow> sends_acceptable w e" "for_request w md e \<Longrightarrow> sends_acceptable w e" for e md
    by (cases e; simp add: is_commit_def sends_acceptable_def for_request_def)+
  then show "list_all (case msg of None \<Rightarrow> is_commit
      | Some j \<Rightarrow> (case w_decode_request w j of Inl err \<Rightarrow> is_commit | Inr m \<Rightarrow> for_request w (km_metadata m))) es
    \<Longrightarrow> list_all (sends_acceptable w) es"
    by (auto simp: list_all_iff split: option.splits sum.splits)
qed

lemma cleaning_acceptable: "cleaning e \<Longrightarrow> sends_acceptable w e"
  by (cases e) (simp_all add: cleaning_def sends_acceptable_def)

lemma sources_acceptable: "sat (sourcesListener w app msg headers) h (\<lambda>r es. list_all (sends_acceptable w) es)"
  by (rule only_sat [OF only_weaken [OF sourcesListener_cleaning cleaning_acceptable]])

section \<open>The topic\<close>

text \<open>That what is sent is acceptable is a law that does not depend on the events before.\<close>

definition acceptance :: "world \<Rightarrow> event set \<Rightarrow> event \<Rightarrow> bool" where
  "acceptance w H e = sends_acceptable w e"

interpretation accepting: event_law "acceptance w" for w
  by unfold_locales (simp add: acceptance_def)

lemma acceptance_all: "list_all (sends_acceptable w) es \<Longrightarrow> lawful (acceptance w) H es"
  by (rule accepting.lawful_all) (simp add: acceptance_def [abs_def])

lemma same_acceptable:
  assumes "same_program w w'"
  shows "sends_acceptable w' = sends_acceptable w" "validator_ok w' u = validator_ok w u"
proof -
  have a: "acceptable w' b = acceptable w b" for b using assms by (simp add: acceptable_def same_program_def)
  then show "sends_acceptable w' = sends_acceptable w" "validator_ok w' u = validator_ok w u"
    using assms by (simp_all add: sends_acceptable_def validator_ok_def same_program_def fun_eq_iff split: event.split)
qed

lemma begins_acceptable:
  assumes "validator_ok w uuid_ok" "begins w parse s es"
  shows "list_all (sends_acceptable w) es"
  using assms(2)
proof cases
  case (Report w' g uni fuel msg has_consumer r)
  have "validator_ok w' uuid_ok" using assms(1) by (simp add: same_acceptable [OF Report(1)])
  from satD [OF report_acceptable [OF this] Report(2)] show ?thesis by (simp add: same_acceptable [OF Report(1)])
next
  case (Poll w' b r)
  from satD [OF poll_acceptable Poll(3)] show ?thesis by (simp add: same_acceptable [OF Poll(1)])
next
  case (Sources w' app msg headers r)
  from satD [OF sources_acceptable Sources(2)] show ?thesis by (simp add: same_acceptable [OF Sources(1)])
qed

lemma reachable_accepting: "reachable w parse s \<Longrightarrow> validator_ok w uuid_ok \<Longrightarrow> laws_hold (acceptance w) s"
  by (rule accepting.reachable_laws, assumption, rule acceptance_all, rule begins_acceptable)

text \<open>C14: However the services interleave, crash and repeat messages, every message on the recommendation topic decodes to a request of
  one of the two types that passes the poller's validation, unless the database gave its workload the identifier 0 or the rows it
  is for end at the zero time.\<close>

theorem topic_requests_valid:
  assumes "validator_ok w uuid_ok" "codec_ok w parse" "reachable w parse s" "b \<in> set (sy_topic s)"
  shows "\<exists>j m. parse b = Some j \<and> w_decode_request w j = Inr m \<and> md_experiment_type (km_metadata m) \<in> {''container'', ''namespace''}
    \<and> (md_workload_id (km_metadata m) \<noteq> 0 \<and> required_time (md_max_endtime_report (km_metadata m)) \<longrightarrow> w_valid_request w m = None)"
proof -
  obtain t k where "Produce t k b Delivered \<in> set (sy_history s)" using topic_sent [OF assms(3,4)] by blast
  with reachable_accepting [OF assms(3,1)] have "acceptance w (set (sy_history s)) (Produce t k b Delivered)"
    using accepting.lawful_member [of w "{}" "sy_history s"] by (simp add: laws_hold_def)
  then have "acceptable w b" by (simp add: acceptance_def sends_acceptable_def)
  with assms(2) show ?thesis unfolding acceptable_def codec_ok_def by blast
qed

definition checking_world :: world where
  "checking_world = run_world\<lparr>w_valid_request := (\<lambda>m. if required_request m then None else Some ''required''),
     w_valid_report := (\<lambda>m. if required_report (\<lambda>_. True) m then None else Some ''required'')\<rparr>"

lemma checking_ok: "validator_ok checking_world (\<lambda>_. True)"
  by (simp add: validator_ok_def checking_world_def)

definition checking_events :: "event list" where
  "checking_events = snd (ProcessReport checking_world run_gota id 1 (Some JNull) True [])"

lemma checking_topic: "fold (topic_after checking_world) checking_events [] = [''request'']"
  by code_simp

lemma checking_codec: "codec_ok checking_world run_parse"
  by (auto simp: codec_ok_def checking_world_def run_world_def run_parse_def split: if_splits)

lemma checking_reachable:
  "reachable checking_world run_parse \<lparr>sy_history = checking_events, sy_topic = [''request''], sy_running = []\<rparr>"
proof -
  let ?s0 = "\<lparr>sy_history = [], sy_topic = [], sy_running = []\<rparr>"
  have same: "same_program checking_world checking_world" by (simp add: same_program_def)
  obtain r0 where "ProcessReport checking_world run_gota id 1 (Some JNull) True (sy_history ?s0) = (r0, checking_events)"
    unfolding checking_events_def by (cases "ProcessReport checking_world run_gota id 1 (Some JNull) True []") simp
  from reachable.Step [OF reachable.Start system_step.Begin [OF begins.Report [OF same this]]]
  have "reachable checking_world run_parse (started checking_events ?s0)" .
  from reachable_plays [OF this] show ?thesis by (simp add: started_def checking_topic)
qed

lemma run_request_complete: "md_workload_id (km_metadata run_request) \<noteq> 0 \<and> required_time (md_max_endtime_report (km_metadata run_request))"
  by code_simp

theorem topic_requests_valid_witness:
  "w_decode_request checking_world JNull = Inr run_request \<and> w_valid_request checking_world run_request = None"
  using topic_requests_valid [OF checking_ok checking_codec checking_reachable, of "''request''"] run_request_complete
  by (auto simp: checking_world_def run_world_def run_parse_def)

end
