(* ===== verification/Provenance.thy ===== *)
theory Provenance
  imports Routes Pipeline
begin

text \<open>
  Where the rows that the API shows come from, over all services: from a recommendation of Kruize that the poller asked for and saved,
  for a workload of the caller's organisation, of a cluster under the account of that organisation.
\<close>

section \<open>Workloads are under the account of their organisation\<close>

definition tenanted :: "event set \<Rightarrow> event \<Rightarrow> bool" where
  "tenanted H e =
     (case e of
        SaveWorkload wl q \<Rightarrow>
          (\<exists>c a b. SaveCluster c (Inr (wl_cluster_id wl)) \<in> H \<and> SaveAccount a (Inr (cl_tenant_id c, b)) \<in> H
             \<and> ac_org_id a = wl_org_id wl)
      | _ \<Rightarrow> True)"

lemma tenanted_mono: "tenanted H e \<Longrightarrow> H \<subseteq> H' \<Longrightarrow> tenanted H' e"
  by (cases e) (auto simp: tenanted_def)

interpretation tenancy: event_law tenanted
  by unfold_locales (rule tenanted_mono)

text \<open>What the processor's state says about the events before.\<close>

definition state_saved :: "event set \<Rightarrow> KafkaMsg \<Rightarrow> report_state \<Rightarrow> bool" where
  "state_saved H msg s =
     ((case st_account s of None \<Rightarrow> True | Some i \<Rightarrow> \<exists>a b. SaveAccount a (Inr (i, b)) \<in> H \<and> ac_org_id a = rp_org_id msg)
      \<and> (case st_cluster s of None \<Rightarrow> True | Some k \<Rightarrow> \<exists>c. SaveCluster c (Inr k) \<in> H \<and> st_account s = Some (cl_tenant_id c)))"

lemma state_saved_mono: "state_saved H msg s \<Longrightarrow> state_saved (insert e H) msg s"
  unfolding state_saved_def by (auto split: option.splits)

lemma saves_tenanted: "saves msg s es s' \<Longrightarrow> state_saved H msg s \<Longrightarrow> lawful tenanted H es"
proof (induction arbitrary: H rule: saves.induct)
  case (Account reply es s' r)
  then have "state_saved (insert (SaveAccount r reply) H) msg \<lparr>st_account = account_id reply, st_cluster = None\<rparr>"
    by (auto simp: state_saved_def account_id_def split: sum.split)
  with Account.IH show ?case by (simp add: tenanted_def)
next
  case (Cluster i reply es s' c)
  then have "state_saved (insert (SaveCluster c reply) H) msg \<lparr>st_account = Some i, st_cluster = row_id reply\<rparr>"
    by (auto simp: state_saved_def row_id_def split: sum.split)
  with Cluster.IH show ?case by (simp add: tenanted_def)
next
  case (Workload s es s' wl reply)
  then have "tenanted H (SaveWorkload wl reply)" by (auto simp: state_saved_def tenanted_def)
  with Workload.IH [OF state_saved_mono [OF Workload.prems]] show ?case by simp
next
  case (Plain s es s' e)
  then have "tenanted H e" by (cases e) (simp_all add: tenanted_def plain_def)
  with Plain.IH [OF state_saved_mono [OF Plain.prems]] show ?case by simp
qed simp

lemma report_tenanted: "sat (ProcessReport w g uni fuel j has_consumer) h (\<lambda>r es. lawful tenanted H es)"
  by (rule sat_mono [OF report_outcome])
    (auto split: option.splits if_splits intro: saves_tenanted simp: state_saved_def tenanted_def)

lemma poll_tenanted: "only (tenanted {}) (PollForRecommendations w msg)"
proof (rule only_weaken [OF PollForRecommendations_for])
  fix e
  have "is_commit e \<Longrightarrow> tenanted {} e" "for_request w md e \<Longrightarrow> tenanted {} e" for md
    by (cases e; simp add: is_commit_def tenanted_def for_request_def)+
  then show "(case msg of None \<Rightarrow> is_commit
      | Some j \<Rightarrow> (case w_decode_request w j of Inl err \<Rightarrow> is_commit | Inr m \<Rightarrow> for_request w (km_metadata m))) e \<Longrightarrow> tenanted {} e"
    by (auto split: option.splits sum.splits)
qed

lemma cleaning_tenanted: "cleaning e \<Longrightarrow> tenanted H e"
  by (cases e) (simp_all add: cleaning_def tenanted_def)

lemma begins_tenanted: "begins w parse s es \<Longrightarrow> lawful tenanted H es"
proof (induction rule: begins.induct)
  case (Report w' g uni fuel msg has_consumer r es)
  from satD [OF report_tenanted Report(2)] show ?case .
next
  case (Poll w' b r es)
  from satD [OF lawfullyD [OF tenancy.lawfully_only [OF poll_tenanted]] Poll(3)] show ?case .
next
  case (Sources w' app msg headers r es)
  from satD [OF lawfullyD [OF tenancy.lawfully_only [OF only_weaken [OF sourcesListener_cleaning cleaning_tenanted]]] Sources(2)]
  show ?case .
qed

lemma reachable_tenanted: "reachable w parse s \<Longrightarrow> laws_hold tenanted s"
  by (rule tenancy.reachable_laws, assumption, rule begins_tenanted)

section \<open>Identifiers\<close>

text \<open>The primary keys of the database: an identifier is that of one row, with the columns of its conflict key.\<close>

definition same_row :: "event \<Rightarrow> event \<Rightarrow> bool" where
  "same_row e e' =
     (case e of
        SaveAccount a (Inr (i, b)) \<Rightarrow> (case e' of SaveAccount a' (Inr (i', b')) \<Rightarrow> i = i' \<longrightarrow> ac_org_id a = ac_org_id a' | _ \<Rightarrow> True)
      | SaveCluster c (Inr i) \<Rightarrow> (case e' of SaveCluster c' (Inr i') \<Rightarrow> i = i' \<longrightarrow> cluster_key c = cluster_key c' | _ \<Rightarrow> True)
      | SaveWorkload wl (Inr i) \<Rightarrow> (case e' of SaveWorkload wl' (Inr i') \<Rightarrow> i = i' \<longrightarrow> workload_key wl = workload_key wl' | _ \<Rightarrow> True)
      | _ \<Rightarrow> True)"

definition identifiers_ok :: "event list \<Rightarrow> bool" where
  "identifiers_ok es = list_all (\<lambda>e. list_all (same_row e) es) es"

lemma identifiersD:
  assumes "identifiers_ok es"
  shows "SaveAccount a (Inr (i, b)) \<in> set es \<Longrightarrow> SaveAccount a' (Inr (i, b')) \<in> set es \<Longrightarrow> ac_org_id a = ac_org_id a'"
    "SaveCluster c (Inr k) \<in> set es \<Longrightarrow> SaveCluster c' (Inr k) \<in> set es \<Longrightarrow> cl_tenant_id c = cl_tenant_id c'"
    "SaveWorkload wl (Inr n) \<in> set es \<Longrightarrow> SaveWorkload wl' (Inr n) \<in> set es \<Longrightarrow>
       wl_org_id wl = wl_org_id wl' \<and> wl_cluster_id wl = wl_cluster_id wl'"
proof -
  have s: "same_row e e'" if "e \<in> set es" "e' \<in> set es" for e e'
    using assms that by (auto simp: identifiers_ok_def list_all_iff)
  show "SaveAccount a (Inr (i, b)) \<in> set es \<Longrightarrow> SaveAccount a' (Inr (i, b')) \<in> set es \<Longrightarrow> ac_org_id a = ac_org_id a'"
    by (auto simp: same_row_def dest: s)
  show "SaveCluster c (Inr k) \<in> set es \<Longrightarrow> SaveCluster c' (Inr k) \<in> set es \<Longrightarrow> cl_tenant_id c = cl_tenant_id c'"
    by (auto dest: s simp: same_row_def cluster_key_def)
  show "SaveWorkload wl (Inr n) \<in> set es \<Longrightarrow> SaveWorkload wl' (Inr n) \<in> set es \<Longrightarrow>
      wl_org_id wl = wl_org_id wl' \<and> wl_cluster_id wl = wl_cluster_id wl'"
    by (auto dest: s simp: same_row_def workload_key_def)
qed

text \<open>Only three kinds of events count.\<close>

definition keyed :: "event \<Rightarrow> bool" where
  "keyed e = (case e of SaveAccount a (Inr i) \<Rightarrow> True | SaveCluster c (Inr i) \<Rightarrow> True | SaveWorkload wl (Inr i) \<Rightarrow> True | _ \<Rightarrow> False)"

lemma same_row_unkeyed: "\<not> keyed e \<Longrightarrow> same_row e e'" "\<not> keyed e' \<Longrightarrow> same_row e e'"
  by (auto simp: keyed_def same_row_def split: event.split sum.split prod.split)

lemma identifiers_ok_keyed: "identifiers_ok es = identifiers_ok (filter keyed es)"
  by (auto simp: identifiers_ok_def list_all_iff intro: same_row_unkeyed)

text \<open>The cluster and the account of a workload, whichever rows are found under the identifiers.\<close>

lemma workload_tenant:
  assumes "reachable w parse s" "identifiers_ok (sy_history s)" "SaveWorkload wl q \<in> set (sy_history s)"
    and "SaveCluster c (Inr (wl_cluster_id wl)) \<in> set (sy_history s)"
  shows "\<exists>a b. SaveAccount a (Inr (cl_tenant_id c, b)) \<in> set (sy_history s) \<and> ac_org_id a = wl_org_id wl"
proof -
  have "tenanted (set (sy_history s)) (SaveWorkload wl q)"
    using tenancy.lawful_member [of "{}" "sy_history s"] reachable_tenanted [OF assms(1)] assms(3) by (simp add: laws_hold_def)
  then obtain c' a b where "SaveCluster c' (Inr (wl_cluster_id wl)) \<in> set (sy_history s)"
      "SaveAccount a (Inr (cl_tenant_id c', b)) \<in> set (sy_history s)" "ac_org_id a = wl_org_id wl"
    by (auto simp: tenanted_def)
  with identifiersD(2) [OF assms(2) assms(4)] show ?thesis by auto
qed

section \<open>What the database returns\<close>

text \<open>The joins of the two queries: a row is made of inserted rows, found by their identifiers.  \<open>jsonb\<close> is the database's form of a
  document.\<close>

definition joined :: "(string \<Rightarrow> string) \<Rightarrow> event set \<Rightarrow> RecommendationSetResult \<Rightarrow> RHAccount \<Rightarrow> bool" where
  "joined jsonb H row a =
     (\<exists>r wl c b. SaveSet r DbOk \<in> H \<and> SaveWorkload wl (Inr (rset_workload_id r)) \<in> H
        \<and> SaveCluster c (Inr (wl_cluster_id wl)) \<in> H \<and> SaveAccount a (Inr (cl_tenant_id c, b)) \<in> H
        \<and> rr_container row = rset_container r \<and> rr_recommendations row = jsonb (rset_recommendations r)
        \<and> rr_project row = wl_namespace wl \<and> rr_workload row = wl_name wl \<and> rr_workload_type row = wl_type wl
        \<and> rr_source_id row = cl_source_id c \<and> rr_cluster_uuid row = cl_uuid c \<and> rr_cluster_alias row = cl_alias c)"

definition njoined :: "(string \<Rightarrow> string) \<Rightarrow> event set \<Rightarrow> NamespaceRecommendationSetResult \<Rightarrow> NamespaceRecommendationSet \<Rightarrow> bool" where
  "njoined jsonb H row r =
     (\<exists>wl c. SaveNamespaceSet r DbOk \<in> H \<and> SaveWorkload wl (Inr (nset_workload_id r)) \<in> H
        \<and> SaveCluster c (Inr (wl_cluster_id wl)) \<in> H
        \<and> nr_project row = nset_namespace r \<and> nr_recommendations row = jsonb (nset_recommendations r)
        \<and> nr_source_id row = cl_source_id c \<and> nr_cluster_uuid row = cl_uuid c \<and> nr_cluster_alias row = cl_alias c)"

text \<open>The organisation of a row is that of the account, or of the namespace's recommendation: the columns of the two conditions.\<close>

definition reads ::
  "(string \<Rightarrow> string) \<Rightarrow> event set \<Rightarrow> (RecommendationSetResult \<Rightarrow> string) \<Rightarrow> (NamespaceRecommendationSetResult \<Rightarrow> string) \<Rightarrow> api_env \<Rightarrow> bool" where
  "reads jsonb H org_of norg_of env =
     ((\<forall>row. returned env row \<longrightarrow> (\<exists>a. joined jsonb H row a \<and> ac_org_id a = org_of row))
      \<and> (\<forall>row. nreturned env row \<longrightarrow> (\<exists>r. njoined jsonb H row r \<and> nset_org_id r = norg_of row)))"

section \<open>Provenance\<close>

text \<open>Of the organisation \<open>org\<close> there are the account and the cluster \<open>uuid\<close> under it.\<close>

definition cluster_under :: "event set \<Rightarrow> string \<Rightarrow> string \<Rightarrow> bool" where
  "cluster_under H org uuid =
     (\<exists>c k a b. SaveCluster c (Inr k) \<in> H \<and> cl_uuid c = uuid \<and> SaveAccount a (Inr (cl_tenant_id c, b)) \<in> H \<and> ac_org_id a = org)"

definition provenance :: "world \<Rightarrow> (string \<Rightarrow> string) \<Rightarrow> event set \<Rightarrow> string \<Rightarrow> RecommendationSetResult \<Rightarrow> bool" where
  "provenance w jsonb H org row =
     (cluster_under H org (rr_cluster_uuid row)
      \<and> (\<exists>md v t now. md_org_id md = org \<and> saved_for H md \<and> w_encode_data w v = Inr t
           \<and> SaveSet (stamp_set now (recommendation_row md (rr_container row) v t)) DbOk \<in> H \<and> rr_recommendations row = jsonb t))"

definition nprovenance :: "world \<Rightarrow> (string \<Rightarrow> string) \<Rightarrow> event set \<Rightarrow> string \<Rightarrow> NamespaceRecommendationSetResult \<Rightarrow> bool" where
  "nprovenance w jsonb H org row =
     (cluster_under H org (nr_cluster_uuid row)
      \<and> (\<exists>md v t now. md_org_id md = org \<and> saved_for H md \<and> w_encode_data w v = Inr t
           \<and> SaveNamespaceSet (namespace_row md (nr_project row) v t now) DbOk \<in> H \<and> nr_recommendations row = jsonb t))"

lemma saved_justified:
  assumes "reachable w parse s" "codec_ok w parse" "e \<in> set (sy_history s)"
  shows "justified w (set (sy_history s)) e"
  using justification.lawful_member [of w "{}" "sy_history s" e] reachable_justified [OF assms(1,2)] assms(3)
  by (simp add: laws_hold_def)

lemma joined_provenance:
  assumes "reachable w parse s" "codec_ok w parse" "identifiers_ok (sy_history s)" "joined jsonb (set (sy_history s)) row a"
  shows "provenance w jsonb (set (sy_history s)) (ac_org_id a) row"
proof -
  let ?H = "set (sy_history s)"
  obtain r wl c b where r: "SaveSet r DbOk \<in> ?H" and wl: "SaveWorkload wl (Inr (rset_workload_id r)) \<in> ?H"
    and c: "SaveCluster c (Inr (wl_cluster_id wl)) \<in> ?H" and a: "SaveAccount a (Inr (cl_tenant_id c, b)) \<in> ?H"
    and row: "rr_container row = rset_container r" "rr_recommendations row = jsonb (rset_recommendations r)" "rr_cluster_uuid row = cl_uuid c"
    using assms(4) unfolding joined_def by blast
  obtain md name v t now where md: "saved_for ?H md" "w_encode_data w v = Inr t" "r = stamp_set now (recommendation_row md name v t)"
    using saved_justified [OF assms(1,2) r] by (auto simp: justified_def row_from_def)
  have "wl_org_id wl = md_org_id md"
    using md(1) identifiersD(3) [OF assms(3) wl] by (auto simp: saved_for_def saved_workload_def md(3) recommendation_row_def stamp_set_def)
  moreover obtain a' b' where "SaveAccount a' (Inr (cl_tenant_id c, b')) \<in> ?H" "ac_org_id a' = wl_org_id wl"
    using workload_tenant [OF assms(1,3) wl c] by blast
  ultimately have "md_org_id md = ac_org_id a" using identifiersD(1) [OF assms(3) a] by metis
  with r c a row md show ?thesis
    unfolding provenance_def cluster_under_def by (auto simp: recommendation_row_def stamp_set_def)
qed

lemma njoined_provenance:
  assumes "reachable w parse s" "codec_ok w parse" "identifiers_ok (sy_history s)" "njoined jsonb (set (sy_history s)) row r"
  shows "nprovenance w jsonb (set (sy_history s)) (nset_org_id r) row"
proof -
  let ?H = "set (sy_history s)"
  obtain wl c where r: "SaveNamespaceSet r DbOk \<in> ?H" and wl: "SaveWorkload wl (Inr (nset_workload_id r)) \<in> ?H"
    and c: "SaveCluster c (Inr (wl_cluster_id wl)) \<in> ?H"
    and row: "nr_project row = nset_namespace r" "nr_recommendations row = jsonb (nset_recommendations r)" "nr_cluster_uuid row = cl_uuid c"
    using assms(4) unfolding njoined_def by blast
  obtain md name v t now where md: "saved_for ?H md" "w_encode_data w v = Inr t" "r = namespace_row md name v t now"
    using saved_justified [OF assms(1,2) r] by (auto simp: justified_def nrow_from_def)
  have "wl_org_id wl = md_org_id md"
    using md(1) identifiersD(3) [OF assms(3) wl] by (auto simp: saved_for_def saved_workload_def md(3) namespace_row_def)
  then have "cluster_under ?H (md_org_id md) (cl_uuid c)"
    using workload_tenant [OF assms(1,3) wl c] c by (auto simp: cluster_under_def)
  with r row md show ?thesis
    unfolding nprovenance_def by (auto simp: namespace_row_def)
qed

section \<open>From the request to the answer\<close>

text \<open>C1: Over all services, in every run: whatever path of the API is requested, every row in the answer, as JSON or in a CSV download,
  shows a recommendation that the poller saved for a request of the caller's organisation (the one in the identity header) and for a
  workload that the processor had saved for it; the document shown is the one that Kruize gave, and the cluster shown is under the
  account of that organisation.\<close>

theorem shown_rows_were_recommended:
  assumes "codec_ok w parse" "reachable w parse s" "identifiers_ok (sy_history s)"
    and "row_semantics meets org_of rr_cluster_uuid rr_project ResourceContainer"
    and "row_semantics nmeets norg_of nr_cluster_uuid nr_project ResourceProject"
    and "database_ok meets nmeets env" "reads jsonb (set (sy_history s)) org_of norg_of env" "router_ok router"
    and "answer router unmarshal sprint reply base env header req = Some rep"
  shows "case rep of
      Containers resp \<Rightarrow>
        shows_only (\<lambda>row. \<exists>org. row_of_caller unmarshal header org \<and> provenance w jsonb (set (sy_history s)) org row) env resp
    | Namespaces resp \<Rightarrow>
        list_all (\<lambda>row. \<exists>org. row_of_caller unmarshal header org \<and> nprovenance w jsonb (set (sy_history s)) org row) (shown resp)
    | _ \<Rightarrow> True"
proof -
  let ?H = "set (sy_history s)"
  have c: "provenance w jsonb ?H (org_of (row\<lparr>rr_json := None\<rparr>)) row" if "returned env (row\<lparr>rr_json := None\<rparr>)" for row
    using that assms(7) joined_provenance [OF assms(2,1,3), of jsonb "row\<lparr>rr_json := None\<rparr>"]
    by (fastforce simp: reads_def provenance_def)
  have n: "nprovenance w jsonb ?H (norg_of (row\<lparr>nr_json := None\<rparr>)) row" if "nreturned env (row\<lparr>nr_json := None\<rparr>)" for row
    using that assms(7) njoined_provenance [OF assms(2,1,3), of jsonb "row\<lparr>nr_json := None\<rparr>"]
    by (fastforce simp: reads_def nprovenance_def)
  have containers: "shows_only (\<lambda>row. \<exists>org. row_of_caller unmarshal header org \<and> provenance w jsonb ?H org row) env resp"
    if "handler = GetRecommendationSetList \<or> handler = GetRecommendationSet"
      "serve unmarshal sprint reply base handler env header q = Some resp" for handler q resp
    by (rule shows_only_mono [OF containers_served [OF assms(4,6) that]]) (use c in blast)
  have namespaces: "list_all (\<lambda>row. \<exists>org. row_of_caller unmarshal header org \<and> nprovenance w jsonb ?H org row) (shown resp)"
    if "handler = GetNamespaceRecommendationSetList \<or> handler = GetNamespaceRecommendationSet"
      "serve unmarshal sprint reply base handler env header q = Some resp" for handler q resp
    by (rule list.pred_mono_strong [OF namespaces_served [OF assms(5,6) that]]) (use n in blast)
  show ?thesis
    using answer_cases [OF assms(8,9)] by (elim disjE exE conjE) (auto intro: containers namespaces)
qed

section \<open>A run\<close>

text \<open>The namespace of theory Pipeline's run, shown to its organisation.\<close>

definition run_row :: NamespaceRecommendationSetResult where
  "run_row = \<lparr>nr_cluster_alias = ''alias'', nr_cluster_uuid = ''c1'', nr_id = ''id1'', nr_last_reported = [], nr_project = ''shop'',
     nr_recommendations = ''{}'', nr_json = None, nr_source_id = ''s1'', nr_pcts = no_pcts\<rparr>"

abbreviation "run_meets \<equiv> demo_meets (\<lambda>_. ''org1'') nr_cluster_uuid nr_project"

definition run_env :: api_env where
  "run_env = demo_env\<lparr>a_list := (\<lambda>cq q. Inl ''no rows''), a_first := (\<lambda>q. Inl ''record not found''),
     a_nslist := (\<lambda>cq q. Inr (filter (selects run_meets q) [run_row], 1)),
     a_nsfirst := (\<lambda>q. if selects run_meets q run_row then Inr run_row else Inl ''record not found'')\<rparr>"

definition run_events :: "event list" where
  "run_events = report_events @ poll_events"

lemma poll_unkeyed: "filter keyed poll_events = []"
proof -
  obtain m where m: "w_decode_request run_world JNull = Inr m" by (simp add: run_world_def)
  have "for_request run_world md e \<Longrightarrow> \<not> keyed e" for md e
    by (cases e) (simp_all add: for_request_def keyed_def)
  then show ?thesis
    using satD [OF only_sat [OF PollForRecommendations_for] prod.collapse [symmetric], of run_world "Some JNull" report_events] m
    by (auto simp: poll_events_def run_parse_def list_all_iff filter_empty_conv)
qed

lemma run_identifiers: "identifiers_ok run_events"
proof -
  have "identifiers_ok (filter keyed report_events)" by code_simp
  then show ?thesis using identifiers_ok_keyed [of run_events] by (simp add: run_events_def poll_unkeyed)
qed

definition run_workload :: "event \<Rightarrow> bool" where
  "run_workload e = (case e of SaveWorkload wl (Inr i) \<Rightarrow> i = 1 \<and> wl_cluster_id wl = 1 | _ \<Rightarrow> False)"

definition run_cluster :: "event \<Rightarrow> bool" where
  "run_cluster e =
     (case e of SaveCluster c (Inr i) \<Rightarrow> i = 1 \<and> cl_source_id c = ''s1'' \<and> cl_uuid c = ''c1'' \<and> cl_alias c = ''alias'' | _ \<Rightarrow> False)"

lemma run_rows: "list_ex run_workload report_events" "list_ex run_cluster report_events"
  by code_simp+

lemma run_joined: "\<exists>r. njoined id (set run_events) run_row r \<and> nset_org_id r = ''org1''"
proof -
  obtain e1 e2 e3 where e: "e1 \<in> set run_events" "e2 \<in> set run_events" "e3 \<in> set run_events" and p: "run_saved e1" "run_workload e2" "run_cluster e3"
    using run_rows poll_saved unfolding list_ex_iff run_events_def set_append by blast
  obtain r where r: "e1 = SaveNamespaceSet r DbOk" "nset_org_id r = ''org1''" "nset_workload_id r = 1" "nset_namespace r = ''shop''"
      "nset_recommendations r = ''{}''"
    using run_savedD [OF p(1)] by blast
  obtain wl where wl: "e2 = SaveWorkload wl (Inr 1)" "wl_cluster_id wl = 1"
    using p(2) by (auto simp: run_workload_def split: event.splits sum.splits)
  obtain c where c: "e3 = SaveCluster c (Inr 1)" "cl_source_id c = ''s1''" "cl_uuid c = ''c1''" "cl_alias c = ''alias''"
    using p(3) by (auto simp: run_cluster_def split: event.splits sum.splits)
  have "njoined id (set run_events) run_row r"
    unfolding njoined_def by (rule exI [of _ wl], rule exI [of _ c]) (use e r wl c in \<open>simp add: run_row_def\<close>)
  with r(2) show ?thesis by blast
qed

lemma run_database: "database_ok demo_sat run_meets run_env"
  by (auto simp: database_ok_def run_env_def run_row_def list_all_iff split: if_splits)

lemma run_reads: "reads id (set run_events) rr_source_id (\<lambda>_. ''org1'') run_env"
proof -
  have "\<not> returned run_env row" for row by (simp add: returned_def run_env_def)
  moreover have "nreturned run_env row \<Longrightarrow> row = run_row" for row
    by (auto simp: nreturned_def run_env_def split: if_splits)
  ultimately show ?thesis using run_joined by (auto simp: reads_def)
qed

definition run_call :: api_request where
  "run_call = demo_request []\<lparr>hq_path := ''/api/cost-management/v1/recommendations/openshift/namespace/id1''\<rparr>"

definition run_passed :: api_request where
  "run_passed = run_call\<lparr>hq_org := ''org1'', hq_permissions := Some [(''openshift.cluster'', [''c1''])], hq_id := ''id1''\<rparr>"

lemma run_found:
  "\<exists>r. demo_router (ea_routes (api_app (a_cfg run_env))) (hq_path run_call) = Some (r, ''id1'') \<and> er_endpoint r = NamespaceById
     \<and> er_chain r = protected (a_cfg run_env)"
  by (simp add: demo_router_def api_app_def server_calls_def run_call_def run_env_def demo_env_def example_config_def protected_def fits_def)

lemma run_shown: "map nr_cluster_uuid (shown (GetNamespaceRecommendationSet run_env run_passed)) = [''c1'']"
  by code_simp

lemma run_answered:
  "answer demo_router Some (\<lambda>_. []) (\<lambda>_. demo_reply) [] run_env (EncodeToString ''org1'') run_call
   = Some (Namespaces (GetNamespaceRecommendationSet run_env run_passed))"
proof -
  have "RBACEnabled (a_cfg run_env)" by (simp add: run_env_def demo_env_def example_config_def)
  then have "serve Some (\<lambda>_. []) (\<lambda>_. demo_reply) [] GetNamespaceRecommendationSet run_env (EncodeToString ''org1'')
      (run_call\<lparr>hq_org := [], hq_permissions := None, hq_id := ''id1''\<rparr>) = Some (GetNamespaceRecommendationSet run_env run_passed)"
    by (simp add: serve_def Identity_def DecodeString_encoded route_def demo_middleware run_passed_def run_call_def demo_request_def
        del: EncodeToString.simps)
  then show ?thesis using run_found by (auto simp: answer_def run_protected)
qed

theorem shown_rows_were_recommended_witness:
  "\<exists>row org. row \<in> set (shown (GetNamespaceRecommendationSet run_env run_passed)) \<and> nr_cluster_uuid row = ''c1''
     \<and> row_of_caller Some (EncodeToString ''org1'') org \<and> nprovenance run_world id (set run_events) org row"
proof -
  have "list_all (\<lambda>row. \<exists>org. row_of_caller Some (EncodeToString ''org1'') org \<and> nprovenance run_world id (set run_events) org row)
      (shown (GetNamespaceRecommendationSet run_env run_passed))"
    using shown_rows_were_recommended [OF run_codec run_reached, folded run_events_def, simplified system.select_convs, OF run_identifiers
        demo_semantics [OF disjI1 [OF refl]] demo_semantics [OF disjI2 [OF refl]] run_database run_reads demo_router_ok run_answered]
    by simp
  moreover obtain row where "shown (GetNamespaceRecommendationSet run_env run_passed) = [row]" "nr_cluster_uuid row = ''c1''"
    using run_shown by auto
  ultimately show ?thesis by auto
qed

end
