(* ===== verification/Commands.thy ===== *)
theory Commands
  imports ReportProcessor Settings "HOL-Library.Word"
begin

text \<open>
  What is set up once per process, and the commands beside the services: the HTTP client (\<open>internal/utils/utils.go\<close>), the
  database connection (\<open>internal/db/db.go\<close>) and its migrations (\<open>cmd/db.go\<close>), the logger (\<open>internal/logging/logging.go\<close>), the
  database's text of a workload type (\<open>internal/types/workload\<close>) and the aggregator command (\<open>cmd/aggregator.go\<close>).  Files, the
  connection and the migrations themselves are parameters.
\<close>

section \<open>The HTTP client\<close>

text \<open>Go's \<open>int\<close> and \<open>time.Duration\<close> have 64 bits; the product of the two wraps.\<close>

definition minHTTPTimeoutSecs :: "64 word" where
  "minHTTPTimeoutSecs = 1"

definition newHTTPClient :: "64 word \<Rightarrow> 64 word" where
  "newHTTPClient timeoutSecs =
     (let timeoutSecs = (if sint timeoutSecs < sint minHTTPTimeoutSecs then minHTTPTimeoutSecs else timeoutSecs)
      in timeoutSecs * 1000000000)"

text \<open>A client waits without end unless its timeout is positive.\<close>

definition client_deadline :: "64 word \<Rightarrow> int option" where
  "client_deadline t = (if 0 < sint t then Some (sint t) else None)"

lemma sint_seconds:
  fixes t :: "64 word"
  assumes "0 \<le> sint t" "sint t \<le> 9223372036"
  shows "sint (t * 1000000000) = sint t * 1000000000"
proof -
  have "sint (1000000000 :: 64 word) = 1000000000" by simp
  then have "sint (t * 1000000000) = signed_take_bit 63 (sint t * 1000000000)"
    by (simp add: sint_word_ariths(3))
  also have "\<dots> = sint t * 1000000000" using assms by (intro signed_take_bit_int_eq_self) simp_all
  finally show ?thesis .
qed

text \<open>C37: The shared HTTP client never waits without end: for every configured number of seconds up to 9223372036 its timeout is
  that number, or one second if that is longer.  Beyond it the product wraps, and a setting of \<open>2 ^ 55\<close> seconds is no timeout
  at all.\<close>

theorem client_timeout:
  "(sint t \<le> 9223372036 \<longrightarrow> client_deadline (newHTTPClient t) = Some (max 1 (sint t) * 1000000000))
   \<and> client_deadline (newHTTPClient (word_of_int (2 ^ 55))) = None"
proof
  show "sint t \<le> 9223372036 \<longrightarrow> client_deadline (newHTTPClient t) = Some (max 1 (sint t) * 1000000000)"
  proof
    assume t: "sint t \<le> 9223372036"
    have one: "sint (1 * 1000000000 :: 64 word) = 1000000000" using sint_seconds [of 1] by simp
    show "client_deadline (newHTTPClient t) = Some (max 1 (sint t) * 1000000000)"
    proof (cases "sint t < 1")
      case True
      with one show ?thesis by (simp add: newHTTPClient_def minHTTPTimeoutSecs_def client_deadline_def max_def)
    next
      case False
      with sint_seconds [of t] t show ?thesis
        by (simp add: newHTTPClient_def minHTTPTimeoutSecs_def client_deadline_def max_def)
    qed
  qed
  show "client_deadline (newHTTPClient (word_of_int (2 ^ 55))) = None"
    by (simp add: newHTTPClient_def minHTTPTimeoutSecs_def client_deadline_def)
qed

theorem client_timeout_witness:
  "client_deadline (newHTTPClient (word_of_int (GlobalHTTPClientTimeoutSecs default_config))) = Some 30000000000"
  using client_timeout [of "word_of_int (GlobalHTTPClientTimeoutSecs default_config)"] by (simp add: default_config_def)

section \<open>The database connection\<close>

text \<open>\<open>dc_temp_file\<close> writes a text into a new temporary file and gives its name, \<open>dc_open\<close> connects; \<open>None\<close> and a text are errors.\<close>

record connector =
  dc_temp_file :: "string \<Rightarrow> string option"
  dc_open :: "string \<Rightarrow> string option"

datatype 'a start_result = Started 'a | ProcessExits

text \<open>Both failures end the process.\<close>

definition CreateCACertFile :: "connector \<Rightarrow> string \<Rightarrow> string start_result" where
  "CreateCACertFile c certString =
     (case dc_temp_file c certString of None \<Rightarrow> ProcessExits | Some name \<Rightarrow> Started name)"

definition dsn_of :: "config \<Rightarrow> string" where
  "dsn_of cfg =
     ''user='' @ DBUser cfg @ '' password='' @ DBPassword cfg @ '' dbname='' @ DBName cfg @ '' host='' @ DBHost cfg
       @ '' port='' @ DBPort cfg @ '' sslmode='' @ DBssl cfg"

text \<open>The connection is known by the text it was opened with.\<close>

definition initDB :: "config \<Rightarrow> connector \<Rightarrow> string start_result" where
  "initDB cfg c =
     (let connect = (\<lambda>dsn. case dc_open c dsn of Some err \<Rightarrow> ProcessExits | None \<Rightarrow> Started dsn)
      in if DBssl cfg \<noteq> ''disable'' then
           (case CreateCACertFile c (DBCACert cfg) of
              ProcessExits \<Rightarrow> ProcessExits
            | Started rdsCA \<Rightarrow> connect (dsn_of cfg @ '' '' @ '' sslrootcert='' @ rdsCA))
         else connect (dsn_of cfg))"

definition GetDB :: "config \<Rightarrow> connector \<Rightarrow> string option \<Rightarrow> string start_result" where
  "GetDB cfg c db = (case db of None \<Rightarrow> initDB cfg c | Some d \<Rightarrow> Started d)"

definition migrate_url :: "config \<Rightarrow> string \<Rightarrow> string" where
  "migrate_url cfg rdsCA =
     ''postgres://'' @ DBUser cfg @ '':'' @ DBPassword cfg @ ''@'' @ DBHost cfg @ '':'' @ DBPort cfg @ ''/'' @ DBName cfg
       @ ''?sslmode='' @ DBssl cfg @ ''&sslrootcert='' @ rdsCA"

text \<open>The instance is known by its URL.\<close>

definition getMigrateInstance :: "config \<Rightarrow> connector \<Rightarrow> string start_result" where
  "getMigrateInstance cfg c =
     (case CreateCACertFile c (DBCACert cfg) of
        ProcessExits \<Rightarrow> ProcessExits
      | Started rdsCA \<Rightarrow>
          (let url = migrate_url cfg rdsCA in case dc_open c url of Some err \<Rightarrow> ProcessExits | None \<Rightarrow> Started url))"

text \<open>The outcome of a command of the migrations: what is done with which instance.\<close>

datatype migration = AllUp | AllDown | Steps int | ShowVersion

definition migrateUp :: "config \<Rightarrow> connector \<Rightarrow> (string \<times> migration) start_result" where
  "migrateUp cfg c = (case getMigrateInstance cfg c of ProcessExits \<Rightarrow> ProcessExits | Started m \<Rightarrow> Started (m, AllUp))"

definition migratedown :: "config \<Rightarrow> connector \<Rightarrow> bool \<Rightarrow> (string \<times> migration) start_result" where
  "migratedown cfg c all_flag =
     (case getMigrateInstance cfg c of
        ProcessExits \<Rightarrow> ProcessExits
      | Started m \<Rightarrow> Started (m, if all_flag then AllDown else Steps (- 1)))"

definition revision :: "config \<Rightarrow> connector \<Rightarrow> (string \<times> migration) start_result" where
  "revision cfg c = (case getMigrateInstance cfg c of ProcessExits \<Rightarrow> ProcessExits | Started m \<Rightarrow> Started (m, ShowVersion))"

section \<open>The logger\<close>

datatype log_level = DebugLevel | ErrorLevel | InfoLevel

datatype log_formatter = TextFormatter | JSONFormatter

text \<open>\<open>lg_cloudwatch\<close> are the key, the secret, the region, the group and the stream of the hook, which is added whether or not it
  could be created.\<close>

record logger =
  lg_level :: log_level
  lg_formatter :: log_formatter
  lg_service :: string
  lg_cloudwatch :: "(string \<times> string \<times> string \<times> string \<times> string) option"

definition initLogger :: "config \<Rightarrow> logger" where
  "initLogger cfg =
     \<lparr>lg_level = (if LogLevel cfg = ''DEBUG'' then DebugLevel else if LogLevel cfg = ''ERROR'' then ErrorLevel else InfoLevel),
      lg_formatter = (if LogFormater cfg = ''text'' then TextFormatter else JSONFormatter),
      lg_service = ServiceName cfg,
      lg_cloudwatch = (if CwAccessKey cfg \<noteq> []
        then Some (CwAccessKey cfg, CwSecretKey cfg, CwRegion cfg, CwLogGroup cfg, CwLogStream cfg) else None)\<rparr>"

text \<open>The fields of an entry; \<open>WithFields\<close> keeps those it does not set.  The package's entry is replaced with the result.\<close>

datatype log_field = FText string | FNumber nat | FTime gotime

definition WithFields :: "(string \<times> log_field) list \<Rightarrow> (string \<times> log_field) list \<Rightarrow> (string \<times> log_field) list" where
  "WithFields added entry = fold (\<lambda>(k, v). AList.update k v) added entry"

definition Set_request_details :: "KafkaMsg \<Rightarrow> (string \<times> log_field) list \<Rightarrow> (string \<times> log_field) list" where
  "Set_request_details d =
     WithFields [(''request_id'', FText (rp_request_id d)), (''account'', FText (rp_account d)), (''org_id'', FText (rp_org_id d)),
       (''source_id'', FText (rp_source_id d)), (''cluster_uuid'', FText (rp_cluster_uuid d)), (''cluster_alias'', FText (rp_cluster_alias d))]"

definition Set_request_details_recommendations ::
  "RecommendationKafkaMsg \<Rightarrow> (string \<times> log_field) list \<Rightarrow> (string \<times> log_field) list" where
  "Set_request_details_recommendations d =
     WithFields [(''request_id'', FText (km_request_id d)), (''org_id'', FText (md_org_id (km_metadata d))),
       (''workload_id'', FNumber (md_workload_id (km_metadata d))),
       (''max_endtime_report'', FTime (md_max_endtime_report (km_metadata d))),
       (''experiment_name'', FText (md_experiment_name (km_metadata d)))]"

text \<open>Nothing of an earlier message is left in the entries of a later one.\<close>

lemma later_details: "map_of (Set_request_details d2 (Set_request_details d1 entry)) = map_of (Set_request_details d2 entry)"
  by (rule ext) (simp add: Set_request_details_def WithFields_def update_conv')

lemma later_details_recommendations:
  "map_of (Set_request_details_recommendations d2 (Set_request_details_recommendations d1 entry))
   = map_of (Set_request_details_recommendations d2 entry)"
  by (rule ext) (simp add: Set_request_details_recommendations_def WithFields_def update_conv')

text \<open>Outside clowder no log entry is sent to Cloudwatch, whatever the environment says.\<close>

lemma local_logs_stay:
  assumes "viper_ok V env" "initConfig V None = ConfigReady cfg"
  shows "lg_cloudwatch (initLogger cfg) = None"
  using clowder_only_ignored [OF assms] by (simp add: initLogger_def)

section \<open>Workload types\<close>

text \<open>\<open>Scan\<close>: what the database driver hands over is NULL, a text, or something else.\<close>

datatype driver_value = DNull | DText string | DOther string

definition Scan :: "driver_value \<Rightarrow> string + string" where
  "Scan v =
     (case v of
        DNull \<Rightarrow> Inr []
      | DText s \<Rightarrow> Inr s
      | DOther ty \<Rightarrow> Inl (''WorkloadType.Scan: expected string, got '' @ ty))"

definition Value :: "string \<Rightarrow> driver_value" where
  "Value p = DText p"

definition workload_types :: "string list" where
  "workload_types =
     [''daemonset'', ''deployment'', ''deploymentconfig'', ''replicaset'', ''replicationcontroller'', ''statefulset'', ''namespace'']"

definition type_string :: "string \<Rightarrow> string" where
  "type_string p = (if p \<in> set workload_types then p else ''unknown'')"

lemma Scan_Value: "Scan (Value p) = Inr p"
  by (simp add: Scan_def Value_def)

text \<open>The types of the aggregation (theory Aggregator) are the workload types but the namespace's.\<close>

lemma supported_are_types: "set workload_types = insert ''namespace'' (set supported_workload_types)"
  by (auto simp: workload_types_def supported_workload_types_def)

section \<open>The aggregator command\<close>

text \<open>\<open>fi_missing\<close> is \<open>os.IsNotExist\<close> of \<open>os.Stat\<close>, \<open>fi_read\<close> opens a CSV file and reads its records, \<open>fi_write\<close> creates a file and
  writes a frame; a text is an error.  The second part of \<open>fi_write\<close>'s error says whether the file had been created.\<close>

record files =
  fi_missing :: "string \<Rightarrow> bool"
  fi_make_dir :: "string \<Rightarrow> string option"
  fi_cwd :: string
  fi_read :: "string \<Rightarrow> string + string list list"
  fi_write :: "string \<Rightarrow> frame \<Rightarrow> (string \<times> bool) option"

definition output_dir :: "files \<Rightarrow> string \<Rightarrow> string + string" where
  "output_dir f outputDir =
     (if outputDir \<noteq> [] then
        (if fi_missing f outputDir then (case fi_make_dir f outputDir of Some err \<Rightarrow> Inl err | None \<Rightarrow> Inr outputDir)
         else Inr outputDir)
      else Inr (fi_cwd f))"

text \<open>The result is the file written and its frame.  When writing into the created file fails the code panics with the message of
  another error, which is nil.\<close>

definition aggregatorCmd :: "files \<Rightarrow> gota \<Rightarrow> (string \<Rightarrow> string) \<Rightarrow> string \<Rightarrow> string \<Rightarrow> (string \<times> frame) prog" where
  "aggregatorCmd f g uni outputDir input_file =
     (if fi_missing f input_file then stop OsExit
      else
        (case output_dir f outputDir of
           Inl err \<Rightarrow> stop (GoPanic err)
         | Inr dir \<Rightarrow>
             (let outputFile = dir @ ''/output.csv'' in
              case fi_read f input_file of
                Inl err \<Rightarrow> stop (GoPanic err)
              | Inr records \<Rightarrow>
                  (let csvType = DetermineCSVType input_file in
                   andthen (Aggregate_data g uni csvType (g_load g (GetColumnMapping csvType) records)) (\<lambda>aggregated.
                     case aggregated of
                       Inl err \<Rightarrow> stop (GoPanic err)
                     | Inr df \<Rightarrow>
                         (case fi_write f outputFile df of
                            None \<Rightarrow> ret (outputFile, df)
                          | Some (err, created) \<Rightarrow> stop (GoPanic (if created then ''nil pointer dereference'' else err))))))))"

text \<open>The command writes one file, with the frame that the aggregation has for the records of the input; and a failure to write it is
  reported as something else.\<close>

lemma aggregator_writes:
  "sat (aggregatorCmd f g uni outputDir file1) h (\<lambda>r es. \<forall>out df. r = Done (out, df) \<longrightarrow>
     (\<exists>records dir. fi_read f file1 = Inr records \<and> output_dir f outputDir = Inr dir \<and> out = dir @ ''/output.csv''
        \<and> fi_write f out df = None
        \<and> Aggregate_data g uni (DetermineCSVType file1) (g_load g (GetColumnMapping (DetermineCSVType file1)) records) h = (Done (Inr df), es)))"
proof -
  have "sat (andthen p (\<lambda>aggregated. case aggregated of Inl err \<Rightarrow> stop (GoPanic err)
      | Inr df \<Rightarrow> (case fi_write f out df of None \<Rightarrow> ret (out, df) | Some (err, created) \<Rightarrow> stop (c err created)))) h
    (\<lambda>r es. \<forall>out' df. r = Done (out', df) \<longrightarrow> out' = out \<and> fi_write f out df = None \<and> p h = (Done (Inr df), es))" for p c out
    unfolding sat_andthen by (rule sat_mono [OF sat_run]) (auto simp: sat_rules split: result.split sum.split option.split)
  note run = this
  show ?thesis
    by (auto simp: aggregatorCmd_def Let_def sat_rules(2) split: sum.split intro!: sat_mono [OF run])
qed

lemma write_error_hidden:
  assumes "\<not> fi_missing f file1" "output_dir f outputDir = Inr dir" "fi_read f file1 = Inr records"
    and "Aggregate_data g uni (DetermineCSVType file1) (g_load g (GetColumnMapping (DetermineCSVType file1)) records) h = (Done (Inr df), es)"
    and "fi_write f (dir @ ''/output.csv'') df = Some (err, True)"
  shows "aggregatorCmd f g uni outputDir file1 h = (Crashed (GoPanic ''nil pointer dereference''), es)"
  using assms by (simp add: aggregatorCmd_def Let_def andthen_def stop_def)

end
