(* ===== verification/Seed.thy ===== *)
theory Seed
  imports Store RecommendationJson
begin

text \<open>
  \<open>cmd/db.go\<close>: the command \<open>apiseedtest\<close>, which fills a database for trying out the API.  A table is the list of its rows in the
  order of their primary keys; encoding a document and gorm's \<open>FirstOrCreate\<close> are parameters, and \<open>orm_ok\<close> is what gorm
  documents: the first row that meets the conditions put on the query, whatever the struct holds, or else a new row.
\<close>

section \<open>The documents\<close>

definition num :: "rat \<Rightarrow> json" where
  "num q = JNum (f64_const q)"

text \<open>\<open>{"amount": .., "format": ..}\<close>, and a section of cpu and memory.\<close>

definition quantity :: "rat \<Rightarrow> string \<Rightarrow> json" where
  "quantity q fmt = JObj [(''amount'', num q), (''format'', JStr fmt)]"

definition amounts :: "json \<Rightarrow> json \<Rightarrow> json" where
  "amounts cpu memory = JObj [(''cpu'', cpu), (''memory'', memory)]"

definition no_data_term :: json where
  "no_data_term = JObj
     [(''config'', JObj [(''limits'', amounts (JObj []) (JObj [])), (''requests'', amounts (JObj []) (JObj []))]),
      (''notifications'', JArr [JObj [(''type'', JStr ''info''),
         (''message'', JStr ''There is not enough data available to generate a recommendation.'')]]),
      (''monitoring_end_time'', JStr ''0001-01-01T00:00:00Z''), (''monitoring_start_time'', JStr ''0001-01-01T00:00:00Z'')]"

definition recommendationSetData1 :: obj where
  "recommendationSetData1 =
     [(''duration_based'', JObj
        [(''long_term'', no_data_term),
         (''short_term'', JObj
           [(''config'', JObj
              [(''limits'', amounts (quantity (6 / 100) ''cores'') (quantity 513900544 ''bytes'')),
               (''requests'', amounts (quantity (5 / 100) ''cores'') (quantity (49331153755 / 100) ''bytes''))]),
            (''duration_in_hours'', num (23333333333333334 / 10 ^ 17)),
            (''monitoring_end_time'', JStr ''2023-04-02T00:15:00Z''), (''monitoring_start_time'', JStr ''2023-04-01T00:15:00Z'')]),
         (''medium_term'', no_data_term)]),
      (''workload'', JStr ''servers''), (''workload_type'', JStr ''deployment'')]"

definition recommendationSetData2 :: obj where
  "recommendationSetData2 =
     [(''duration_based'', JObj
        [(''long_term'', no_data_term),
         (''short_term'', JObj
           [(''variation'', JObj
              [(''limits'', amounts (quantity (6 / 100) ''cores'') (quantity 513900544 ''bytes'')),
               (''requests'', amounts (quantity (578933223234234234 / 10 ^ 18) ''cores'') (quantity 493311537868 ''bytes''))]),
            (''config'', JObj
              [(''limits'', amounts (quantity (53678942352345234523424 / 10 ^ 22) ''cores'') (quantity 513900544 ''bytes'')),
               (''requests'', amounts (quantity (470 / 100) ''cores'') (quantity (49331153755 / 100) ''bytes''))]),
            (''duration_in_hours'', num (23333333333333334 / 10 ^ 17)),
            (''monitoring_end_time'', JStr ''2023-04-02T00:15:00Z''), (''monitoring_start_time'', JStr ''2023-04-01T00:15:00Z'')]),
         (''medium_term'', no_data_term)]),
      (''workload'', JStr ''servers''), (''workload_type'', JStr ''replicaset'')]"

section \<open>The rows\<close>

type_synonym 'r table = "(nat \<times> 'r) list"

type_synonym 'r finder = "('r \<Rightarrow> bool) \<Rightarrow> 'r \<Rightarrow> 'r table \<Rightarrow> (nat \<times> 'r) \<times> 'r table"

text \<open>The result is the row the struct then holds with its key, 0 when it could not be created, and the table.\<close>

record orm =
  foc_account :: "RHAccount finder"
  foc_cluster :: "Cluster finder"
  foc_workload :: "Workload finder"
  foc_set :: "RecommendationSet finder"

record seed_db =
  sd_accounts :: "RHAccount table"
  sd_clusters :: "Cluster table"
  sd_workloads :: "Workload table"
  sd_sets :: "RecommendationSet table"

text \<open>\<open>time.Now().Add(-time.Hour * n)\<close>\<close>

definition hours_ago :: "gotime \<Rightarrow> int \<Rightarrow> gotime" where
  "hours_ago now n = now\<lparr>t_ns := t_ns now - n * 3600 * 10 ^ 9\<rparr>"

definition rhAccount1 :: RHAccount where
  "rhAccount1 = \<lparr>ac_account = ''2234'', ac_org_id = ''3340851''\<rparr>"

definition rhAccount2 :: RHAccount where
  "rhAccount2 = \<lparr>ac_account = ''22'', ac_org_id = ''foo_org2''\<rparr>"

definition seed_cluster :: "nat \<Rightarrow> string \<Rightarrow> string \<Rightarrow> gotime \<Rightarrow> Cluster" where
  "seed_cluster tenant uuid alias t =
     \<lparr>cl_tenant_id = tenant, cl_source_id = [], cl_uuid = uuid, cl_alias = alias, cl_last_reported = t\<rparr>"

definition seed_workload :: "nat \<Rightarrow> string \<Rightarrow> string \<Rightarrow> string \<Rightarrow> string \<Rightarrow> string list \<Rightarrow> Workload" where
  "seed_workload cluster experiment namespace ty name containers =
     \<lparr>wl_org_id = [], wl_cluster_id = cluster, wl_experiment_name = experiment, wl_namespace = namespace, wl_type = ty,
      wl_name = name, wl_containers = containers, wl_metrics_upload_at = go_zero_time\<rparr>"

definition seed_set :: "gotime \<Rightarrow> nat \<Rightarrow> string \<Rightarrow> gotime \<Rightarrow> gotime \<Rightarrow> string \<Rightarrow> RecommendationSet" where
  "seed_set now workload container st en json_text =
     \<lparr>rset_workload_id = workload, rset_container = container,
      rset_columns = \<lparr>CPURequestCurrent = None, MemoryRequestCurrent = None, cv_variations = no_pcts\<rparr>,
      rset_start = st, rset_end = en, rset_recommendations = json_text, rset_updated_at = now\<rparr>"

text \<open>Structs given to \<open>Where\<close> compare their non-zero fields.  A document that cannot be encoded is an empty text, and an empty text
  is no condition.\<close>

definition has_text :: "string \<Rightarrow> RecommendationSet \<Rightarrow> bool" where
  "has_text t r = (t = [] \<or> rset_recommendations r = t)"

definition encoded :: "(obj \<Rightarrow> string option) \<Rightarrow> obj \<Rightarrow> string" where
  "encoded enc d = (case enc d of None \<Rightarrow> [] | Some t \<Rightarrow> t)"

definition seed_rows :: "orm \<Rightarrow> gotime \<Rightarrow> seed_db \<Rightarrow> (nat \<times> nat \<times> nat) \<times> seed_db" where
  "seed_rows o1 now db =
     (let (acc1, accounts) = foc_account o1 (\<lambda>_. True) rhAccount1 (sd_accounts db);
          (acc2, accounts) = foc_account o1 (\<lambda>_. True) rhAccount2 accounts;
          (cluster1, clusters) = foc_cluster o1 (\<lambda>_. True)
            (seed_cluster (fst acc1) ''db7cb483-b890-45c2-a803-d99a17eee205'' ''FooAlias'' (hours_ago now 3)) (sd_clusters db);
          (cluster2, clusters) = foc_cluster o1 (\<lambda>c. cl_alias c = ''BarAlias'')
            (seed_cluster (fst acc1) ''57e83fd6-9e4c-4de2-bb2b-24f543a4a600'' ''BarAlias'' (hours_ago now 2)) clusters;
          (workload1, workloads) = foc_workload o1 (\<lambda>wl. wl_namespace wl = ''a_proj_rxu'')
            (seed_workload (fst cluster1) ''exfoo'' ''a_proj_rxu'' ''replicaset'' ''replicaset_proj_rxu'' [''node'', ''postgres'', ''apache''])
            (sd_workloads db);
          (workload2, workloads) = foc_workload o1 (\<lambda>wl. wl_type wl = ''statefulset'')
            (seed_workload (fst cluster1) ''exbar'' ''b_proj_rxu'' ''statefulset'' ''stateful_proj_rxu'' [''redis'', ''nginx'']) workloads;
          (workload3, workloads) = foc_workload o1 (\<lambda>wl. wl_type wl = ''deployment'')
            (seed_workload (fst cluster2) ''exapp'' ''c_proj_rxu'' ''deployment'' ''deployment_proj_rxu'' [''node'', ''postgres'', ''apache''])
            workloads
      in ((fst workload1, fst workload2, fst workload3),
          db\<lparr>sd_accounts := accounts, sd_clusters := clusters, sd_workloads := workloads\<rparr>))"

text \<open>No error is looked at, neither of encoding nor of creating.\<close>

definition seedCmd :: "orm \<Rightarrow> (obj \<Rightarrow> string option) \<Rightarrow> gotime \<Rightarrow> seed_db \<Rightarrow> seed_db" where
  "seedCmd o1 enc now db =
     (let ((workload1, workload2, workload3), db) = seed_rows o1 now db;
          text1 = encoded enc recommendationSetData1;
          text2 = encoded enc recommendationSetData2;
          sets = snd (foc_set o1 (has_text text1) (seed_set now workload1 ''postgres'' (hours_ago now 3) (hours_ago now 2) text1) (sd_sets db));
          sets = snd (foc_set o1 (has_text text2) (seed_set now workload1 ''postgres'' (hours_ago now 2) (hours_ago now 1) text2) sets);
          sets = snd (foc_set o1 (\<lambda>r. rset_container r = ''hadoop'')
            (seed_set now workload1 ''hadoop'' (hours_ago now 3) (hours_ago now 2) text2) sets);
          sets = snd (foc_set o1 (\<lambda>r. rset_container r = ''nginx'')
            (seed_set now workload2 ''nginx'' (hours_ago now 3) (hours_ago now 2) text2) sets);
          sets = snd (foc_set o1 (\<lambda>r. rset_container r = ''redis'')
            (seed_set now workload3 ''redis'' (hours_ago now 3) (hours_ago now 2) text2) sets)
      in db\<lparr>sd_sets := sets\<rparr>)"

section \<open>What gorm promises\<close>

definition create_row :: "(nat list \<Rightarrow> nat) \<Rightarrow> ('r \<Rightarrow> 'k) \<Rightarrow> 'r \<Rightarrow> 'r table \<Rightarrow> (nat \<times> 'r) \<times> 'r table" where
  "create_row fresh key row t =
     (if list_ex (\<lambda>p. key (snd p) = key row) t then ((0, row), t)
      else ((fresh (map fst t), row), t @ [(fresh (map fst t), row)]))"

definition find_or_create :: "(nat list \<Rightarrow> nat) \<Rightarrow> ('r \<Rightarrow> 'k) \<Rightarrow> 'r finder" where
  "find_or_create fresh key cond row t =
     (case List.find (\<lambda>p. cond (snd p)) t of Some p \<Rightarrow> (p, t) | None \<Rightarrow> create_row fresh key row t)"

definition orm_ok :: "orm \<Rightarrow> (nat list \<Rightarrow> nat) \<Rightarrow> bool" where
  "orm_ok o1 fresh =
     (foc_account o1 = find_or_create fresh ac_org_id \<and> foc_cluster o1 = find_or_create fresh cluster_key
      \<and> foc_workload o1 = find_or_create fresh workload_key \<and> foc_set o1 = find_or_create fresh set_key)"

section \<open>What is seeded\<close>

lemma find_or_create_Nil: "find_or_create fresh key cond row [] = ((fresh [], row), [(fresh [], row)])"
  by (simp add: find_or_create_def create_row_def)

lemma find_or_create_found: "List.find (\<lambda>p. cond (snd p)) t = Some p \<Longrightarrow> find_or_create fresh key cond row t = (p, t)"
  by (simp add: find_or_create_def)

lemmas finding = find_or_create_def create_row_def

definition empty_db :: seed_db where
  "empty_db = \<lparr>sd_accounts = [], sd_clusters = [], sd_workloads = [], sd_sets = []\<rparr>"

lemma seed_row_simps [simp]:
  "cl_alias (seed_cluster i u a t) = a" "cluster_key (seed_cluster i u a t) = (i, [], u, a)"
  "wl_namespace (seed_workload i e n ty nm cs) = n" "wl_type (seed_workload i e n ty nm cs) = ty"
  "workload_key (seed_workload i e n ty nm cs) = ([], i, e)"
  by (simp_all add: seed_cluster_def seed_workload_def cluster_key_def workload_key_def)

text \<open>The rows but the recommendation sets, for the keys given out.\<close>

definition seeded_rows :: "nat \<Rightarrow> nat \<Rightarrow> nat \<Rightarrow> nat \<Rightarrow> nat \<Rightarrow> nat \<Rightarrow> gotime \<Rightarrow> seed_db" where
  "seeded_rows a c1 c2 w1 w2 w3 now =
    \<lparr>sd_accounts = [(a, rhAccount1)],
     sd_clusters = [(c1, seed_cluster a ''db7cb483-b890-45c2-a803-d99a17eee205'' ''FooAlias'' (hours_ago now 3)),
       (c2, seed_cluster a ''57e83fd6-9e4c-4de2-bb2b-24f543a4a600'' ''BarAlias'' (hours_ago now 2))],
     sd_workloads = [(w1, seed_workload c1 ''exfoo'' ''a_proj_rxu'' ''replicaset'' ''replicaset_proj_rxu'' [''node'', ''postgres'', ''apache'']),
       (w2, seed_workload c1 ''exbar'' ''b_proj_rxu'' ''statefulset'' ''stateful_proj_rxu'' [''redis'', ''nginx'']),
       (w3, seed_workload c2 ''exapp'' ''c_proj_rxu'' ''deployment'' ''deployment_proj_rxu'' [''node'', ''postgres'', ''apache''])],
     sd_sets = []\<rparr>"

lemma seed_rows_empty:
  assumes "orm_ok o1 fresh"
  shows "\<exists>c1 c2 w1 w2 w3. seed_rows o1 now empty_db = ((w1, w2, w3), seeded_rows (fresh []) c1 c2 w1 w2 w3 now)"
proof (intro exI)
  show "seed_rows o1 now empty_db = ((fresh [], fresh [fresh []], fresh [fresh [], fresh [fresh []]]),
      seeded_rows (fresh []) (fresh []) (fresh [fresh []]) (fresh []) (fresh [fresh []]) (fresh [fresh [], fresh [fresh []]]) now)"
    using assms by (simp add: seed_rows_def orm_ok_def finding empty_db_def seeded_rows_def)
qed

lemma seed_rows_again:
  assumes "orm_ok o1 fresh"
  shows "seed_rows o1 now' (seeded_rows a c1 c2 w1 w2 w3 now\<lparr>sd_sets := sets\<rparr>)
    = ((w1, w2, w3), seeded_rows a c1 c2 w1 w2 w3 now\<lparr>sd_sets := sets\<rparr>)"
  using assms by (simp add: seed_rows_def orm_ok_def finding seeded_rows_def)

text \<open>The sets seeded for three workloads, and what a second seeding finds.\<close>

definition seeded_sets :: "string \<Rightarrow> string \<Rightarrow> (string \<times> string) list" where
  "seeded_sets text1 text2 = [(''postgres'', text1), (''hadoop'', text2), (''nginx'', text2), (''redis'', text2)]"

definition shown_set :: "nat \<times> RecommendationSet \<Rightarrow> string \<times> string" where
  "shown_set p = (rset_container (snd p), rset_recommendations (snd p))"

lemma shown_seed_set [simp]: "shown_set (i, seed_set now wl c st en t) = (c, t)"
  by (simp add: shown_set_def seed_set_def)

lemma seed_set_simps [simp]:
  "rset_container (seed_set now wl c st en t) = c" "rset_recommendations (seed_set now wl c st en t) = t" "set_key (seed_set now wl c st en t) = (wl, c)"
  by (simp_all add: seed_set_def set_key_def)

text \<open>Seeding an empty database creates one of the two accounts, because a search without a condition finds the first row, and four
  of the five recommendation sets, because two are for the same container; seeding it again changes nothing.\<close>

theorem seeding:
  assumes "orm_ok o1 fresh" "enc recommendationSetData1 = Some text1" "enc recommendationSetData2 = Some text2"
    and "text1 \<noteq> []" "text2 \<noteq> []" "text1 \<noteq> text2" "db = seedCmd o1 enc now empty_db"
  shows "map snd (sd_accounts db) = [rhAccount1] \<and> length (sd_clusters db) = 2 \<and> length (sd_workloads db) = 3
    \<and> map shown_set (sd_sets db) = seeded_sets text1 text2 \<and> seedCmd o1 enc now' db = db"
proof -
  from seed_rows_empty [OF assms(1), of now] obtain c1 c2 w1 w2 w3 where
    rows: "seed_rows o1 now empty_db = ((w1, w2, w3), seeded_rows (fresh []) c1 c2 w1 w2 w3 now)" (is "_ = (_, ?db1)") by blast
  have db1: "map snd (sd_accounts ?db1) = [rhAccount1]" "length (sd_clusters ?db1) = 2"
      "length (sd_workloads ?db1) = 3" "sd_sets ?db1 = []" by (simp_all add: seeded_rows_def)
  have foc: "foc_set o1 = find_or_create fresh set_key" using assms(1) by (simp add: orm_ok_def)
  have enc: "encoded enc recommendationSetData1 = text1" "encoded enc recommendationSetData2 = text2"
    using assms(2,3) by (simp_all add: encoded_def)
  define sets where "sets = sd_sets db"
  have db: "db = ?db1\<lparr>sd_sets := sets\<rparr>" unfolding sets_def assms(7) by (simp add: seedCmd_def rows Let_def)
  have s: "sets = sd_sets (seedCmd o1 enc now empty_db)" by (simp add: sets_def assms(7))
  have "map shown_set sets = seeded_sets text1 text2"
    using assms(4-6) unfolding s by (simp add: seedCmd_def rows db1(4) enc Let_def foc finding has_text_def seeded_sets_def)
  moreover have "seedCmd o1 enc now' db = db" if "map shown_set sets = seeded_sets text1 text2"
  proof -
    from that obtain p1 p2 p3 p4 where p: "sets = [p1, p2, p3, p4]" "shown_set p1 = (''postgres'', text1)" "shown_set p2 = (''hadoop'', text2)"
        "shown_set p3 = (''nginx'', text2)" "shown_set p4 = (''redis'', text2)"
      by (auto simp: seeded_sets_def map_eq_Cons_conv)
    show ?thesis unfolding db using p(2-) assms(4-6)
      by (simp add: seedCmd_def seed_rows_again [OF assms(1)] enc Let_def foc p(1) finding has_text_def shown_set_def)
  qed
  ultimately show ?thesis using db1 by (simp add: db)
qed

definition example_orm :: orm where
  "example_orm = \<lparr>foc_account = find_or_create (\<lambda>is. Suc (length is)) ac_org_id,
     foc_cluster = find_or_create (\<lambda>is. Suc (length is)) cluster_key,
     foc_workload = find_or_create (\<lambda>is. Suc (length is)) workload_key, foc_set = find_or_create (\<lambda>is. Suc (length is)) set_key\<rparr>"

theorem seeding_witness:
  "\<exists>db. db = seedCmd example_orm (\<lambda>d. Some (if jget ''workload_type'' d = JStr ''deployment'' then ''one'' else ''two'')) go_zero_time empty_db
     \<and> map snd (sd_accounts db) = [rhAccount1] \<and> map shown_set (sd_sets db) = seeded_sets ''one'' ''two''"
proof -
  have "orm_ok example_orm (\<lambda>is. Suc (length is))" by (simp add: orm_ok_def example_orm_def)
  from seeding [OF this, of "\<lambda>d. Some (if jget ''workload_type'' d = JStr ''deployment'' then ''one'' else ''two'')" "''one''" "''two''"]
  show ?thesis by (simp add: recommendationSetData1_def recommendationSetData2_def jget_def)
qed

text \<open>The seeded documents are of an older form: without terms the API shows them as they are, whatever units are asked for.\<close>

lemma on_obj_absent: "jget k m = JNull \<Longrightarrow> on_obj k f m = m"
  by (simp add: on_obj_def)

lemma old_form_untouched:
  assumes "jget ''current'' d = JNull" "jget ''recommendation_terms'' d = JNull" "jget ''notifications'' d = JNull"
  shows "UpdateRecommendationJSON handlerName u k8s (Some d) pcts = ApiJson d"
proof -
  have "injectStoredRequestVariationPct d p = d" for p
  proof -
    have "fold (inject_spec p) ss d = d" for ss
      by (induction ss) (simp_all add: inject_spec_def on_obj_absent [OF assms(2)])
    then show ?thesis by (simp add: injectStoredRequestVariationPct_def)
  qed
  with assms show ?thesis
    by (auto simp: UpdateRecommendationJSON_def transformComponentUnits_def dropBoxPlotsObject_def filterNotifications_def
        convertVariationToPercentage_def on_terms_def on_obj_absent deleteNotificationObject_def term_panics_def sub_def Let_def
        split: option.split)
qed

lemma seeded_documents_untouched:
  "UpdateRecommendationJSON handlerName u k8s (Some recommendationSetData1) pcts = ApiJson recommendationSetData1"
  "UpdateRecommendationJSON handlerName u k8s (Some recommendationSetData2) pcts = ApiJson recommendationSetData2"
  by (rule old_form_untouched; simp add: recommendationSetData1_def recommendationSetData2_def jget_def)+

end
