(* ===== verification/Utilities.thy ===== *)
theory Utilities
  imports Float64 Effects
begin

text \<open>
  Small parts beside the services: the two helpers of \<open>internal/utils/utils.go\<close> that nothing calls, the hooks that gorm runs on the rows
  it has found (\<open>internal/model\<close>), and handing the settings to the feature flag client (\<open>internal/featureflags/client.go\<close>).
\<close>

section \<open>Without repetitions\<close>

text \<open>\<open>unique\<close> is generic in its element type; \<open>eq\<close> is the type's \<open>==\<close>, by which a map finds its keys.  The keys seen so far are carried
  along.\<close>

fun unique_loop :: "('a \<Rightarrow> 'a \<Rightarrow> bool) \<Rightarrow> 'a list \<Rightarrow> 'a list \<Rightarrow> 'a list" where
  "unique_loop eq keys [] = []"
| "unique_loop eq keys (entry # x) =
     (if list_ex (eq entry) keys then unique_loop eq keys x else entry # unique_loop eq (entry # keys) x)"

definition unique :: "('a \<Rightarrow> 'a \<Rightarrow> bool) \<Rightarrow> 'a list \<Rightarrow> 'a list" where
  "unique eq x = unique_loop eq [] x"

lemma unique_loop_props:
  "set (unique_loop (=) keys x) = set x - set keys \<and> distinct (unique_loop (=) keys x)"
  by (induction "(=) :: 'a \<Rightarrow> 'a \<Rightarrow> bool" keys x rule: unique_loop.induct) (auto simp: list_ex_iff)

text \<open>Numbers and texts are kept once each.  A NaN differs from itself, so it is never found among the keys.\<close>

lemma unique_props: "set (unique (=) x) = set x" "distinct (unique (=) x)"
  using unique_loop_props [of "[]" x] by (simp_all add: unique_def)

lemma unique_nan: "unique f64_eq (replicate n NaN) = replicate n NaN"
proof -
  have nan: "unique_loop f64_eq keys (replicate n NaN) = replicate n NaN" for keys
    by (induction n arbitrary: keys) (auto simp: list_ex_iff)
  show ?thesis by (simp add: unique_def nan)
qed

section \<open>Tables of text\<close>

datatype cell_value = CellNumber f64 | CellText string

text \<open>\<open>parse\<close> is \<open>strconv.ParseFloat\<close>, \<open>None\<close> for an error.  The first row names the columns; a later value of a repeated name
  overwrites the one before.  A row that is shorter than the first ends in a panic, \<open>None\<close>.\<close>

definition cell_of :: "(string \<Rightarrow> f64 option) \<Rightarrow> string \<Rightarrow> cell_value" where
  "cell_of parse s = (case parse s of Some metric \<Rightarrow> CellNumber metric | None \<Rightarrow> CellText s)"

fun row_map :: "(string \<Rightarrow> f64 option) \<Rightarrow> string list \<Rightarrow> string list \<Rightarrow> (string \<rightharpoonup> cell_value) \<Rightarrow> (string \<rightharpoonup> cell_value) option" where
  "row_map parse [] row m = Some m"
| "row_map parse (h # hs) [] m = None"
| "row_map parse (h # hs) (v # row) m = row_map parse hs row (m(h \<mapsto> cell_of parse v))"

fun rows_map :: "(string \<Rightarrow> f64 option) \<Rightarrow> string list \<Rightarrow> string list list \<Rightarrow> (string \<rightharpoonup> cell_value) list option" where
  "rows_map parse header [] = Some []"
| "rows_map parse header (row # rows) =
     (case row_map parse header row Map.empty of
        None \<Rightarrow> None
      | Some m \<Rightarrow> map_option ((#) m) (rows_map parse header rows))"

definition Convert2DarrayToMap :: "(string \<Rightarrow> f64 option) \<Rightarrow> string list list \<Rightarrow> (string \<rightharpoonup> cell_value) list option" where
  "Convert2DarrayToMap parse arr = (case arr of [] \<Rightarrow> Some [] | header # rows \<Rightarrow> rows_map parse header rows)"

lemma row_map_some_iff: "(row_map parse hs row m \<noteq> None) = (length hs \<le> length row)"
proof (induction hs arbitrary: row m)
  case (Cons h hs)
  note ih = this
  show ?case
  proof (cases row)
    case (Cons v row')
    show ?thesis using ih [of row' "m(h \<mapsto> cell_of parse v)"] by (simp only: Cons row_map.simps list.size add_le_cancel_right)
  qed simp
qed simp

lemma row_map_lookup:
  "distinct hs \<Longrightarrow> row_map parse hs row m = Some m' \<Longrightarrow>
    (\<forall>j < length hs. m' (hs ! j) = Some (cell_of parse (row ! j))) \<and> (\<forall>k. k \<notin> set hs \<longrightarrow> m' k = m k)"
proof (induction hs arbitrary: row m)
  case (Cons h hs)
  obtain v row' where row: "row = v # row'" using Cons.prems(2) by (cases row) simp_all
  have m: "row_map parse hs row' (m(h \<mapsto> cell_of parse v)) = Some m'" using Cons.prems(2) by (simp only: row row_map.simps)
  have d: "distinct hs" using Cons.prems(1) by simp
  note ih = conjunct1 [OF Cons.IH [OF d m]] conjunct2 [OF Cons.IH [OF d m]]
  then have "m' h = Some (cell_of parse v)" using Cons.prems(1) by simp
  with ih have "m' ((h # hs) ! j) = Some (cell_of parse ((v # row') ! j))" if "j < length (h # hs)" for j
    using that by (cases j) simp_all
  with ih(2) show ?case unfolding row by simp
qed simp

text \<open>The conversion returns exactly if no row is too short, with one map per row after the first.\<close>

lemma rows_map_some_iff: "(rows_map parse header rows \<noteq> None) = list_all (\<lambda>row. length header \<le> length row) rows"
proof (induction rows)
  case (Cons row rows)
  then show ?case using row_map_some_iff [of parse header row Map.empty] by (auto split: option.split)
qed simp

lemma rows_map_length: "rows_map parse header rows = Some ms \<Longrightarrow> length ms = length rows"
  by (induction rows arbitrary: ms) (auto split: option.splits)

section \<open>Hooks of rows\<close>

text \<open>The text fields that \<open>AfterFind\<close> sets; \<open>None\<close> leaves the field as it is.\<close>

definition AfterFind_RecommendationSet :: "RecommendationSet \<Rightarrow> string" where
  "AfterFind_RecommendationSet r = fmt_rfc3339 (rset_end r)"

definition AfterFind_NamespaceRecommendationSet :: "NamespaceRecommendationSet \<Rightarrow> string" where
  "AfterFind_NamespaceRecommendationSet r = fmt_rfc3339 (nset_end r)"

definition AfterFind_Cluster :: "Cluster \<Rightarrow> string" where
  "AfterFind_Cluster c = fmt_rfc3339 (cl_last_reported c)"

definition AfterFind_Workload :: "Workload \<Rightarrow> string option" where
  "AfterFind_Workload w = (if wl_type w \<noteq> [] then Some (wl_type w) else None)"

section \<open>The feature flag client\<close>

record unleash_settings =
  un_app_name :: string
  un_url :: string
  un_headers :: "(string \<times> string list) list"
  un_refresh_ns :: int

text \<open>The error, if there is one; \<open>initialize\<close> is the library's.\<close>

definition featureflags_Init :: "(unleash_settings \<Rightarrow> string option) \<Rightarrow> config \<Rightarrow> string option" where
  "featureflags_Init initialize cfg =
     (case initialize \<lparr>un_app_name = ServiceName cfg, un_url = UnleashFullURL cfg,
             un_headers = [(''Authorization'', [UnleashClientAccessToken cfg])], un_refresh_ns = 15 * 1000000000\<rparr> of
        Some err \<Rightarrow> Some (''failed to initialize Unleash client: '' @ err)
      | None \<Rightarrow> None)"

end
