(* ===== verification/Spec2Isabelle.thy ===== *)
theory Spec2Isabelle
  imports Conversion Dates ColumnValues RecommendationView ListOptions Filters Pagination Rbac Query Payloads Store Kruize Producer Transactions Poller Housekeeper Aggregator ReportProcessor CsvExport Handlers Consumer Settings Server Routes Pipeline Services Progress Validation Provenance Commands Seed Utilities
begin

text \<open>
  A verification library for the resource optimisation backend of cost management (\<open>ros-ocp-backend\<close>, Go).

  \<^bold>\<open>The program.\<close>  Four services share one database.  The processor reads messages about uploaded reports
  (\<open>internal/services/report_processor.go\<close>): it downloads each file of a report, aggregates its rows per
  workload, creates an experiment in Kruize, sends it the usage results, stores the workload and its metrics and asks, by a
  message of its own, for a recommendation.  The poller (\<open>recommendation_poller.go\<close>) handles these requests: it fetches the
  recommendation from Kruize and stores it with the columns the API sorts by.  The API (\<open>internal/api\<close>) lists and shows the
  recommendations of the caller's organisation that the caller's permissions allow, as JSON or CSV.  The housekeeper
  (\<open>internal/services/housekeeper\<close>) deletes the data of removed sources and drops old partitions.  All are commands of one binary
  (\<open>cmd\<close>) that reads its settings from the environment or from clowder (\<open>internal/config\<close>).

  \<^bold>\<open>The theories\<close>, in the order of their imports.

  \<^item> \<open>Prelude\<close>: Go's string functions and \<open>strconv\<close>'s integers.  \<open>Float64\<close>, \<open>FormatFloat\<close>: \<open>float64\<close> as exact
    rationals with rounding to even, infinities, NaN and signed zeros, and \<open>strconv.FormatFloat(v, 'f', -1, 64)\<close> as the
    shortest decimal that rounds back.  \<open>GoTime\<close>, \<open>GoTimeText\<close>: the proleptic Gregorian calendar, \<open>time.Time\<close> as nanoseconds
    with a zone, and the layouts the program parses and prints.  \<open>Json\<close>: decoded JSON objects and updates along paths, with the
    locales \<open>wf_op\<close> and \<open>section_op\<close> for operations that keep an object well formed.
  \<^item> \<open>Conversion\<close> (\<open>internal/utils/conversion.go\<close>): the clamps, truncations and percentages.  The locale \<open>numeric_clamp\<close> states
    what a clamp promises and is interpreted for both NUMERIC columns.
  \<^item> \<open>Dates\<close> (\<open>internal/utils/utils.go\<close>): interval bounds, the latest of a column, the first-of-month rule.
  \<^item> \<open>KruizeTypes\<close>, \<open>Payloads\<close> (\<open>internal/types/kruizePayload\<close>): the payload types, the payloads built from rows and the experiment
    names; a failing type assertion of the code is a \<open>None\<close>.
  \<^item> \<open>ColumnValues\<close> (\<open>internal/model/common.go\<close>): the columns extracted from a recommendation.
  \<^item> \<open>RecommendationJson\<close>, \<open>RecommendationView\<close> (\<open>internal/api/utils.go\<close>): units, notifications, plots and percentages of a response,
    and what their composition shows.
  \<^item> \<open>ListOptions\<close>, \<open>Filters\<close>, \<open>Pagination\<close>, \<open>Rbac\<close>, \<open>Query\<close>: a request's options, its filter clauses, the links of a page, the
    permissions and the filter they become, and the read queries as records of the clauses put on a \<open>gorm.DB\<close>.
  \<^item> \<open>CsvExport\<close>, \<open>Handlers\<close>: the CSV file with \<open>encoding/csv\<close>'s quoting, and the endpoints (\<open>internal/api/handlers.go\<close>) behind the
    RBAC middleware.
  \<^item> \<open>Store\<close>: the tables as lists of rows with the conflict keys and updates of their inserts; the locale \<open>keyed_table\<close> is
    interpreted for all seven.
  \<^item> \<open>Effects\<close>: messages, settings, and programs with effects.  A program maps the history of events to a result and the events
    it adds; an event is a request with the reply it got.  The replies are functions of the history, collected in the record
    \<open>world\<close>, so every theorem holds for any behaviour of the services.  A panic, an exit and the lack of fuel are results.
    \<open>sat\<close> is the weakest precondition of a program, computed by one rule per way to build one, and \<open>only\<close> bounds its events.
  \<^item> \<open>Kruize\<close> (\<open>kruize_api.go\<close> and the performance profile of \<open>utils.go\<close>), \<open>Producer\<close> (\<open>kafka/producer.go\<close>), \<open>Transactions\<close> (the
    two transactions of the poller, with the database after a list of events; locales \<open>saving\<close> and \<open>transaction\<close>), \<open>Poller\<close>,
    \<open>Housekeeper\<close>, \<open>Aggregator\<close> (\<open>utils/aggregator.go\<close>), \<open>ReportProcessor\<close>.
  \<^item> \<open>Consumer\<close> (\<open>kafka/consumer.go\<close>): the settings and the loop as an inductive relation over offsets, around any handler.
  \<^item> \<open>Settings\<close> (\<open>config/config.go\<close>): the configuration as the list of calls made to viper, with the values read back in between.
    \<open>Server\<close> (\<open>api/middleware/identity.go\<close>, \<open>api/server.go\<close>): the identity header, base64 included, in front of the routes.
    \<open>Routes\<close> (\<open>StartAPIServer\<close>): the calls to echo in order, the table of routes they leave and the answer to a request of any path.
    \<open>Commands\<close>, \<open>Seed\<close>: what is set up once per process (HTTP client, database connection, logger), the aggregator, the migrations
    and the seeding of a test database.
  \<^item> \<open>Services\<close> (\<open>cmd/start.go\<close>): the services from their start to the consumer loop; the locales \<open>steady_handler\<close> (handlers that
    always return) and \<open>crashing_handler\<close> are interpreted for the listener and the poller.  \<open>Progress\<close>: the poller works
    off its topic while the services it calls answer.
  \<^item> \<open>Pipeline\<close>: the services together as a transition system over one history of events and the recommendation topic, in which
    programs of all services interleave, crash and repeat messages.  \<open>Validation\<close> (\<open>types/kafkaMsg.go\<close>): the validation tags, and
    that in every run of this system the requests on the topic pass them.  \<open>Provenance\<close>: the API on top of this system, with the
    joins of its queries.  The locale \<open>event_law\<close> states what a law of events must keep to hold in every interleaving; it is
    interpreted for three laws: what justifies a message or a saved recommendation, what the poller accepts, and under which
    account a workload is.
  \<^item> \<open>Utilities\<close>: helpers without a caller (\<open>utils.go\<close>), gorm's hooks on rows and the settings of the feature flag client.

  \<^bold>\<open>What is shown.\<close>  Numbers and text: stored percentages fit their columns, displayed numbers have the promised digits,
  interval bounds and CSV files read back, page links visit every page.  Requests: no text of a request becomes SQL,
  every query names the organisation, and the endpoints show exactly allowed rows.  Responses: the two ways of computing a variation
  agree in the units of the stored columns, only listed notifications are shown.  Services: a transaction is all or nothing and leaves
  one row per key, the last of its batch; a redelivered request changes nothing but \<open>updated_at\<close>; a request is committed only if
  nothing failed, or if a failure was swallowed and nothing was saved; a recommendation is asked for only after its experiment and workload exist, accounts, clusters and workloads are created each
  under the one before and the first two at most once, and over all services a row that the API shows is one that was saved for
  the caller's organisation, under its account; retries are bounded where the code bounds them.  Several theorems show where the code falls short: the clamp that
  reaches a value outside its column, a filter that overwrites another, permissions for nodes only, partitions dropped inside the
  retention period, a recovered panic and a database error taken for success, a failed request that is lost once a later one
  has been committed, a request that blocks its partition, unbounded repetition, errors
  answered with status 200, settings of clowder that are overwritten.

  \<^bold>\<open>Parameters and assumptions.\<close>  Decoding and encoding JSON, the validator of messages (its promises are \<open>validator_ok\<close>), the router (\<open>router_ok\<close>), \<open>uuid.Parse\<close>, the Unicode part of
  \<open>strings.ToLower\<close> and the replies of Kruize, Kafka, the database, the RBAC and sources services are arguments.  gorm gives a row without \<open>updated_at\<close> the time of
  its clock.  Assumed where a theorem names it: a database evaluates the conditions the code writes (\<open>row_semantics\<close>, \<open>database_ok\<close>), and gota filters,
  replaces columns and groups as documented, no comparison with a missing element being true (\<open>gota_laws\<close>), viper prefers explicit values to the environment and this to the
  default set last (\<open>viper_ok\<close>), gorm's \<open>FirstOrCreate\<close> takes the first row that meets its conditions (\<open>orm_ok\<close>), decoding a
  request gives back what was encoded (\<open>codec_ok\<close>), primary keys identify rows (\<open>identifiers_ok\<close>), and the API's queries join
  inserted rows (\<open>reads\<close>).  A condition put on a \<open>gorm.DB\<close> that is being chained is added in place.
  Kafka commits an offset with all offsets before it.

  \<^bold>\<open>Fuel.\<close>  \<open>Update_results\<close> calls itself again while Kruize says that the performance profile is null, so its fuel bounds the
  repetitions: \<open>Update_results_repeats\<close> shows that it is used up only if every reply said so, and \<open>Update_results_unbounded\<close>
  that no fuel is enough against such a Kruize.  The retries of an experiment (2), of the profile (5) and of a message (3) are
  the code's own bounds and always suffice.  \<open>chunk_loop\<close> has one step more than there are objects, which is enough for every positive
  chunk size.  The paging of permissions is a partial function: \<open>request_user_access_terminates\<close> says when it returns.

  \<^bold>\<open>Not modelled.\<close>  Writing log entries, metrics other than their increments, running migrations, registering the commands with
  cobra, listening and matching paths (net/http and echo), and the inside of the feature flag client: I/O and calls of libraries.
  What is left beyond these are imports, declarations and comments.
\<close>

end
